(* ===== verification/Prelude.thy ===== *)
theory Prelude
  imports Main "HOL-Library.Word"
begin

text \<open>
  Shared vocabulary of the development: the collections of rules the component proofs draw
  on, the C integer conversions, and list lemmas that belong to no single component.
\<close>

named_theorems wp_rules \<open>weakest precondition equations of the program constructors\<close>
named_theorems emits_rules \<open>composition rules of programs that only make events of a kind\<close>
named_theorems ok_simps \<open>what a step that returned normally says about its states\<close>
named_theorems safe_rules \<open>composition rules of programs without undefined behaviour\<close>
named_theorems tame_rules \<open>composition rules of programs that only extend the trace\<close>
named_theorems progress_rules \<open>loop bodies that use up a reply\<close>
named_theorems c_defs \<open>small wrappers that symbolic execution unfolds\<close>

subsection \<open>C integers\<close>

text \<open>Conversion to a 32-bit \<open>int\<close> and to a 64-bit \<open>long\<close>, as gcc defines it.\<close>

definition to_int32 :: "int \<Rightarrow> int" where
  "to_int32 x = signed_take_bit 31 x"

definition INT_MAX :: int where "INT_MAX = 2147483647"
definition INT_MIN :: int where "INT_MIN = - 2147483648"
definition LONG_MAX :: int where "LONG_MAX = 9223372036854775807"
definition LONG_MIN :: int where "LONG_MIN = - 9223372036854775808"

lemma to_int32_id: "INT_MIN \<le> x \<Longrightarrow> x \<le> INT_MAX \<Longrightarrow> to_int32 x = x"
  by (simp add: to_int32_def INT_MIN_def INT_MAX_def signed_take_bit_int_eq_self)

lemma to_int32_range: "INT_MIN \<le> to_int32 x \<and> to_int32 x \<le> INT_MAX"
  using signed_take_bit_int_greater_eq_minus_exp [of 31 x] signed_take_bit_int_less_exp [of 31 x]
  by (simp add: to_int32_def INT_MIN_def INT_MAX_def)

subsection \<open>Lists\<close>

lemma takeWhile_append_stop:
  "\<forall>c \<in> set xs. P c \<Longrightarrow> \<not> P y \<Longrightarrow> takeWhile P (xs @ y # ys) = xs"
  by (induction xs) auto

lemma dropWhile_append_stop:
  "\<forall>c \<in> set xs. P c \<Longrightarrow> \<not> P y \<Longrightarrow> dropWhile P (xs @ y # ys) = y # ys"
  by (induction xs) auto

lemma sum_list_upto: "2 * sum_list [0..int n] = int n * (int n + 1)"
proof (induction n)
  case (Suc n)
  have "[0..int (Suc n)] = [0..int n] @ [int (Suc n)]"
    using upto_rec2 [of 0 "int (Suc n)"] by simp
  with Suc show ?case by (simp add: algebra_simps)
qed simp

end
