(* ===== verification/CMem.thy ===== *)
theory CMem
  imports Prelude
begin

text \<open>
  C objects of type \<open>char[]\<close>: a list of bytes of fixed length in which a byte that was never
  written is \<open>None\<close>. Every access says whether it stays inside the object; an access that does
  not is \<open>None\<close> and becomes undefined behaviour of the program that makes it. The functions of
  \<open><string.h>\<close> the code uses are written over these accesses.
\<close>

type_synonym cbuf = "char option list"

abbreviation NUL :: char where "NUL \<equiv> CHR 0x00"
abbreviation NL :: char where "NL \<equiv> CHR 0x0A"
abbreviation TAB :: char where "TAB \<equiv> CHR 0x09"

definition uninit :: "nat \<Rightarrow> cbuf" where
  "uninit n = replicate n None"

definition poke :: "cbuf \<Rightarrow> nat \<Rightarrow> string \<Rightarrow> cbuf option" where
  "poke b i cs =
     (if i + length cs \<le> length b
      then Some (take i b @ map Some cs @ drop (i + length cs) b) else None)"

definition peek :: "cbuf \<Rightarrow> nat \<Rightarrow> nat \<Rightarrow> cbuf option" where
  "peek b i n = (if i + n \<le> length b then Some (take n (drop i b)) else None)"

text \<open>The C string that starts at the first byte: up to the first NUL, which must exist and be
  preceded by written bytes only.\<close>

fun cstr :: "cbuf \<Rightarrow> string option" where
  "cstr [] = None"
| "cstr (None # b) = None"
| "cstr (Some c # b) = (if c = NUL then Some [] else map_option (Cons c) (cstr b))"

definition c_string :: "string \<Rightarrow> bool" where
  "c_string s \<longleftrightarrow> NUL \<notin> set s"

definition lit :: "string \<Rightarrow> cbuf" where
  "lit s = map Some s"

text \<open>\<open>strcpy\<close>, \<open>strncpy\<close> (which pads with NUL bytes) and \<open>snprintf\<close> (which truncates and
  always terminates) of a text into an object at an offset.\<close>

definition c_strcpy :: "cbuf \<Rightarrow> string \<Rightarrow> cbuf option" where
  "c_strcpy b s = poke b 0 (s @ [NUL])"

definition c_strncpy :: "cbuf \<Rightarrow> string \<Rightarrow> nat \<Rightarrow> cbuf option" where
  "c_strncpy b s n = poke b 0 (take n s @ replicate (n - length s) NUL)"

definition c_memset :: "cbuf \<Rightarrow> char \<Rightarrow> nat \<Rightarrow> cbuf option" where
  "c_memset b c n = poke b 0 (replicate n c)"

definition c_snprintf :: "cbuf \<Rightarrow> nat \<Rightarrow> string \<Rightarrow> cbuf option" where
  "c_snprintf b n text = (if n = 0 then Some b else poke b 0 (take (n - 1) text @ [NUL]))"

lemma length_uninit [simp]: "length (uninit n) = n"
  by (simp add: uninit_def)

lemma length_poke: "poke b i cs = Some b' \<Longrightarrow> length b' = length b"
  by (auto simp: poke_def split: if_splits)

lemma poke_None_iff: "poke b i cs = None \<longleftrightarrow> length b < i + length cs"
  by (auto simp: poke_def)

lemma poke_Nil [simp]: "i \<le> length b \<Longrightarrow> poke b i [] = Some b"
  by (simp add: poke_def)

lemma poke_in_range: "i + length cs \<le> length b \<Longrightarrow>
    poke b i cs = Some (take i b @ map Some cs @ drop (i + length cs) b)"
  by (simp add: poke_def)

text \<open>Reading back a written string.\<close>

lemma cstr_append_NUL: "c_string s \<Longrightarrow> cstr (lit s @ Some NUL # b) = Some s"
  by (induction s) (auto simp: c_string_def lit_def)

lemma cstr_lit: "cstr (lit (s @ [NUL]) @ b) = Some (takeWhile (\<lambda>c. c \<noteq> NUL) s)"
  by (induction s) (auto simp: lit_def)

lemma cstr_no_NUL: "c_string s \<Longrightarrow> cstr (lit s) = None"
  by (induction s) (auto simp: c_string_def lit_def)

lemma cstr_uninit: "c_string s \<Longrightarrow> cstr (lit s @ uninit n) = None"
  by (induction s) (cases n; auto simp: c_string_def lit_def uninit_def)+

lemma cstr_c_string: "cstr b = Some s \<Longrightarrow> c_string s"
  by (induction b arbitrary: s rule: cstr.induct) (auto simp: c_string_def split: if_splits)

lemma cstr_length: "cstr b = Some s \<Longrightarrow> length s < length b"
  by (induction b arbitrary: s rule: cstr.induct) (auto split: if_splits)

lemma poke_start: "length cs \<le> length b \<Longrightarrow> \<exists>b'. poke b 0 cs = Some b' \<and> length b' = length b"
  by (simp add: poke_def)

text \<open>Without a NUL byte there is no string.\<close>

lemma cstr_None: "Some NUL \<notin> set b \<Longrightarrow> cstr b = None"
  by (induction b rule: cstr.induct) auto

lemma set_poke: "poke b i cs = Some b' \<Longrightarrow> set b' \<subseteq> set b \<union> Some ` set cs"
  by (auto simp: poke_def dest: in_set_takeD in_set_dropD split: if_splits)

text \<open>A second write just behind the first one continues it.\<close>

lemma poke_poke_append:
  assumes "poke b i cs = Some b'"
  shows "poke b' (i + length cs) ds = poke b i (cs @ ds)"
  using assms by (auto simp: poke_def ac_simps split: if_splits)

lemma strcpy_cstr:
  "c_string s \<Longrightarrow> c_strcpy b s = Some b' \<Longrightarrow> cstr b' = Some s"
  by (auto simp: c_strcpy_def poke_def cstr_append_NUL [unfolded lit_def] split: if_splits)

lemma strcpy_overflow: "c_strcpy b s = None \<longleftrightarrow> length b \<le> length s"
  by (auto simp: c_strcpy_def poke_def)

lemma snprintf_cstr:
  assumes "c_string t" "0 < n" "c_snprintf b n t = Some b'"
  shows "cstr b' = Some (take (n - 1) t)"
proof -
  have "c_string (take (n - 1) t)"
    using assms(1) by (auto simp: c_string_def dest: in_set_takeD)
  then show ?thesis
    using assms(2,3) by (auto simp: c_snprintf_def poke_def cstr_append_NUL [unfolded lit_def]
        split: if_splits)
qed

text \<open>Bytes written at the start of an object and terminated just behind them read back as the text
  before the first NUL.\<close>

lemma terminated_cstr:
  assumes "poke b 0 d = Some b1" "poke b1 (length d) [NUL] = Some b2"
  shows "cstr b2 = Some (takeWhile (\<lambda>c. c \<noteq> NUL) d)"
proof -
  have "poke b 0 (d @ [NUL]) = Some b2"
    using poke_poke_append [OF assms(1), of "[NUL]"] assms(2) by simp
  then show ?thesis
    using cstr_lit [of d] by (auto simp: poke_def lit_def split: if_splits)
qed

lemma lit_simps [simp]: "lit [] = []" "lit (xs @ ys) = lit xs @ lit ys" "length (lit xs) = length xs"
  by (simp_all add: lit_def)

lemma prefix_terminated_cstr:
  assumes "take (length t) b = lit t" "poke b (length t) [NUL] = Some b2"
  shows "cstr b2 = Some (takeWhile (\<lambda>c. c \<noteq> NUL) t)"
  using assms cstr_lit [of t "drop (Suc (length t)) b"] by (auto simp: poke_def lit_def split: if_splits)

end
