(* ===== verification/CLib.thy ===== *)
theory CLib
  imports CMem
begin

text \<open>
  The parts of the C library whose results the code computes with: decimal output, the
  conversions of \<open>printf\<close> formats used for texts the program goes on to use, \<open>strtol\<close>, and
  the character classes.
\<close>

subsection \<open>Decimal numbers\<close>

definition digit_char :: "nat \<Rightarrow> char" where
  "digit_char d = char_of (48 + d)"

fun show_nat :: "nat \<Rightarrow> string" where
  "show_nat n = (if n < 10 then [digit_char n] else show_nat (n div 10) @ [digit_char (n mod 10)])"

declare show_nat.simps [simp del]

definition show_int :: "int \<Rightarrow> string" where
  "show_int i = (if i < 0 then CHR ''-'' # show_nat (nat (- i)) else show_nat (nat i))"

subsection \<open>Formatted text\<close>

text \<open>
  An argument of a variadic call is a number or a string. \<open>cformat\<close> renders a format with the
  conversions \<open>%d\<close>, \<open>%ld\<close>, \<open>%s\<close>, \<open>%c\<close> and \<open>%%\<close>; too few arguments, or an argument of the
  wrong kind, are undefined behaviour in C and give \<open>None\<close>.
\<close>

datatype carg = N int | T string

fun cformat :: "string \<Rightarrow> carg list \<Rightarrow> string option" where
  "cformat [] as = Some []"
| "cformat (c # f) as =
     (if c \<noteq> CHR ''%'' then map_option (Cons c) (cformat f as)
      else case f of
          [] \<Rightarrow> None
        | d # f' \<Rightarrow>
            if d = CHR ''%'' then map_option (Cons d) (cformat f' as)
            else case as of
                [] \<Rightarrow> None
              | T s # as' \<Rightarrow> if d = CHR ''s'' then map_option ((@) s) (cformat f' as') else None
              | N i # as' \<Rightarrow>
                  if d = CHR ''d'' then map_option ((@) (show_int i)) (cformat f' as')
                  else if d = CHR ''c'' then map_option (Cons (char_of (nat (i mod 256)))) (cformat f' as')
                  else if d = CHR ''l''
                  then (case f' of
                          e # f'' \<Rightarrow> if e = CHR ''d''
                                     then map_option ((@) (show_int i)) (cformat f'' as') else None
                        | [] \<Rightarrow> None)
                  else None)"

subsection \<open>\<open>strtol\<close>\<close>

definition is_space :: "char \<Rightarrow> bool" where
  "is_space c \<longleftrightarrow> c = CHR '' '' \<or> (9 \<le> (of_char c :: nat) \<and> (of_char c :: nat) \<le> 13)"

text \<open>The value of a digit of a base up to 36.\<close>

definition digit_val :: "char \<Rightarrow> nat option" where
  "digit_val c =
     (let n = (of_char c :: nat) in
      if 48 \<le> n \<and> n \<le> 57 then Some (n - 48)
      else if 97 \<le> n \<and> n \<le> 122 then Some (n - 87)
      else if 65 \<le> n \<and> n \<le> 90 then Some (n - 55)
      else None)"

definition is_digit_of :: "nat \<Rightarrow> char \<Rightarrow> bool" where
  "is_digit_of base c = (case digit_val c of None \<Rightarrow> False | Some d \<Rightarrow> d < base)"

definition dval :: "char \<Rightarrow> nat" where
  "dval c = (case digit_val c of None \<Rightarrow> 0 | Some d \<Rightarrow> d)"

definition digits_val :: "nat \<Rightarrow> string \<Rightarrow> int" where
  "digits_val base cs = foldl (\<lambda>acc c. acc * int base + int (dval c)) 0 cs"

text \<open>A \<open>0x\<close> prefix counts only when a hexadecimal digit follows it.\<close>

definition has_hex_prefix :: "string \<Rightarrow> bool" where
  "has_hex_prefix s =
     (case s of
        z # x # d # _ \<Rightarrow> z = CHR ''0'' \<and> (x = CHR ''x'' \<or> x = CHR ''X'') \<and> is_digit_of 16 d
      | _ \<Rightarrow> False)"

definition strtol_base :: "nat \<Rightarrow> string \<Rightarrow> nat" where
  "strtol_base base s =
     (if base \<noteq> 0 then base
      else if has_hex_prefix s then 16
      else if s \<noteq> [] \<and> hd s = CHR ''0'' then 8 else 10)"

definition ERANGE :: int where "ERANGE = 34"

text \<open>
  \<open>strtol (nptr, &endptr, base)\<close>: the value, the text \<open>endptr\<close> points at, and the error number
  it stores, if any. Without digits nothing is consumed and the value is 0.
\<close>

definition strip_sign :: "string \<Rightarrow> bool \<times> string" where
  "strip_sign s =
     (case s of
        [] \<Rightarrow> (False, [])
      | c # cs \<Rightarrow> if c = CHR ''-'' then (True, cs) else if c = CHR ''+'' then (False, cs) else (False, s))"

definition strtol :: "string \<Rightarrow> nat \<Rightarrow> int \<times> string \<times> int option" where
  "strtol s base =
     (let (neg, s2) = strip_sign (dropWhile is_space s);
          b = strtol_base base s2;
          s3 = (if b = 16 \<and> has_hex_prefix s2 then drop 2 s2 else s2);
          ds = takeWhile (is_digit_of b) s3;
          rest = dropWhile (is_digit_of b) s3;
          v = (if neg then - digits_val b ds else digits_val b ds)
      in if ds = [] then (0, s, None)
         else if v < LONG_MIN then (LONG_MIN, rest, Some ERANGE)
         else if v > LONG_MAX then (LONG_MAX, rest, Some ERANGE)
         else (v, rest, None))"

subsection \<open>Decimal digits are read back\<close>

lemma of_char_digit_char: "d < 10 \<Longrightarrow> (of_char (digit_char d) :: nat) = 48 + d"
  by (simp add: digit_char_def)

lemma digit_val_digit_char: "d < 10 \<Longrightarrow> digit_val (digit_char d) = Some d"
  by (simp add: digit_val_def of_char_digit_char)

lemma dval_digit_char: "d < 10 \<Longrightarrow> dval (digit_char d) = d"
  by (simp add: dval_def digit_val_digit_char)

lemma is_digit_of_digit_char: "d < 10 \<Longrightarrow> 10 \<le> b \<Longrightarrow> is_digit_of b (digit_char d)"
  by (simp add: is_digit_of_def digit_val_digit_char)

lemma show_nat_not_Nil [simp]: "show_nat n \<noteq> []"
  by (subst show_nat.simps) simp

lemma show_nat_digits: "c \<in> set (show_nat n) \<Longrightarrow> is_digit_of 10 c"
proof (induction n rule: show_nat.induct)
  case (1 n)
  show ?case
  proof (cases "n < 10")
    case True
    with "1.prems" show ?thesis by (simp add: show_nat.simps [of n] is_digit_of_digit_char)
  next
    case False
    with "1.prems" "1.IH" show ?thesis
      by (auto simp: show_nat.simps [of n] is_digit_of_digit_char)
  qed
qed

lemma length_show_nat: "n < 10 ^ Suc k \<Longrightarrow> length (show_nat n) \<le> Suc k"
proof (induction k arbitrary: n)
  case 0
  then show ?case by (simp add: show_nat.simps [of n])
next
  case (Suc k)
  have "n div 10 < 10 ^ Suc k" using Suc.prems by (simp add: less_mult_imp_div_less mult.commute)
  from Suc.IH [OF this] show ?case by (subst show_nat.simps) simp
qed

lemma digits_val_snoc: "digits_val b (cs @ [c]) = digits_val b cs * int b + int (dval c)"
  by (simp add: digits_val_def)

lemma digits_val_show_nat: "digits_val 10 (show_nat n) = int n"
proof (induction n rule: show_nat.induct)
  case (1 n)
  show ?case
  proof (cases "n < 10")
    case True
    then show ?thesis
      by (simp add: show_nat.simps [of n] digits_val_def dval_digit_char)
  next
    case False
    with "1.IH" show ?thesis
      by (simp add: show_nat.simps [of n] digits_val_snoc dval_digit_char zdiv_int zmod_int)
  qed
qed

lemma digit_not_special:
  "is_digit_of 10 c \<Longrightarrow> \<not> is_space c \<and> c \<noteq> CHR ''-'' \<and> c \<noteq> CHR ''+'' \<and> c \<noteq> NUL"
  by (auto simp: is_digit_of_def digit_val_def is_space_def Let_def split: if_splits)

lemma show_nat_hd: "is_digit_of 10 (hd (show_nat n))"
  using show_nat_digits [of "hd (show_nat n)" n] by simp

lemma dropWhile_space_show:
  "dropWhile is_space (show_nat n) = show_nat n"
  using show_nat_hd [of n] digit_not_special by (cases "show_nat n") auto

lemma takeWhile_digits_show: "takeWhile (is_digit_of 10) (show_nat n) = show_nat n"
  by (simp add: show_nat_digits)

lemma dropWhile_digits_show: "dropWhile (is_digit_of 10) (show_nat n) = []"
  by (simp add: show_nat_digits)

lemma show_int_not_Nil [simp]: "show_int i \<noteq> []"
  by (simp add: show_int_def)

lemma not_space_minus [simp]: "\<not> is_space (CHR ''-'')"
  by (simp add: is_space_def)

text \<open>The whole text is a number: how the pieces fit together.\<close>

lemma strtol_10:
  assumes "strip_sign (dropWhile is_space s) = (neg, t)"
  shows "strtol s 10 =
    (let ds = takeWhile (is_digit_of 10) t; rest = dropWhile (is_digit_of 10) t;
         v = (if neg then - digits_val 10 ds else digits_val 10 ds)
     in if ds = [] then (0, s, None)
        else if v < LONG_MIN then (LONG_MIN, rest, Some ERANGE)
        else if v > LONG_MAX then (LONG_MAX, rest, Some ERANGE)
        else (v, rest, None))"
  by (simp add: strtol_def assms strtol_base_def)

text \<open>Base 10 conversion of a printed number gives the number back and consumes all of it.\<close>

lemma strip_sign_digit: "is_digit_of 10 c \<Longrightarrow> strip_sign (c # cs) = (False, c # cs)"
  using digit_not_special by (auto simp: strip_sign_def)

lemma strtol_show_int:
  assumes "LONG_MIN \<le> i" "i \<le> LONG_MAX"
  shows "strtol (show_int i) 10 = (i, [], None)"
proof (cases "i < 0")
  case True
  then have "strip_sign (dropWhile is_space (show_int i)) = (True, show_nat (nat (- i)))"
    by (simp add: show_int_def strip_sign_def)
  from strtol_10 [OF this] show ?thesis
    using assms True by (simp add: takeWhile_digits_show dropWhile_digits_show digits_val_show_nat)
next
  case False
  then have "strip_sign (dropWhile is_space (show_int i)) = (False, show_nat (nat i))"
    using show_nat_hd [of "nat i"] strip_sign_digit digit_not_special
    by (cases "show_nat (nat i)") (simp_all add: show_int_def dropWhile_space_show)
  from strtol_10 [OF this] show ?thesis
    using assms False by (simp add: takeWhile_digits_show dropWhile_digits_show digits_val_show_nat)
qed

lemma c_string_show_int: "c_string (show_int i)"
  using show_nat_digits digit_not_special
  by (fastforce simp: c_string_def show_int_def)

lemma strtol_value_range: "strtol s b = (v, r, e) \<Longrightarrow> LONG_MIN \<le> v \<and> v \<le> LONG_MAX"
  by (auto simp: strtol_def Let_def LONG_MIN_def LONG_MAX_def split: if_splits prod.splits)

subsection \<open>Integers in memory\<close>

text \<open>The bytes of an integer, least significant first, and the signed integer of some bytes.\<close>

fun le_bytes :: "nat \<Rightarrow> int \<Rightarrow> string" where
  "le_bytes 0 x = []"
| "le_bytes (Suc n) x = char_of (nat (x mod 256)) # le_bytes n (x div 256)"

fun le_uint :: "string \<Rightarrow> int" where
  "le_uint [] = 0"
| "le_uint (c # cs) = int (of_char c) + 256 * le_uint cs"

definition le_int :: "string \<Rightarrow> int" where
  "le_int bs = (let v = le_uint bs in if v < 2 ^ (8 * length bs - 1) then v else v - 2 ^ (8 * length bs))"

text \<open>An integer in an object: all its bytes must have been written.\<close>

definition cbuf_int :: "cbuf \<Rightarrow> int option" where
  "cbuf_int b = (if None \<in> set b then None else Some (le_int (map the b)))"

lemma cbuf_int_lit [simp]: "cbuf_int (lit bs) = Some (le_int bs)"
  by (auto simp: cbuf_int_def lit_def comp_def)

lemma length_le_bytes [simp]: "length (le_bytes n x) = n"
  by (induction n x rule: le_bytes.induct) simp_all

lemma le_uint_le_bytes: "le_uint (le_bytes n x) = x mod 256 ^ n"
proof (induction n x rule: le_bytes.induct)
  case (2 n x)
  have "int (of_char (char_of (nat (x mod 256)) :: char) :: nat) = x mod 256"
    by simp
  moreover have "x mod 256 + 256 * (x div 256 mod 256 ^ n) = x mod (256 * 256 ^ n)"
    by (simp add: zmod_zmult2_eq)
  ultimately show ?case using 2 by simp
qed simp

lemma le_int_le_bytes:
  assumes "- (2 ^ 31) \<le> x" "x < 2 ^ 31"
  shows "le_int (le_bytes 4 x) = x"
proof (cases "x < 0")
  case True
  then have "x mod 4294967296 = x + 4294967296"
    using assms mod_pos_pos_trivial [of "x + 4294967296" 4294967296] by simp
  with True assms show ?thesis by (simp add: le_int_def le_uint_le_bytes)
next
  case False
  with assms show ?thesis by (simp add: le_int_def le_uint_le_bytes mod_pos_pos_trivial)
qed

end
