(* ===== verification/OS.thy ===== *)
theory OS
  imports CLib
begin

text \<open>
  The process and its kernel. A C function is a program: a function of the process state that
  returns an outcome and the new state. The kernel and the rest of the system are not in the
  repository and are a parameter: the state carries the list of replies the system calls of
  this run get, in order, and every theorem quantifies over it. A call takes the next reply,
  stores the error number the reply carries, and is recorded in the trace together with its
  reply; when no reply is left the call has not returned yet and the run stops as \<open>Blocked\<close>.
  What a kernel promises about a reply (a \<open>read\<close> returns at most as many bytes as were asked
  for) is \<open>legal\<close>, a named hypothesis of the theorems that need it.
\<close>

subsection \<open>Calls, replies and the trace\<close>

text \<open>The system calls the theorems look into have constructors; the others carry their name
  and arguments.\<close>

type_synonym mode_t = "32 word"

datatype call =
    Open string int "mode_t option"
  | Close int
  | Read int nat
  | Write int cbuf
  | Pread int nat nat
  | Readv int "nat list"
  | Writev int "cbuf list"
  | Lseek int int int
  | Pipe
  | Dup2 int int
  | Socket int int int
  | Accept int
  | Fork
  | Sys string "carg list"

text \<open>
  A reply: the returned value, the error number stored by the call (if it stores one), the
  bytes copied to the caller's buffer, and the integers and strings stored through the other
  result parameters, in the order of the call's documentation.
\<close>

record reply =
  ret :: int
  eno :: "int option"
  rdata :: string
  rints :: "int list"
  rstrs :: "string list"

definition r_ok :: "int \<Rightarrow> reply" where
  "r_ok n = \<lparr>ret = n, eno = None, rdata = [], rints = [], rstrs = []\<rparr>"

definition r_fail :: "int \<Rightarrow> reply" where
  "r_fail e = \<lparr>ret = -1, eno = Some e, rdata = [], rints = [], rstrs = []\<rparr>"

definition r_got :: "string \<Rightarrow> reply" where
  "r_got bs = \<lparr>ret = int (length bs), eno = None, rdata = bs, rints = [], rstrs = []\<rparr>"

definition out_int :: "reply \<Rightarrow> nat \<Rightarrow> int" where
  "out_int r i = (if i < length (rints r) then rints r ! i else 0)"

definition out_str :: "reply \<Rightarrow> nat \<Rightarrow> string" where
  "out_str r i = (if i < length (rstrs r) then rstrs r ! i else [])"

datatype event =
    Did call reply              \<comment> \<open>a system call and its reply\<close>
  | Out string "carg list"      \<comment> \<open>\<open>printf\<close>\<close>
  | Err string "carg list"      \<comment> \<open>\<open>fprintf (stderr, ...)\<close>\<close>
  | ErrText string              \<comment> \<open>\<open>fputs (..., stderr)\<close>\<close>
  | Perror string int           \<comment> \<open>\<open>perror\<close> and the error number it describes\<close>
  | FlushOut
  | FlushErr

record proc =
  errno :: int
  replies :: "reply list"
  trace :: "event list"
  environ :: "string \<Rightarrow> string option"
  strerror :: "int \<Rightarrow> string"   \<comment> \<open>the message catalogue of the C library\<close>
  stdio_eno :: "int \<Rightarrow> int"      \<comment> \<open>what an output function leaves in \<open>errno\<close>\<close>

definition boot :: "reply list \<Rightarrow> proc" where
  "boot rs = \<lparr>errno = 0, replies = rs, trace = [], environ = (\<lambda>_. None), strerror = (\<lambda>_. ''e''),
     stdio_eno = (\<lambda>e. e)\<rparr>"

subsection \<open>Programs\<close>

datatype stop =
    Exited int          \<comment> \<open>\<open>exit\<close>\<close>
  | QuickExited int     \<comment> \<open>\<open>_exit\<close>\<close>
  | Aborted             \<comment> \<open>\<open>abort\<close>\<close>
  | Killed int          \<comment> \<open>by a signal whose action is to end the process\<close>
  | Blocked             \<comment> \<open>in a system call that has not returned\<close>
  | Undefined string    \<comment> \<open>the C standard gives the execution no meaning\<close>
  | Diverged            \<comment> \<open>an iteration of a loop that made no system call\<close>

datatype 'a outcome = Ok 'a | Stop stop

type_synonym ('m, 'a) prog = "'m proc_scheme \<Rightarrow> 'a outcome \<times> 'm proc_scheme"

definition return :: "'a \<Rightarrow> ('m, 'a) prog" where
  "return a s = (Ok a, s)"

definition stop :: "stop \<Rightarrow> ('m, 'a) prog" where
  "stop x s = (Stop x, s)"

definition bind :: "('m, 'a) prog \<Rightarrow> ('a \<Rightarrow> ('m, 'b) prog) \<Rightarrow> ('m, 'b) prog" where
  "bind m f s = (case m s of (Ok a, s') \<Rightarrow> f a s' | (Stop x, s') \<Rightarrow> (Stop x, s'))"

definition seq :: "('m, 'a) prog \<Rightarrow> ('m, 'b) prog \<Rightarrow> ('m, 'b) prog" where
  "seq m n = bind m (\<lambda>_. n)"

definition skip :: "('m, unit) prog" where
  "skip = return ()"

definition only_if :: "bool \<Rightarrow> ('m, unit) prog \<Rightarrow> ('m, unit) prog" where
  "only_if b m = (if b then m else skip)"

text \<open>Output through \<open>stdio\<close>. Like every library function it may overwrite \<open>errno\<close>, even when it
  succeeds.\<close>

definition logged :: "event \<Rightarrow> 'm proc_scheme \<Rightarrow> 'm proc_scheme" where
  "logged e s = s\<lparr>trace := trace s @ [e], errno := stdio_eno s (errno s)\<rparr>"

definition emit :: "event \<Rightarrow> ('m, unit) prog" where
  "emit e s = (Ok (), logged e s)"

definition sys :: "call \<Rightarrow> ('m, reply) prog" where
  "sys c s =
     (case replies s of
        [] \<Rightarrow> (Stop Blocked, s)
      | r # rs \<Rightarrow>
          (Ok r, s\<lparr>replies := rs, trace := trace s @ [Did c r],
                   errno := (case eno r of None \<Rightarrow> errno s | Some e \<Rightarrow> e)\<rparr>))"

definition gets :: "('m proc_scheme \<Rightarrow> 'a) \<Rightarrow> ('m, 'a) prog" where
  "gets f s = (Ok (f s), s)"

definition modify :: "('m proc_scheme \<Rightarrow> 'm proc_scheme) \<Rightarrow> ('m, unit) prog" where
  "modify f s = (Ok (), f s)"

definition set_errno :: "int \<Rightarrow> ('m, unit) prog" where
  "set_errno e = modify (\<lambda>s. s\<lparr>errno := e\<rparr>)"

definition printf :: "string \<Rightarrow> carg list \<Rightarrow> ('m, unit) prog" where
  "printf f as = emit (Out f as)"

definition eprintf :: "string \<Rightarrow> carg list \<Rightarrow> ('m, unit) prog" where
  "eprintf f as = emit (Err f as)"

definition undef :: "string \<Rightarrow> ('m, 'a) prog" where
  "undef why = stop (Undefined why)"

text \<open>A value the C standard only defines in some cases.\<close>

definition require :: "'a option \<Rightarrow> string \<Rightarrow> ('m, 'a) prog" where
  "require x why = (case x of Some a \<Rightarrow> return a | None \<Rightarrow> undef why)"

text \<open>\<open>argv[i]\<close> handed to a function that needs a string: past the last argument it is a null
  pointer (or not an element at all).\<close>

definition argv_nth :: "string list \<Rightarrow> nat \<Rightarrow> ('m, string) prog" where
  "argv_nth argv i = require (if i < length argv then Some (argv ! i) else None) ''null argument''"

text \<open>Stores to a buffer and reading the string in it.\<close>

definition store :: "cbuf \<Rightarrow> nat \<Rightarrow> string \<Rightarrow> ('m, cbuf) prog" where
  "store b i cs = require (poke b i cs) ''write past the end of a buffer''"

definition load_string :: "cbuf \<Rightarrow> ('m, string) prog" where
  "load_string b = require (cstr b) ''string without terminating NUL''"

subsection \<open>Loops\<close>

text \<open>
  \<open>loop body a\<close> runs the body until it answers \<open>Inr\<close>. Every iteration of the loops of the code
  makes a system call; the number of replies left is then what decreases. An iteration that
  consumed none would repeat for ever and is reported as \<open>Diverged\<close>.
\<close>

function loop :: "('a \<Rightarrow> ('m, 'a + 'b) prog) \<Rightarrow> 'a \<Rightarrow> ('m, 'b) prog" where
  "loop body a s =
     (case body a s of
        (Ok (Inl a'), s') \<Rightarrow>
          (if length (replies s') < length (replies s) then loop body a' s' else (Stop Diverged, s'))
      | (Ok (Inr b), s') \<Rightarrow> (Ok b, s')
      | (Stop x, s') \<Rightarrow> (Stop x, s'))"
  by pat_completeness auto
termination
  by (relation "measure (\<lambda>(body, a, s). length (replies s))") auto

declare loop.simps [simp del]

definition again :: "'a \<Rightarrow> ('m, 'a + 'b) prog" where
  "again a = return (Inl a)"

definition leave :: "'b \<Rightarrow> ('m, 'a + 'b) prog" where
  "leave b = return (Inr b)"

fun for_each :: "'a list \<Rightarrow> ('a \<Rightarrow> ('m, unit) prog) \<Rightarrow> ('m, unit) prog" where
  "for_each [] f = skip"
| "for_each (x # xs) f = seq (f x) (for_each xs f)"

text \<open>A bounded loop that threads local variables.\<close>

fun fold_each :: "'a list \<Rightarrow> ('a \<Rightarrow> 'b \<Rightarrow> ('m, 'b) prog) \<Rightarrow> 'b \<Rightarrow> ('m, 'b) prog" where
  "fold_each [] f b = return b"
| "fold_each (x # xs) f b = bind (f x b) (\<lambda>b'. fold_each xs f b')"

subsection \<open>What the kernel promises\<close>

text \<open>
  The documented results of the calls with constructors: -1 with an error number or a value of
  the call's range; \<open>read\<close> delivers exactly as many bytes as it returns and at most as many as
  were asked for; \<open>write\<close> accepts at most what it was given.
\<close>

fun legal :: "event \<Rightarrow> bool" where
  "legal (Did (Read fd n) r) =
     (ret r = -1 \<and> eno r \<noteq> None \<or> 0 \<le> ret r \<and> ret r \<le> int n \<and> int (length (rdata r)) = ret r)"
| "legal (Did (Write fd b) r) = (ret r = -1 \<and> eno r \<noteq> None \<or> 0 \<le> ret r \<and> ret r \<le> int (length b))"
| "legal (Did (Pread fd n off) r) =
     (ret r = -1 \<and> eno r \<noteq> None \<or> 0 \<le> ret r \<and> ret r \<le> int n \<and> int (length (rdata r)) = ret r)"
| "legal (Did (Readv fd ns) r) =
     (ret r = -1 \<and> eno r \<noteq> None \<or>
      0 \<le> ret r \<and> ret r \<le> int (sum_list ns) \<and> int (length (rdata r)) = ret r)"
| "legal (Did (Writev fd bs) r) =
     (ret r = -1 \<and> eno r \<noteq> None \<or> 0 \<le> ret r \<and> ret r \<le> int (length (concat bs)))"
| "legal (Did (Lseek fd off w) r) = (ret r = -1 \<and> eno r \<noteq> None \<or> 0 \<le> ret r)"
| "legal (Did (Close fd) r) = (ret r = -1 \<and> eno r \<noteq> None \<or> ret r = 0)"
| "legal (Did (Open p f m) r) = (ret r = -1 \<and> eno r \<noteq> None \<or> 0 \<le> ret r)"
| "legal (Did (Dup2 a b) r) = (ret r = -1 \<and> eno r \<noteq> None \<or> ret r = b)"
| "legal (Did (Socket a b c) r) = (ret r = -1 \<and> eno r \<noteq> None \<or> 0 \<le> ret r)"
| "legal (Did (Accept fd) r) = (ret r = -1 \<and> eno r \<noteq> None \<or> 0 \<le> ret r)"
| "legal (Did Fork r) = (ret r = -1 \<and> eno r \<noteq> None \<or> 0 \<le> ret r)"
| "legal _ = True"

definition legal_trace :: "event list \<Rightarrow> bool" where
  "legal_trace tr \<longleftrightarrow> list_all legal tr"

lemma legal_trace_simps [simp]:
  "legal_trace []"
  "legal_trace (e # es) \<longleftrightarrow> legal e \<and> legal_trace es"
  "legal_trace (xs @ ys) \<longleftrightarrow> legal_trace xs \<and> legal_trace ys"
  by (simp_all add: legal_trace_def)

subsection \<open>Weakest preconditions\<close>

definition wp :: "('m, 'a) prog \<Rightarrow> ('a outcome \<Rightarrow> 'm proc_scheme \<Rightarrow> bool) \<Rightarrow> 'm proc_scheme \<Rightarrow> bool" where
  "wp m Q s = (case m s of (out, s') \<Rightarrow> Q out s')"

lemma wpD: "wp m Q s \<Longrightarrow> m s = (out, s') \<Longrightarrow> Q out s'"
  by (simp add: wp_def)

lemma wpI: "(\<And>out s'. m s = (out, s') \<Longrightarrow> Q out s') \<Longrightarrow> wp m Q s"
  by (simp add: wp_def split: prod.splits)

lemma fst_eq_wp: "fst (m s) = x \<longleftrightarrow> wp m (\<lambda>out _. out = x) s"
  by (simp add: wp_def split: prod.splits)

text \<open>Symbolic execution goes from the front: the simplifier leaves the program and the
  postcondition alone until a rule applies.\<close>

lemma wp_cong: "s = s' \<Longrightarrow> wp m Q s = wp m Q s'"
  by simp

lemma wp_mono: "wp m Q s \<Longrightarrow> (\<And>out s'. Q out s' \<Longrightarrow> R out s') \<Longrightarrow> wp m R s"
  by (simp add: wp_def split: prod.splits)

lemma wp_return [wp_rules]: "wp (return a) Q s = Q (Ok a) s"
  by (simp add: wp_def return_def)

lemma wp_stop [wp_rules]: "wp (stop x) Q s = Q (Stop x) s"
  by (simp add: wp_def stop_def)

lemma wp_bind [wp_rules]:
  "wp (bind m f) Q s =
     wp m (\<lambda>out s'. case out of Ok a \<Rightarrow> wp (f a) Q s' | Stop x \<Rightarrow> Q (Stop x) s') s"
  by (simp add: wp_def bind_def split: prod.splits outcome.splits)

lemma wp_seq [wp_rules]:
  "wp (seq m n) Q s =
     wp m (\<lambda>out s'. case out of Ok a \<Rightarrow> wp n Q s' | Stop x \<Rightarrow> Q (Stop x) s') s"
  by (simp add: seq_def wp_bind)

lemma wp_skip [wp_rules]: "wp skip Q s = Q (Ok ()) s"
  by (simp add: skip_def wp_return)

lemma wp_Let [wp_rules]: "wp (Let a f) Q s = wp (f a) Q s"
  by simp

lemma wp_only_if [wp_rules]: "wp (only_if b m) Q s = (if b then wp m Q s else Q (Ok ()) s)"
  by (simp add: only_if_def wp_skip)

lemma wp_if [wp_rules]: "wp (if b then m else n) Q s = (if b then wp m Q s else wp n Q s)"
  by simp

lemma wp_emit [wp_rules]: "wp (emit e) Q s = Q (Ok ()) (logged e s)"
  by (simp add: wp_def emit_def)

lemma wp_gets [wp_rules]: "wp (gets f) Q s = Q (Ok (f s)) s"
  by (simp add: wp_def gets_def)

lemma wp_modify [wp_rules]: "wp (modify f) Q s = Q (Ok ()) (f s)"
  by (simp add: wp_def modify_def)

definition after :: "call \<Rightarrow> reply \<Rightarrow> reply list \<Rightarrow> 'm proc_scheme \<Rightarrow> 'm proc_scheme" where
  "after c r rs s = s\<lparr>replies := rs, trace := trace s @ [Did c r],
     errno := (case eno r of None \<Rightarrow> errno s | Some e \<Rightarrow> e)\<rparr>"

lemma wp_sys [wp_rules]:
  "wp (sys c) Q s = (case replies s of [] \<Rightarrow> Q (Stop Blocked) s | r # rs \<Rightarrow> Q (Ok r) (after c r rs s))"
  by (simp add: wp_def sys_def after_def split: list.splits)

lemma after_simps [simp]:
  "replies (after c r rs s) = rs"
  "trace (after c r rs s) = trace s @ [Did c r]"
  "errno (after c r rs s) = (case eno r of None \<Rightarrow> errno s | Some e \<Rightarrow> e)"
  "environ (after c r rs s) = environ s"
  "strerror (after c r rs s) = strerror s"
  "stdio_eno (after c r rs s) = stdio_eno s"
  by (simp_all add: after_def)

lemma logged_simps [simp]:
  "replies (logged e s) = replies s"
  "trace (logged e s) = trace s @ [e]"
  "errno (logged e s) = stdio_eno s (errno s)"
  "environ (logged e s) = environ s"
  "strerror (logged e s) = strerror s"
  "stdio_eno (logged e s) = stdio_eno s"
  by (simp_all add: logged_def)

text \<open>Total rule for loops: the invariant holds at each iteration and each iteration uses up a
  reply, so \<open>Diverged\<close> cannot be the result of the loop itself.\<close>

lemma wp_loop:
  assumes step: "\<And>a s. I a s \<Longrightarrow>
      wp (body a) (\<lambda>out s'. case out of
          Ok (Inl a') \<Rightarrow> I a' s' \<and> length (replies s') < length (replies s)
        | Ok (Inr b) \<Rightarrow> Q (Ok b) s'
        | Stop x \<Rightarrow> Q (Stop x) s') s"
    and "I a s"
  shows "wp (loop body a) Q s"
  using assms(2)
proof (induction "length (replies s)" arbitrary: a s rule: less_induct)
  case less
  obtain out s' where b: "body a s = (out, s')" by fastforce
  from step [OF less.prems] b
  have "case out of Ok (Inl a') \<Rightarrow> I a' s' \<and> length (replies s') < length (replies s)
        | Ok (Inr b) \<Rightarrow> Q (Ok b) s' | Stop x \<Rightarrow> Q (Stop x) s'"
    by (simp add: wp_def)
  with less.hyps b show ?case
    by (auto simp: wp_def loop.simps [of body a s] split: outcome.splits sum.splits)
qed

lemma wp_require [wp_rules]:
  "wp (require x why) Q s = (case x of Some a \<Rightarrow> Q (Ok a) s | None \<Rightarrow> Q (Stop (Undefined why)) s)"
  by (simp add: require_def undef_def wp_return wp_stop split: option.splits)

lemma wp_for_each [wp_rules]:
  "wp (for_each [] f) Q s = Q (Ok ()) s"
  "wp (for_each (x # xs) f) Q s = wp (seq (f x) (for_each xs f)) Q s"
  by (simp_all add: wp_skip)

lemma wp_fold_each [wp_rules]:
  "wp (fold_each [] g b) Q s = Q (Ok b) s"
  "wp (fold_each (x # xs) g b) Q s = wp (bind (g x b) (fold_each xs g)) Q s"
  by (simp_all add: wp_return)

lemma wp_store [wp_rules]:
  "wp (store b i cs) Q s = (case poke b i cs of Some b' \<Rightarrow> Q (Ok b') s
     | None \<Rightarrow> Q (Stop (Undefined ''write past the end of a buffer'')) s)"
  by (simp add: store_def wp_require)

lemma wp_load_string [wp_rules]:
  "wp (load_string b) Q s = (case cstr b of Some t \<Rightarrow> Q (Ok t) s
     | None \<Rightarrow> Q (Stop (Undefined ''string without terminating NUL'')) s)"
  by (simp add: load_string_def wp_require)

lemma wp_argv_nth [wp_rules]:
  "wp (argv_nth argv i) Q s =
     (if i < length argv then Q (Ok (argv ! i)) s else Q (Stop (Undefined ''null argument'')) s)"
  by (simp add: argv_nth_def wp_require)

lemma wp_wrappers [wp_rules]:
  "wp (set_errno e) Q1 s = Q1 (Ok ()) (s\<lparr>errno := e\<rparr>)"
  "wp (printf f as) Q1 s = Q1 (Ok ()) (logged (Out f as) s)"
  "wp (eprintf f as) Q1 s = Q1 (Ok ()) (logged (Err f as) s)"
  by (simp_all add: set_errno_def printf_def eprintf_def wp_modify wp_emit)

lemma wp_undef [wp_rules]: "wp (undef why) Q s = Q (Stop (Undefined why)) s"
  by (simp add: undef_def wp_stop)

lemma wp_again [wp_rules]: "wp (again a) Q s = Q (Ok (Inl a)) s" "wp (leave b) Q' s = Q' (Ok (Inr b)) s"
  by (simp_all add: again_def leave_def wp_return)

lemma wp_split [wp_rules]: "wp (case (a, b) of (x, y) \<Rightarrow> f x y) Q s = wp (f a b) Q s"
  by simp

lemmas wrapper_defs [c_defs] =
  set_errno_def printf_def eprintf_def undef_def argv_nth_def store_def load_string_def
  again_def leave_def

lemma wp_conj: "wp m Q s \<Longrightarrow> wp m R s \<Longrightarrow> wp m (\<lambda>out s'. Q out s' \<and> R out s') s"
  by (simp add: wp_def split: prod.splits)

subsection \<open>Programs that only make events of a kind\<close>

text \<open>\<open>emits P m\<close>: whatever the kernel answers, the events \<open>m\<close> adds to the trace satisfy \<open>P\<close>.\<close>

definition emits :: "(event \<Rightarrow> bool) \<Rightarrow> ('m, 'a) prog \<Rightarrow> bool" where
  "emits P m \<longleftrightarrow> (\<forall>s. \<exists>es. trace (snd (m s)) = trace s @ es \<and> list_all P es)"

lemma emitsD:
  assumes "emits P m" "m s = (out, s')"
  obtains es where "trace s' = trace s @ es" "list_all P es"
  using assms unfolding emits_def by (metis snd_conv)

lemma emitsI: "(\<And>s out s'. m s = (out, s') \<Longrightarrow> \<exists>es. trace s' = trace s @ es \<and> list_all P es) \<Longrightarrow> emits P m"
  unfolding emits_def by (metis prod.collapse)

lemma emits_wp: "emits P m \<Longrightarrow> wp m (\<lambda>out s'. \<exists>es. trace s' = trace s @ es \<and> list_all P es) s"
  by (auto intro!: wpI elim: emitsD)

lemma emits_bind [emits_rules]:
  assumes m: "emits P m" and f: "\<And>a. emits P (f a)"
  shows "emits P (bind m f)"
proof (rule emitsI)
  fix s out s'
  assume r: "bind m f s = (out, s')"
  obtain o1 s1 where 1: "m s = (o1, s1)" by fastforce
  from m 1 obtain es1 where e1: "trace s1 = trace s @ es1" "list_all P es1" by (rule emitsD)
  show "\<exists>es. trace s' = trace s @ es \<and> list_all P es"
  proof (cases o1)
    case (Ok a)
    with r 1 have "f a s1 = (out, s')" by (simp add: bind_def)
    with f obtain es2 where "trace s' = trace s1 @ es2" "list_all P es2" by (blast elim: emitsD)
    with e1 show ?thesis by (intro exI [of _ "es1 @ es2"]) simp
  next
    case (Stop x)
    with r 1 e1 show ?thesis by (auto simp: bind_def)
  qed
qed

lemma emits_seq [emits_rules]: "emits P m \<Longrightarrow> emits P n \<Longrightarrow> emits P (seq m n)"
  by (simp add: seq_def emits_bind)

lemma emits_quiet:
  "(\<And>s. trace (snd (m s)) = trace s) \<Longrightarrow> emits P m"
  by (simp add: emits_def)

lemma emits_silent [emits_rules]:
  "emits P (return a)" "emits P (stop x)" "emits P skip" "emits P (gets f)" "emits P (undef why)"
  "emits P (require ov why)"
  by (rule emits_quiet, simp add: return_def stop_def skip_def gets_def undef_def require_def
      split: option.splits)+

lemma emits_emit [emits_rules]: "P e \<Longrightarrow> emits P (emit e)"
  by (auto simp: emits_def emit_def logged_def)

lemma emits_sys [emits_rules]: "(\<And>r. P (Did c r)) \<Longrightarrow> emits P (sys c)"
  by (auto simp: emits_def sys_def split: list.splits)

lemma emits_only_if [emits_rules]: "(b \<Longrightarrow> emits P m) \<Longrightarrow> emits P (only_if b m)"
  by (simp add: only_if_def emits_silent)

lemma emits_if [emits_rules]: "(b \<Longrightarrow> emits P m) \<Longrightarrow> (\<not> b \<Longrightarrow> emits P n) \<Longrightarrow> emits P (if b then m else n)"
  by simp

lemma emits_modify [emits_rules]: "(\<And>s. trace (f s) = trace s) \<Longrightarrow> emits P (modify f)"
  by (simp add: emits_def modify_def)

lemma emits_wrappers [emits_rules]:
  "emits P (set_errno e)" "emits P (argv_nth argv i)" "emits P (store b k cs)"
  "emits P (load_string b)" "emits P (again x)" "emits P (leave y)"
  by (simp_all add: wrapper_defs emits_silent emits_modify)

lemma emits_printf [emits_rules]: "P (Out f as) \<Longrightarrow> emits P (printf f as)"
  by (simp add: printf_def emits_emit)

lemma emits_eprintf [emits_rules]: "P (Err f as) \<Longrightarrow> emits P (eprintf f as)"
  by (simp add: eprintf_def emits_emit)

lemma emits_for_each [emits_rules]: "(\<And>x. x \<in> set xs \<Longrightarrow> emits P (f x)) \<Longrightarrow> emits P (for_each xs f)"
  by (induction xs) (auto intro: emits_rules)

lemma emits_fold_each [emits_rules]:
  "(\<And>x b. x \<in> set xs \<Longrightarrow> emits P (f x b)) \<Longrightarrow> emits P (fold_each xs f b)"
  by (induction xs arbitrary: b) (auto intro!: emits_rules)

lemma emits_loop [emits_rules]:
  assumes body: "\<And>a. emits P (body a)"
  shows "emits P (loop body a)"
proof -
  have "\<exists>es. trace (snd (loop body a s)) = trace s @ es \<and> list_all P es" for s
  proof (induction "length (replies s)" arbitrary: a s rule: less_induct)
    case less
    obtain out s' where b: "body a s = (out, s')" by fastforce
    with body obtain es where es: "trace s' = trace s @ es" "list_all P es" by (rule emitsD)
    show ?case
    proof (cases "\<exists>a'. out = Ok (Inl a') \<and> length (replies s') < length (replies s)")
      case True
      then obtain a' where a': "out = Ok (Inl a')" "length (replies s') < length (replies s)" by blast
      from less [OF a'(2)] obtain fs where "trace (snd (loop body a' s')) = trace s' @ fs" "list_all P fs"
        by blast
      with b es a' show ?thesis by (intro exI [of _ "es @ fs"]) (simp add: loop.simps [of body a s])
    next
      case False
      with b es show ?thesis
        by (auto simp: loop.simps [of body a s] split: outcome.splits sum.splits)
    qed
  qed
  then show ?thesis by (simp add: emits_def)
qed

subsection \<open>Runs that return\<close>

text \<open>Forward execution: what a program that returned normally has done.\<close>

lemma bind_ok [ok_simps]:
  "bind m f s = (Ok v, s') \<longleftrightarrow> (\<exists>a s1. m s = (Ok a, s1) \<and> f a s1 = (Ok v, s'))"
  by (auto simp: bind_def split: prod.splits outcome.splits)

lemma seq_ok [ok_simps]:
  "seq m n s = (Ok v, s') \<longleftrightarrow> (\<exists>a s1. m s = (Ok a, s1) \<and> n s1 = (Ok v, s'))"
  by (auto simp: seq_def bind_ok)

lemma return_ok [ok_simps]: "return a s = (Ok v, s') \<longleftrightarrow> v = a \<and> s' = s"
  by (auto simp: return_def)

lemma skip_ok [ok_simps]: "skip s = (Ok v, s') \<longleftrightarrow> s' = s"
  by (auto simp: skip_def return_def)

lemma stop_ok [ok_simps]: "stop x s = (Ok v, s') \<longleftrightarrow> False" "undef why s = (Ok v, s') \<longleftrightarrow> False"
  by (auto simp: stop_def undef_def)

lemma sys_ok [ok_simps]:
  "sys c s = (Ok r, s') \<longleftrightarrow> (\<exists>rs. replies s = r # rs \<and> s' = after c r rs s)"
  by (auto simp: sys_def after_def split: list.splits)

lemma emit_ok [ok_simps]:
  "emit e s = (Ok v, s') \<longleftrightarrow> s' = logged e s"
  "printf f as s = (Ok v, s') \<longleftrightarrow> s' = logged (Out f as) s"
  "eprintf f as s = (Ok v, s') \<longleftrightarrow> s' = logged (Err f as) s"
  by (auto simp: emit_def printf_def eprintf_def)

lemma gets_ok [ok_simps]: "gets f s = (Ok v, s') \<longleftrightarrow> v = f s \<and> s' = s"
  by (auto simp: gets_def)

lemma only_if_ok [ok_simps]:
  "only_if b m s = (Ok v, s') \<longleftrightarrow> b \<and> m s = (Ok v, s') \<or> \<not> b \<and> s' = s"
  by (auto simp: only_if_def skip_def return_def)

lemma if_ok [ok_simps]:
  "(if b then m else n) s = (Ok v, s') \<longleftrightarrow> b \<and> m s = (Ok v, s') \<or> \<not> b \<and> n s = (Ok v, s')"
  by simp

lemma require_ok [ok_simps]: "require x why s = (Ok v, s') \<longleftrightarrow> x = Some v \<and> s' = s"
  by (auto simp: require_def undef_def stop_def return_def split: option.splits)

lemma store_ok [ok_simps]: "store b i cs s = (Ok b', s') \<longleftrightarrow> poke b i cs = Some b' \<and> s' = s"
  by (simp add: store_def require_ok)

lemma load_string_ok [ok_simps]: "load_string b s = (Ok t, s') \<longleftrightarrow> cstr b = Some t \<and> s' = s"
  by (simp add: load_string_def require_ok)

lemma argv_nth_ok [ok_simps]: "argv_nth argv i s = (Ok t, s') \<longleftrightarrow> i < length argv \<and> t = argv ! i \<and> s' = s"
  by (auto simp: argv_nth_def require_ok)

lemma set_errno_ok [ok_simps]: "set_errno e s = (Ok v, s') \<longleftrightarrow> s' = s\<lparr>errno := e\<rparr>"
  by (auto simp: set_errno_def modify_def)

lemma modify_ok [ok_simps]: "modify f s = (Ok v, s') \<longleftrightarrow> s' = f s"
  by (auto simp: modify_def)

lemma again_ok [ok_simps]:
  "again a s = (Ok v, s') \<longleftrightarrow> v = Inl a \<and> s' = s" "leave b s = (Ok v', s') \<longleftrightarrow> v' = Inr b \<and> s' = s"
  by (auto simp: again_def leave_def return_def)

lemma Let_ok [ok_simps]: "Let a f s = (Ok v, s') \<longleftrightarrow> f a s = (Ok v, s')"
  by simp

subsection \<open>Programs without undefined behaviour\<close>

text \<open>
  \<open>safe_if K m R\<close>: when all events of a run of \<open>m\<close> satisfy \<open>K\<close>, the run does not end in undefined
  behaviour or in a loop without system calls, and a value it returns satisfies \<open>R\<close>. \<open>safe m R\<close> is
  the case in which the kernel keeps its promises and nothing else is assumed. \<open>tame m\<close> says that \<open>m\<close>
  only extends the trace and never gives replies back; every program of the model is tame.
  \<open>consumes m\<close> says that a further iteration has used up a reply.
\<close>

definition sane :: "stop \<Rightarrow> bool" where
  "sane x \<longleftrightarrow> (\<forall>why. x \<noteq> Undefined why) \<and> x \<noteq> Diverged"

definition safe_if :: "(event \<Rightarrow> bool) \<Rightarrow> ('m, 'a) prog \<Rightarrow> ('a \<Rightarrow> bool) \<Rightarrow> bool" where
  "safe_if K m R \<longleftrightarrow> (\<forall>s out s' es. m s = (out, s') \<longrightarrow> trace s' = trace s @ es \<longrightarrow> list_all K es \<longrightarrow>
     (case out of Ok a \<Rightarrow> R a | Stop x \<Rightarrow> sane x))"

definition tame :: "('m, 'a) prog \<Rightarrow> bool" where
  "tame m \<longleftrightarrow> (\<forall>s out s'. m s = (out, s') \<longrightarrow>
     (\<exists>es. trace s' = trace s @ es) \<and> length (replies s') \<le> length (replies s))"

definition consumes :: "('m, 'a + 'b) prog \<Rightarrow> bool" where
  "consumes m \<longleftrightarrow> (\<forall>s a s'. m s = (Ok (Inl a), s') \<longrightarrow> length (replies s') < length (replies s))"

abbreviation safe :: "('m, 'a) prog \<Rightarrow> ('a \<Rightarrow> bool) \<Rightarrow> bool" where
  "safe \<equiv> safe_if legal"

text \<open>A condition under which the kernel keeps its promises.\<close>

definition honest :: "(event \<Rightarrow> bool) \<Rightarrow> bool" where
  "honest K \<longleftrightarrow> (\<forall>e. K e \<longrightarrow> legal e)"

lemma honest_legal [simp]: "honest legal" "honest (\<lambda>e. legal e \<and> P e)"
  by (simp_all add: honest_def)

lemma safeD:
  assumes "safe_if K m R" "m s = (out, s')" "trace s' = trace s @ es" "list_all K es"
  shows "case out of Ok a \<Rightarrow> R a | Stop x \<Rightarrow> sane x"
  using assms unfolding safe_if_def by blast

lemma tameD: "tame m \<Longrightarrow> m s = (out, s') \<Longrightarrow> \<exists>es. trace s' = trace s @ es"
  "tame m \<Longrightarrow> m s = (out, s') \<Longrightarrow> length (replies s') \<le> length (replies s)"
  unfolding tame_def by blast+

lemma safe_mono: "safe_if K m R \<Longrightarrow> (\<And>a. R a \<Longrightarrow> S a) \<Longrightarrow> safe_if K m S"
  unfolding safe_if_def by (fastforce split: outcome.splits)

lemma tame_bind [tame_rules]:
  assumes m: "tame m" and f: "\<And>a. tame (f a)"
  shows "tame (bind m f)"
  unfolding tame_def
proof (intro allI impI)
  fix s out s'
  assume r: "bind m f s = (out, s')"
  obtain o1 s1 where 1: "m s = (o1, s1)" by fastforce
  note m1 = tameD [OF m 1]
  show "(\<exists>es. trace s' = trace s @ es) \<and> length (replies s') \<le> length (replies s)"
  proof (cases o1)
    case (Ok a)
    with r 1 have "f a s1 = (out, s')" by (simp add: bind_def)
    from tameD [OF f this] m1 show ?thesis by auto
  next
    case (Stop x)
    with r 1 m1 show ?thesis by (simp add: bind_def)
  qed
qed

lemma tame_seq [tame_rules]: "tame m \<Longrightarrow> tame n \<Longrightarrow> tame (seq m n)"
  by (simp add: seq_def tame_bind)

lemma tame_basic [tame_rules]:
  "tame (return a)" "tame (stop x)" "tame skip" "tame (gets f)" "tame (undef why)"
  "tame (require ov why)" "tame (emit e)" "tame (sys c)" "tame (printf fmt as)"
  "tame (eprintf fmt as)" "tame (set_errno n)" "tame (store b k cs)" "tame (load_string b)"
  "tame (argv_nth argv i)" "tame (again y)" "tame (leave z)"
  by (auto simp: tame_def return_def stop_def skip_def gets_def undef_def require_def emit_def
      sys_def printf_def eprintf_def set_errno_def modify_def store_def load_string_def argv_nth_def
      again_def leave_def logged_def split: option.splits list.splits)

lemma tame_modify [tame_rules]:
  "(\<And>s. trace (f s) = trace s) \<Longrightarrow> (\<And>s. replies (f s) = replies s) \<Longrightarrow> tame (modify f)"
  by (simp add: tame_def modify_def)

lemma tame_only_if [tame_rules]: "tame m \<Longrightarrow> tame (only_if b m)"
  by (simp add: only_if_def tame_basic)

lemma tame_if [tame_rules]: "tame m \<Longrightarrow> tame n \<Longrightarrow> tame (if b then m else n)"
  by simp

lemma tame_Let [tame_rules]: "tame (f a) \<Longrightarrow> tame (Let a f)"
  by simp

lemma tame_split [tame_rules]: "(\<And>a b. tame (f a b)) \<Longrightarrow> tame (case x of (a, b) \<Rightarrow> f a b)"
  by (cases x) simp

lemma tame_option [tame_rules]:
  "tame m \<Longrightarrow> (\<And>a. tame (f a)) \<Longrightarrow> tame (case x of None \<Rightarrow> m | Some a \<Rightarrow> f a)"
  by (cases x) simp_all

lemma tame_for_each [tame_rules]: "(\<And>x. tame (f x)) \<Longrightarrow> tame (for_each xs f)"
  by (induction xs) (simp_all add: tame_rules)

lemma tame_fold_each [tame_rules]: "(\<And>x b. tame (f x b)) \<Longrightarrow> tame (fold_each xs f b)"
  by (induction xs arbitrary: b) (simp_all add: tame_rules)

lemma tame_loop [tame_rules]:
  assumes body: "\<And>a. tame (body a)"
  shows "tame (loop body a)"
proof -
  have "loop body a s = (out, s') \<Longrightarrow>
      (\<exists>es. trace s' = trace s @ es) \<and> length (replies s') \<le> length (replies s)" for s out s'
  proof (induction "length (replies s)" arbitrary: a s rule: less_induct)
    case less
    obtain o1 s1 where b: "body a s = (o1, s1)" by fastforce
    note m1 = tameD [OF body b]
    show ?case
    proof (cases "\<exists>a'. o1 = Ok (Inl a') \<and> length (replies s1) < length (replies s)")
      case True
      then obtain a' where a': "o1 = Ok (Inl a')" "length (replies s1) < length (replies s)" by blast
      with b less.prems have "loop body a' s1 = (out, s')" by (simp add: loop.simps [of body a s])
      from less.hyps [OF a'(2) this] m1 show ?thesis by auto
    next
      case False
      with b less.prems m1 show ?thesis
        by (auto simp: loop.simps [of body a s] split: outcome.splits sum.splits if_splits)
    qed
  qed
  then show ?thesis unfolding tame_def by blast
qed

text \<open>Consuming: a system call first, and nothing gives replies back.\<close>

lemma consumes_sys [progress_rules]: "(\<And>r. tame (f r)) \<Longrightarrow> consumes (bind (sys c) f)"
  unfolding consumes_def
proof (intro allI impI)
  fix s a s'
  assume f: "\<And>r. tame (f r)" and "bind (sys c) f s = (Ok (Inl a), s')"
  then obtain r rs where r: "replies s = r # rs" "f r (after c r rs s) = (Ok (Inl a), s')"
    by (auto simp: ok_simps)
  from tameD(2) [OF f r(2)] r(1) show "length (replies s') < length (replies s)" by simp
qed

lemma consumes_bind: "tame m \<Longrightarrow> (\<And>a. consumes (f a)) \<Longrightarrow> consumes (bind m f)"
  unfolding consumes_def by (fastforce simp: ok_simps dest: tameD(2))

lemma consumes_seq: "tame m \<Longrightarrow> consumes n \<Longrightarrow> consumes (seq m n)"
  unfolding seq_def by (rule consumes_bind)

lemma consumes_leave [progress_rules]: "consumes (leave b)"
  by (auto simp: consumes_def ok_simps)

lemma consumes_if: "consumes m \<Longrightarrow> consumes n \<Longrightarrow> consumes (if b then m else n)"
  by simp

text \<open>The rules of \<open>safe\<close>.\<close>

lemma safe_bind [safe_rules]:
  assumes m: "safe_if K m R" and f: "\<And>a. R a \<Longrightarrow> safe_if K (f a) S" and t: "tame m" "\<And>a. tame (f a)"
  shows "safe_if K (bind m f) S"
  unfolding safe_if_def
proof (intro allI impI)
  fix s out s' es
  assume r: "bind m f s = (out, s')" and es: "trace s' = trace s @ es" "list_all K es"
  obtain o1 s1 where 1: "m s = (o1, s1)" by fastforce
  with t(1) obtain es1 where e1: "trace s1 = trace s @ es1" by (metis tameD(1))
  show "case out of Ok a \<Rightarrow> S a | Stop x \<Rightarrow> sane x"
  proof (cases o1)
    case (Ok a)
    with r 1 have fa: "f a s1 = (out, s')" by (simp add: bind_def)
    with t(2) obtain es2 where e2: "trace s' = trace s1 @ es2" by (metis tameD(1))
    with e1 es have l: "list_all K es1" "list_all K es2" by auto
    from safeD [OF m 1 e1 l(1)] Ok have "R a" by simp
    from safeD [OF f [OF this] fa e2 l(2)] show ?thesis .
  next
    case (Stop x)
    with r 1 have o: "out = Stop x" "s' = s1" by (auto simp: bind_def)
    from safeD [OF m 1] es o Stop show ?thesis by (auto split: outcome.splits)
  qed
qed

lemma safe_seq [safe_rules]:
  "safe_if K m R \<Longrightarrow> safe_if K n S \<Longrightarrow> tame m \<Longrightarrow> tame n \<Longrightarrow> safe_if K (seq m n) S"
  unfolding seq_def by (rule safe_bind)

lemma safe_return [safe_rules]: "R a \<Longrightarrow> safe_if K (return a) R"
  by (auto simp: safe_if_def return_def)

lemma safe_stop [safe_rules]: "sane x \<Longrightarrow> safe_if K (stop x) R"
  by (auto simp: safe_if_def stop_def)

lemma safe_skip [safe_rules]: "safe_if K skip (\<lambda>_. True)"
  by (auto simp: safe_if_def skip_def return_def)

lemma safe_emit [safe_rules]: "safe_if K (emit e) (\<lambda>_. True)" "safe_if K (printf f as) (\<lambda>_. True)"
  "safe_if K (eprintf f as) (\<lambda>_. True)" "safe_if K (modify g) (\<lambda>_. True)" "safe_if K (set_errno n) (\<lambda>_. True)"
  by (auto simp: safe_if_def emit_def printf_def eprintf_def modify_def set_errno_def)

lemma safe_gets [safe_rules]: "safe_if K (gets f) (\<lambda>_. True)"
  by (auto simp: safe_if_def gets_def)

lemma safe_sys [safe_rules]: "safe_if K (sys c) (\<lambda>r. K (Did c r))"
  by (auto simp: safe_if_def sys_def sane_def split: list.splits)

lemma safe_require [safe_rules]: "x \<noteq> None \<Longrightarrow> safe_if K (require x why) (\<lambda>a. x = Some a)"
  by (auto simp: safe_if_def require_def return_def)

lemma safe_store [safe_rules]:
  "i + length cs \<le> length b \<Longrightarrow> safe_if K (store b i cs) (\<lambda>b'. poke b i cs = Some b')"
  unfolding store_def by (rule safe_require) (simp add: poke_None_iff)

lemma safe_load_string [safe_rules]: "cstr b \<noteq> None \<Longrightarrow> safe_if K (load_string b) (\<lambda>t. cstr b = Some t)"
  unfolding load_string_def by (rule safe_require)

lemma safe_only_if [safe_rules]: "(b \<Longrightarrow> safe_if K m (\<lambda>_. True)) \<Longrightarrow> safe_if K (only_if b m) (\<lambda>_. True)"
  by (cases b) (simp_all add: only_if_def safe_skip)

lemma safe_if [safe_rules]: "(b \<Longrightarrow> safe_if K m R) \<Longrightarrow> (\<not> b \<Longrightarrow> safe_if K n R) \<Longrightarrow> safe_if K (if b then m else n) R"
  by simp

lemma safe_Let [safe_rules]: "safe_if K (f a) R \<Longrightarrow> safe_if K (Let a f) R"
  by simp

lemma safe_split [safe_rules]: "(\<And>a b. x = (a, b) \<Longrightarrow> safe_if K (f a b) R) \<Longrightarrow> safe_if K (case x of (a, b) \<Rightarrow> f a b) R"
  by (cases x) simp

lemma safe_again [safe_rules]:
  "R (Inl a) \<Longrightarrow> safe_if K (again a) R" "R (Inr b) \<Longrightarrow> safe_if K (leave b) R"
  by (auto simp: again_def leave_def intro: safe_return)

lemma safe_for_each [safe_rules]:
  "(\<And>x. x \<in> set xs \<Longrightarrow> safe_if K (f x) (\<lambda>_. True)) \<Longrightarrow> (\<And>x. tame (f x)) \<Longrightarrow> safe_if K (for_each xs f) (\<lambda>_. True)"
  by (induction xs) (auto intro!: safe_rules tame_rules)

lemma safe_fold_each:
  "I b \<Longrightarrow> (\<And>x b. x \<in> set xs \<Longrightarrow> I b \<Longrightarrow> safe_if K (f x b) I) \<Longrightarrow> (\<And>x b. tame (f x b)) \<Longrightarrow>
    safe_if K (fold_each xs f b) I"
  by (induction xs arbitrary: b) (auto intro!: safe_return safe_bind [where R = I] tame_rules)

lemma safe_loop:
  assumes body: "\<And>a. I a \<Longrightarrow> safe_if K (body a) (\<lambda>v. case v of Inl a' \<Rightarrow> I a' | Inr b \<Rightarrow> R b)"
    and t: "\<And>a. tame (body a)" and c: "\<And>a. consumes (body a)" and "I a"
  shows "safe_if K (loop body a) R"
proof -
  have "case out of Ok b \<Rightarrow> R b | Stop x \<Rightarrow> sane x"
    if "loop body a s = (out, s')" "trace s' = trace s @ es" "list_all K es" "I a" for s out s' es
    using that
  proof (induction "length (replies s)" arbitrary: a s es rule: less_induct)
    case less
    obtain o1 s1 where b: "body a s = (o1, s1)" by fastforce
    with t obtain e1 where e1: "trace s1 = trace s @ e1" by (metis tameD(1))
    show ?case
    proof (cases "\<exists>a'. o1 = Ok (Inl a')")
      case True
      then obtain a' where a': "o1 = Ok (Inl a')" by blast
      from b a' c have sm: "length (replies s1) < length (replies s)" unfolding consumes_def by blast
      with a' b less.prems have l: "loop body a' s1 = (out, s')" by (simp add: loop.simps [of body a s])
      from tameD(1) [OF tame_loop [OF t] l] obtain e2 where e2: "trace s' = trace s1 @ e2" by blast
      have "es = e1 @ e2" using e1 e2 less.prems(2) by simp
      with less.prems(3) have lg: "list_all K e1" "list_all K e2" by simp_all
      from safeD [OF body b e1 lg(1)] less.prems(4) a' have "I a'" by simp
      from less.hyps [OF sm l e2 lg(2) this] show ?thesis .
    next
      case False
      note bs = safeD [OF body [OF less.prems(4)] b]
      show ?thesis
      proof (cases o1)
        case (Ok v)
        with False obtain x where x: "o1 = Ok (Inr x)" by (cases v) auto
        with b less.prems(1) have "out = Ok x" "s' = s1" by (simp_all add: loop.simps [of body a s])
        with bs [OF _ less.prems(3)] less.prems(2) x show ?thesis by simp
      next
        case (Stop y)
        with b less.prems(1) have "out = Stop y" "s' = s1" by (simp_all add: loop.simps [of body a s])
        with bs [OF _ less.prems(3)] less.prems(2) Stop show ?thesis by simp
      qed
    qed
  qed
  with \<open>I a\<close> show ?thesis unfolding safe_if_def by blast
qed

subsection \<open>What a run adds to the trace\<close>

text \<open>\<open>traced K m Q\<close>: when the events \<open>es\<close> of a run of \<open>m\<close> satisfy \<open>K\<close>, its outcome and its events are
  related by \<open>Q\<close>.\<close>

definition traced :: "(event \<Rightarrow> bool) \<Rightarrow> ('m, 'a) prog \<Rightarrow> ('a outcome \<Rightarrow> event list \<Rightarrow> bool) \<Rightarrow> bool" where
  "traced K m Q \<longleftrightarrow> (\<forall>s out s' es. m s = (out, s') \<longrightarrow> trace s' = trace s @ es \<longrightarrow> list_all K es \<longrightarrow> Q out es)"

lemma tracedD:
  "traced K m Q \<Longrightarrow> m s = (out, s') \<Longrightarrow> trace s' = trace s @ es \<Longrightarrow> list_all K es \<Longrightarrow> Q out es"
  unfolding traced_def by blast

lemma traced_mono: "traced K m Q \<Longrightarrow> (\<And>out es. list_all K es \<Longrightarrow> Q out es \<Longrightarrow> R out es) \<Longrightarrow> traced K m R"
  unfolding traced_def by blast

lemma traced_conj: "traced K m Q \<Longrightarrow> traced K m R \<Longrightarrow> traced K m (\<lambda>out es. Q out es \<and> R out es)"
  unfolding traced_def by blast

lemma traced_bind:
  assumes m: "traced K m P" and t: "tame m" "\<And>a. tame (f a)"
    and f: "\<And>a es. P (Ok a) es \<Longrightarrow> list_all K es \<Longrightarrow> traced K (f a) (\<lambda>out fs. Q out (es @ fs))"
    and x: "\<And>x es. P (Stop x) es \<Longrightarrow> list_all K es \<Longrightarrow> Q (Stop x) es"
  shows "traced K (bind m f) Q"
  unfolding traced_def
proof (intro allI impI)
  fix s out s' es
  assume r: "bind m f s = (out, s')" and es: "trace s' = trace s @ es" "list_all K es"
  obtain o1 s1 where 1: "m s = (o1, s1)" by fastforce
  from tameD(1) [OF t(1) 1] obtain e1 where e1: "trace s1 = trace s @ e1" by blast
  show "Q out es"
  proof (cases o1)
    case (Ok a)
    with r 1 have fa: "f a s1 = (out, s')" by (simp add: bind_def)
    from tameD(1) [OF t(2) fa] obtain e2 where e2: "trace s' = trace s1 @ e2" by blast
    with e1 es(1) have "es = e1 @ e2" by simp
    with es(2) have l: "list_all K e1" "list_all K e2" "es = e1 @ e2" by simp_all
    from tracedD [OF m 1 e1 l(1)] Ok have "P (Ok a) e1" by simp
    from tracedD [OF f [OF this l(1)] fa e2 l(2)] l(3) show ?thesis by simp
  next
    case (Stop x)
    with r 1 have "out = Stop x" "s' = s1" by (auto simp: bind_def)
    with tracedD [OF m 1 e1] es e1 Stop x show ?thesis by simp
  qed
qed

lemma traced_seq:
  assumes "traced K m P" "tame m" "tame n"
    and "\<And>a es. P (Ok a) es \<Longrightarrow> list_all K es \<Longrightarrow> traced K n (\<lambda>out fs. Q out (es @ fs))"
    and "\<And>x es. P (Stop x) es \<Longrightarrow> list_all K es \<Longrightarrow> Q (Stop x) es"
  shows "traced K (seq m n) Q"
  unfolding seq_def by (rule traced_bind [OF assms(1,2,3)]) (use assms(4,5) in blast)+

lemma traced_sys: "traced K (sys c) (\<lambda>out es. out = Stop Blocked \<and> es = [] \<or>
    (\<exists>r. out = Ok r \<and> es = [Did c r] \<and> K (Did c r)))"
  by (auto simp: traced_def sys_def split: list.splits)

lemma traced_return: "Q (Ok a) [] \<Longrightarrow> traced K (return a) Q"
  by (auto simp: traced_def return_def)

lemma traced_skip: "Q (Ok ()) [] \<Longrightarrow> traced K skip Q"
  by (auto simp: traced_def return_def skip_def)

lemma traced_stop: "Q (Stop x) [] \<Longrightarrow> traced K (stop x) Q"
  by (auto simp: traced_def stop_def)

lemma traced_again: "Q (Ok (Inl a)) [] \<Longrightarrow> traced K (again a) Q"
  "Q' (Ok (Inr b)) [] \<Longrightarrow> traced K (leave b) Q'"
  by (auto simp: traced_def return_def again_def leave_def)

lemma traced_emit: "traced K (emit e) (\<lambda>out es. out = Ok () \<and> es = [e])"
  "traced K (printf f as) (\<lambda>out es. out = Ok () \<and> es = [Out f as])"
  "traced K (eprintf f as) (\<lambda>out es. out = Ok () \<and> es = [Err f as])"
  by (auto simp: traced_def emit_def printf_def eprintf_def)

lemma traced_gets: "traced K (gets f) (\<lambda>out es. es = [] \<and> (\<exists>v. out = Ok v))"
  by (auto simp: traced_def gets_def)

lemma traced_require: "traced K (require x why) (\<lambda>out es. es = [] \<and>
    out = (case x of Some a \<Rightarrow> Ok a | None \<Rightarrow> Stop (Undefined why)))"
  by (auto simp: traced_def require_def undef_def stop_def return_def split: option.splits)

lemma traced_if: "(b \<Longrightarrow> traced K m Q) \<Longrightarrow> (\<not> b \<Longrightarrow> traced K n Q) \<Longrightarrow> traced K (if b then m else n) Q"
  by simp

lemma traced_loop:
  assumes body: "\<And>a es. I a es \<Longrightarrow> list_all K es \<Longrightarrow> traced K (body a) (\<lambda>out fs.
      case out of Ok (Inl a') \<Rightarrow> I a' (es @ fs) | Ok (Inr b) \<Rightarrow> Q (Ok b) (es @ fs)
        | Stop x \<Rightarrow> Q (Stop x) (es @ fs))"
    and t: "\<And>a. tame (body a)" and c: "\<And>a. consumes (body a)" and "I a []"
  shows "traced K (loop body a) Q"
proof -
  have "Q out (es0 @ es)"
    if "loop body a s = (out, s')" "trace s' = trace s @ es" "list_all K es" "I a es0" "list_all K es0"
    for s out s' es0 es
    using that
  proof (induction "length (replies s)" arbitrary: a s es0 es rule: less_induct)
    case less
    obtain o1 s1 where b: "body a s = (o1, s1)" by fastforce
    from tameD(1) [OF t b] obtain e1 where e1: "trace s1 = trace s @ e1" by blast
    note st = tracedD [OF body [OF less.prems(4,5)] b e1]
    show ?case
    proof (cases o1)
      case (Ok v)
      show ?thesis
      proof (cases v)
        case (Inl a')
        from b Ok Inl c have sm: "length (replies s1) < length (replies s)" unfolding consumes_def by blast
        with Ok Inl b less.prems(1) have l: "loop body a' s1 = (out, s')"
          by (simp add: loop.simps [of body a s])
        from tameD(1) [OF tame_loop [OF t] l] obtain e2 where e2: "trace s' = trace s1 @ e2" by blast
        have es: "es = e1 @ e2" using e1 e2 less.prems(2) by simp
        with less.prems(3) have k: "list_all K e1" "list_all K e2" by simp_all
        from st [OF k(1)] Ok Inl have "I a' (es0 @ e1)" by simp
        from less.hyps [OF sm l e2 k(2) this] k(1) less.prems(5) es show ?thesis by simp
      next
        case (Inr w)
        with Ok b less.prems(1) have "out = Ok w" "s' = s1" by (simp_all add: loop.simps [of body a s])
        with st less.prems(2,3) e1 Ok Inr show ?thesis by simp
      qed
    next
      case (Stop y)
      with b less.prems(1) have "out = Stop y" "s' = s1" by (simp_all add: loop.simps [of body a s])
      with st less.prems(2,3) e1 Stop show ?thesis by simp
    qed
  qed
  from this [of _ _ _ _ "[]"] \<open>I a []\<close> show ?thesis unfolding traced_def by simp
qed

lemma safe_traced: "safe_if K m R \<longleftrightarrow> traced K m (\<lambda>out es. case out of Ok a \<Rightarrow> R a | Stop x \<Rightarrow> sane x)"
  by (simp add: safe_if_def traced_def)

lemma emits_traced: "emits P m \<Longrightarrow> traced K m (\<lambda>out es. list_all P es)"
  unfolding traced_def by (metis emitsD same_append_eq)

lemma traced_wp:
  assumes "traced K m Q" "tame m"
  shows "wp m (\<lambda>out s'. \<exists>es. trace s' = trace s @ es \<and> (list_all K es \<longrightarrow> Q out es)) s"
proof (rule wpI)
  fix out s'
  assume r: "m s = (out, s')"
  from tameD(1) [OF assms(2) r] tracedD [OF assms(1) r]
  show "\<exists>es. trace s' = trace s @ es \<and> (list_all K es \<longrightarrow> Q out es)" by blast
qed

subsection \<open>Programs that only print\<close>

text \<open>\<open>prints m es\<close>: \<open>m\<close> returns, makes no system call and adds exactly the events \<open>es\<close>.\<close>

definition prints :: "('m, unit) prog \<Rightarrow> event list \<Rightarrow> bool" where
  "prints m es \<longleftrightarrow> (\<forall>s. \<exists>s'. m s = (Ok (), s') \<and> replies s' = replies s \<and> trace s' = trace s @ es)"

named_theorems prints_rules \<open>composition rules of printing programs\<close>

lemma prints_printf [prints_rules]: "prints (printf f as) [Out f as]" "prints (eprintf f as) [Err f as]"
  by (auto simp: prints_def printf_def eprintf_def emit_def)

lemma prints_skip [prints_rules]: "prints skip []"
  by (auto simp: prints_def skip_def return_def)

lemma prints_seq [prints_rules]: "prints m es \<Longrightarrow> prints n fs \<Longrightarrow> prints (seq m n) (es @ fs)"
  unfolding prints_def seq_def bind_def
proof
  fix s
  assume m: "\<forall>s. \<exists>s'. m s = (Ok (), s') \<and> replies s' = replies s \<and> trace s' = trace s @ es"
    and n: "\<forall>s. \<exists>s'. n s = (Ok (), s') \<and> replies s' = replies s \<and> trace s' = trace s @ fs"
  from m obtain s1 where 1: "m s = (Ok (), s1)" "replies s1 = replies s" "trace s1 = trace s @ es" by blast
  from n obtain s2 where 2: "n s1 = (Ok (), s2)" "replies s2 = replies s1" "trace s2 = trace s1 @ fs" by blast
  from 1 2 show "\<exists>s'. (case m s of (Ok a, s') \<Rightarrow> n s' | (Stop x, s') \<Rightarrow> (Stop x, s')) = (Ok (), s') \<and>
      replies s' = replies s \<and> trace s' = trace s @ es @ fs" by simp
qed

lemma prints_only_if [prints_rules]: "(b \<Longrightarrow> prints m es) \<Longrightarrow> prints (only_if b m) (if b then es else [])"
  by (simp add: only_if_def prints_skip)

lemma prints_if [prints_rules]:
  "(b \<Longrightarrow> prints m es) \<Longrightarrow> (\<not> b \<Longrightarrow> prints n fs) \<Longrightarrow> prints (if b then m else n) (if b then es else fs)"
  by simp

lemma prints_for_each [prints_rules]:
  "(\<And>x. prints (g x) (h x)) \<Longrightarrow> prints (for_each xs g) (concat (map h xs))"
  by (induction xs) (simp_all add: prints_skip prints_seq)

lemma prints_require: "x = Some a \<Longrightarrow> prints (f a) es \<Longrightarrow> prints (bind (require x why) f) es"
  by (simp add: prints_def bind_def require_def return_def)

lemma printsD: "prints m es \<Longrightarrow> m s = (out, s') \<Longrightarrow> out = Ok () \<and> replies s' = replies s \<and> trace s' = trace s @ es"
  unfolding prints_def by (metis Pair_inject)

lemma prints_wp: "prints m es \<Longrightarrow> (\<And>s'. replies s' = replies s \<Longrightarrow> trace s' = trace s @ es \<Longrightarrow> Q (Ok ()) s') \<Longrightarrow> wp m Q s"
  unfolding prints_def wp_def by (metis case_prod_conv)

subsection \<open>Programs that do not claim success\<close>

text \<open>\<open>no_success m\<close>: no run of \<open>m\<close> ends with \<open>exit (EXIT_SUCCESS)\<close>.\<close>

definition no_success :: "('m, 'a) prog \<Rightarrow> bool" where
  "no_success m \<longleftrightarrow> (\<forall>s s'. m s \<noteq> (Stop (Exited 0), s'))"

lemma no_success_wpI: "(\<And>s. wp m (\<lambda>out _. out \<noteq> Stop (Exited 0)) s) \<Longrightarrow> no_success m"
  unfolding no_success_def wp_def by (metis (mono_tags, lifting) case_prod_conv)

named_theorems no_success_rules \<open>composition rules of programs that do not claim success\<close>

lemma no_success_bind [no_success_rules]:
  assumes "no_success m" "\<And>a. no_success (f a)"
  shows "no_success (bind m f)"
  using assms unfolding no_success_def bind_def by (auto split: prod.splits outcome.splits)

lemma no_success_seq [no_success_rules]: "no_success m \<Longrightarrow> no_success n \<Longrightarrow> no_success (seq m n)"
  unfolding seq_def by (rule no_success_bind)

lemma no_success_basic [no_success_rules]:
  "no_success (return a)" "no_success skip" "no_success (gets f)" "no_success (undef why)" "no_success (require ov why)"
  "no_success (emit e)" "no_success (sys c)" "no_success (printf fmt as)" "no_success (eprintf fmt as)"
  "no_success (set_errno n)" "no_success (store b k cs)" "no_success (load_string b)" "no_success (argv_nth argv i)"
  "no_success (again y)" "no_success (leave z)" "no_success (modify g)"
  by (auto simp: no_success_def return_def stop_def skip_def gets_def undef_def require_def emit_def
      sys_def printf_def eprintf_def set_errno_def modify_def store_def load_string_def argv_nth_def
      again_def leave_def logged_def split: option.splits list.splits)

lemma no_success_only_if [no_success_rules]: "no_success m \<Longrightarrow> no_success (only_if b m)"
  by (simp add: only_if_def no_success_basic)

lemma no_success_if [no_success_rules]: "no_success m \<Longrightarrow> no_success n \<Longrightarrow> no_success (if b then m else n)"
  by simp

lemma no_success_Let [no_success_rules]: "no_success (f a) \<Longrightarrow> no_success (Let a f)"
  by simp

lemma no_success_split [no_success_rules]: "(\<And>a b. no_success (f a b)) \<Longrightarrow> no_success (case x of (a, b) \<Rightarrow> f a b)"
  by (cases x) simp

lemma no_success_loop [no_success_rules]:
  assumes body: "\<And>a. no_success (body a)"
  shows "no_success (loop body a)"
proof -
  have "loop body a s \<noteq> (Stop (Exited 0), s')" for s s'
  proof (induction "length (replies s)" arbitrary: a s rule: less_induct)
    case less
    obtain out s1 where b: "body a s = (out, s1)" by fastforce
    with body have "out \<noteq> Stop (Exited 0)" unfolding no_success_def by metis
    with b less show ?case
      by (auto simp: loop.simps [of body a s] split: outcome.splits sum.splits)
  qed
  then show ?thesis unfolding no_success_def by blast
qed

text \<open>A program that ends with \<open>exit (EXIT_SUCCESS)\<close> does so when its body has returned.\<close>

lemma success_body:
  assumes "no_success m" "seq m (stop (Exited 0)) s = (Stop (Exited 0), s')"
  obtains v where "m s = (Ok v, s')"
  using assms unfolding no_success_def seq_def bind_def stop_def
  by (auto split: prod.splits outcome.splits)

end
