(* ===== verification/ErrorFns.thy ===== *)
theory ErrorFns
  imports OS
begin

text \<open>
  \<open>LinuxAPI/error/error_functions.c\<close> (and its identical copy in \<open>LinuxAPI2/error\<close>) and
  \<open>api3/helper.c\<close>: how the programs report a failed call. Each reporter is a program; the
  lemmas give its exact effect, and the locale \<open>reporter\<close> is the contract the other components
  use: a reporter does not return, ends the process with a failure and only adds diagnostics.
\<close>

definition EXIT_FAILURE :: int where "EXIT_FAILURE = 1"
definition EXIT_SUCCESS :: int where "EXIT_SUCCESS = 0"
definition MAX_ENAME :: int where "MAX_ENAME = 133"
definition ERR_BUF_SIZE :: nat where "ERR_BUF_SIZE = 500"

definition ename :: "string list" where
  "ename = [
      [], ''EPERM'', ''ENOENT'', ''ESRCH'', ''EINTR'', ''EIO'', ''ENXIO'', ''E2BIG'',
      ''ENOEXEC'', ''EBADF'', ''ECHILD'', ''EAGAIN/EWOULDBLOCK'', ''ENOMEM'', ''EACCES'',
      ''EFAULT'', ''ENOTBLK'', ''EBUSY'', ''EEXIST'', ''EXDEV'', ''ENODEV'', ''ENOTDIR'',
      ''EISDIR'', ''EINVAL'', ''ENFILE'', ''EMFILE'', ''ENOTTY'', ''ETXTBSY'', ''EFBIG'',
      ''ENOSPC'', ''ESPIPE'', ''EROFS'', ''EMLINK'', ''EPIPE'', ''EDOM'', ''ERANGE'',
      ''EDEADLK/EDEADLOCK'', ''ENAMETOOLONG'', ''ENOLCK'', ''ENOSYS'', ''ENOTEMPTY'', ''ELOOP'',
      [], ''ENOMSG'', ''EIDRM'', ''ECHRNG'', ''EL2NSYNC'', ''EL3HLT'', ''EL3RST'', ''ELNRNG'',
      ''EUNATCH'', ''ENOCSI'', ''EL2HLT'', ''EBADE'', ''EBADR'', ''EXFULL'', ''ENOANO'',
      ''EBADRQC'', ''EBADSLT'', [], ''EBFONT'', ''ENOSTR'', ''ENODATA'', ''ETIME'', ''ENOSR'',
      ''ENONET'', ''ENOPKG'', ''EREMOTE'', ''ENOLINK'', ''EADV'', ''ESRMNT'', ''ECOMM'',
      ''EPROTO'', ''EMULTIHOP'', ''EDOTDOT'', ''EBADMSG'', ''EOVERFLOW'', ''ENOTUNIQ'',
      ''EBADFD'', ''EREMCHG'', ''ELIBACC'', ''ELIBBAD'', ''ELIBSCN'', ''ELIBMAX'', ''ELIBEXEC'',
      ''EILSEQ'', ''ERESTART'', ''ESTRPIPE'', ''EUSERS'', ''ENOTSOCK'', ''EDESTADDRREQ'',
      ''EMSGSIZE'', ''EPROTOTYPE'', ''ENOPROTOOPT'', ''EPROTONOSUPPORT'', ''ESOCKTNOSUPPORT'',
      ''EOPNOTSUPP/ENOTSUP'', ''EPFNOSUPPORT'', ''EAFNOSUPPORT'', ''EADDRINUSE'',
      ''EADDRNOTAVAIL'', ''ENETDOWN'', ''ENETUNREACH'', ''ENETRESET'', ''ECONNABORTED'',
      ''ECONNRESET'', ''ENOBUFS'', ''EISCONN'', ''ENOTCONN'', ''ESHUTDOWN'', ''ETOOMANYREFS'',
      ''ETIMEDOUT'', ''ECONNREFUSED'', ''EHOSTDOWN'', ''EHOSTUNREACH'', ''EALREADY'',
      ''EINPROGRESS'', ''ESTALE'', ''EUCLEAN'', ''ENOTNAM'', ''ENAVAIL'', ''EISNAM'',
      ''EREMOTEIO'', ''EDQUOT'', ''ENOMEDIUM'', ''EMEDIUMTYPE'', ''ECANCELED'', ''ENOKEY'',
      ''EKEYEXPIRED'', ''EKEYREVOKED'', ''EKEYREJECTED'', ''EOWNERDEAD'', ''ENOTRECOVERABLE'',
      ''ERFKILL'', ''EHWPOISON'']"

subsection \<open>The reporting functions\<close>

text \<open>\<open>snprintf\<close> into a buffer of \<open>BUF_SIZE\<close> bytes keeps at most \<open>BUF_SIZE - 1\<close> characters.\<close>

definition fit :: "string \<Rightarrow> string" where
  "fit t = take (ERR_BUF_SIZE - 1) t"

definition terminate :: "bool \<Rightarrow> ('m, 'a) prog" where
  "terminate useExit3 =
     bind (gets (\<lambda>s. environ s ''EF_DUMPCORE'')) (\<lambda>v.
     if v \<noteq> None \<and> v \<noteq> Some [] then stop Aborted
     else if useExit3 then stop (Exited EXIT_FAILURE)
     else stop (QuickExited EXIT_FAILURE))"

text \<open>The table access \<open>ename[err]\<close>, undefined outside the table.\<close>

definition ename_at :: "int \<Rightarrow> string option" where
  "ename_at err =
     (if 0 < err \<and> err \<le> MAX_ENAME
      then (if nat err < length ename then Some (ename ! nat err) else None)
      else Some ''?UNKNOWN?'')"

definition outputError :: "bool \<Rightarrow> int \<Rightarrow> bool \<Rightarrow> string \<Rightarrow> carg list \<Rightarrow> ('m, unit) prog" where
  "outputError useErr err flushStdout format ap =
     bind (require (cformat format ap) ''arguments do not match the format'') (\<lambda>msg.
     let userMsg = fit msg in
     bind (if useErr
           then bind (require (ename_at err) ''index past the end of ename'') (\<lambda>name.
                bind (gets (\<lambda>s. strerror s err)) (\<lambda>text.
                return (fit ('' ['' @ name @ '' '' @ text @ '']''))))
           else return (fit '':'')) (\<lambda>errText.
     let buf = fit (''ERROR'' @ errText @ '' '' @ userMsg @ [NL]) in
     seq (only_if flushStdout (emit FlushOut))
     (seq (emit (ErrText buf))
     (emit FlushErr))))"

definition errMsg :: "string \<Rightarrow> carg list \<Rightarrow> ('m, unit) prog" where
  "errMsg format ap =
     bind (gets errno) (\<lambda>savedErrno.
     bind (gets errno) (\<lambda>err.
     seq (outputError True err True format ap)
     (set_errno savedErrno)))"

definition errExit :: "string \<Rightarrow> carg list \<Rightarrow> ('m, 'a) prog" where
  "errExit format ap =
     bind (gets errno) (\<lambda>err.
     seq (outputError True err True format ap)
     (terminate True))"

definition err_exit :: "string \<Rightarrow> carg list \<Rightarrow> ('m, 'a) prog" where
  "err_exit format ap =
     bind (gets errno) (\<lambda>err.
     seq (outputError True err False format ap)
     (terminate False))"

definition errExitEN :: "int \<Rightarrow> string \<Rightarrow> carg list \<Rightarrow> ('m, 'a) prog" where
  "errExitEN errnum format ap =
     seq (outputError True errnum True format ap)
     (terminate True)"

definition fatal :: "string \<Rightarrow> carg list \<Rightarrow> ('m, 'a) prog" where
  "fatal format ap =
     seq (outputError False 0 True format ap)
     (terminate True)"

definition usageErr :: "string \<Rightarrow> carg list \<Rightarrow> ('m, 'a) prog" where
  "usageErr format ap =
     seq (emit FlushOut)
     (seq (eprintf ''Usage: '' [])
     (seq (eprintf format ap)
     (seq (emit FlushErr)
     (stop (Exited EXIT_FAILURE)))))"

definition cmdLineErr :: "string \<Rightarrow> carg list \<Rightarrow> ('m, 'a) prog" where
  "cmdLineErr format ap =
     seq (emit FlushOut)
     (seq (eprintf ''Command-line usage error: '' [])
     (seq (eprintf format ap)
     (seq (emit FlushErr)
     (stop (Exited EXIT_FAILURE)))))"

text \<open>\<open>api3/helper.c\<close>.\<close>

definition perror :: "string \<Rightarrow> ('m, unit) prog" where
  "perror msg = bind (gets errno) (\<lambda>e. emit (Perror msg e))"

definition errexit :: "string \<Rightarrow> ('m, 'a) prog" where
  "errexit msg = seq (perror msg) (stop (Exited EXIT_FAILURE))"

subsection \<open>Their effect\<close>

lemma length_ename: "int (length ename) = MAX_ENAME + 1"
  by (simp add: ename_def MAX_ENAME_def)

lemma ename_in_range: "ename_at err \<noteq> None"
  using length_ename by (auto simp: ename_at_def nat_less_iff)

definition ename_of :: "int \<Rightarrow> string" where
  "ename_of err = (case ename_at err of Some n \<Rightarrow> n | None \<Rightarrow> [])"

text \<open>The line on standard error, and the state after it was written.\<close>

definition diagnosis :: "bool \<Rightarrow> int \<Rightarrow> (int \<Rightarrow> string) \<Rightarrow> string \<Rightarrow> string" where
  "diagnosis useErr err strerr msg =
     fit (''ERROR'' @ (if useErr then fit ('' ['' @ ename_of err @ '' '' @ strerr err @ '']'') else '':'')
          @ '' '' @ fit msg @ [NL])"

definition reported :: "bool \<Rightarrow> int \<Rightarrow> bool \<Rightarrow> string \<Rightarrow> 'm proc_scheme \<Rightarrow> 'm proc_scheme" where
  "reported useErr err flush msg s =
     logged FlushErr (logged (ErrText (diagnosis useErr err (strerror s) msg))
       (if flush then logged FlushOut s else s))"

definition failure_stop :: "bool \<Rightarrow> (string \<Rightarrow> string option) \<Rightarrow> stop" where
  "failure_stop useExit3 env =
     (if env ''EF_DUMPCORE'' \<noteq> None \<and> env ''EF_DUMPCORE'' \<noteq> Some [] then Aborted
      else if useExit3 then Exited EXIT_FAILURE else QuickExited EXIT_FAILURE)"

lemma fit_colon: "fit '':'' = '':''"
  by (simp add: fit_def ERR_BUF_SIZE_def)

lemma wp_outputError:
  assumes "cformat format ap = Some msg"
  shows "wp (outputError useErr err flush format ap) Q s = Q (Ok ()) (reported useErr err flush msg s)"
proof -
  obtain n where n: "ename_at err = Some n"
    using ename_in_range [of err] by blast
  show ?thesis
    by (simp add: outputError_def wp_rules assms n reported_def diagnosis_def ename_of_def Let_def
        fit_colon)
qed

lemma wp_terminate [wp_rules]:
  "wp (terminate b) Q s = Q (Stop (failure_stop b (environ s))) s"
  by (simp add: terminate_def wp_rules failure_stop_def)

lemma environ_reported [simp]: "environ (reported u e f m s) = environ s"
  by (simp add: reported_def)

lemma replies_reported [simp]: "replies (reported u e f m s) = replies s"
  by (simp add: reported_def)

lemma trace_reported [simp]:
  "trace (reported u e f m s) =
     trace s @ (if f then [FlushOut] else []) @ [ErrText (diagnosis u e (strerror s) m), FlushErr]"
  by (simp add: reported_def)

lemma wp_errMsg:
  assumes "cformat format ap = Some msg"
  shows "wp (errMsg format ap) Q s =
     Q (Ok ()) ((reported True (errno s) True msg s)\<lparr>errno := errno s\<rparr>)"
  by (simp add: errMsg_def wp_rules c_defs wp_outputError [OF assms])

lemma wp_errExit:
  assumes "cformat format ap = Some msg"
  shows "wp (errExit format ap) Q s =
     Q (Stop (failure_stop True (environ s))) (reported True (errno s) True msg s)"
  by (simp add: errExit_def wp_rules wp_outputError [OF assms])

lemma wp_err_exit:
  assumes "cformat format ap = Some msg"
  shows "wp (err_exit format ap) Q s =
     Q (Stop (failure_stop False (environ s))) (reported True (errno s) False msg s)"
  by (simp add: err_exit_def wp_rules wp_outputError [OF assms])

lemma wp_errExitEN:
  assumes "cformat format ap = Some msg"
  shows "wp (errExitEN errnum format ap) Q s =
     Q (Stop (failure_stop True (environ s))) (reported True errnum True msg s)"
  by (simp add: errExitEN_def wp_rules wp_outputError [OF assms])

lemma wp_fatal:
  assumes "cformat format ap = Some msg"
  shows "wp (fatal format ap) Q s =
     Q (Stop (failure_stop True (environ s))) (reported False 0 True msg s)"
  by (simp add: fatal_def wp_rules wp_outputError [OF assms])

lemma wp_errexit [wp_rules]:
  "wp (errexit msg) Q s = Q (Stop (Exited EXIT_FAILURE)) (logged (Perror msg (errno s)) s)"
  by (simp add: errexit_def perror_def wp_rules)

text \<open>A format without conversions is printed as it is.\<close>

lemma cformat_plain: "CHR ''%'' \<notin> set f \<Longrightarrow> cformat f [] = Some f"
  by (induction f) auto

lemma errExit_never_Ok: "\<exists>x s'. errExit format ap s = (Stop x, s')"
proof (cases "cformat format ap")
  case None
  then show ?thesis
    by (simp add: errExit_def seq_def bind_def gets_def outputError_def require_def undef_def stop_def)
next
  case (Some m)
  from wp_errExit [OF Some, of "\<lambda>out s'. \<exists>x. out = Stop x" s] show ?thesis
    by (auto simp: wp_def split: prod.splits)
qed

lemma fatal_never_Ok: "\<exists>x s'. fatal format ap s = (Stop x, s')"
proof (cases "cformat format ap")
  case None
  then show ?thesis
    by (simp add: fatal_def seq_def bind_def outputError_def require_def undef_def stop_def)
next
  case (Some m)
  from wp_fatal [OF Some, of "\<lambda>out s'. \<exists>x. out = Stop x" s] show ?thesis
    by (auto simp: wp_def split: prod.splits)
qed

text \<open>The contract of the reporters with a plain message, and what holds of every call that is
  checked with one: the run goes on only when the reply is good.\<close>

definition is_diagnostic :: "event \<Rightarrow> bool" where
  "is_diagnostic e = (case e of Did _ _ \<Rightarrow> False | Out _ _ \<Rightarrow> False | _ \<Rightarrow> True)"

lemma diagnostics_no_call: "list_all is_diagnostic es \<Longrightarrow> Did c r \<notin> set es"
  by (auto simp: list_all_iff is_diagnostic_def)

definition failing :: "stop \<Rightarrow> bool" where
  "failing x \<longleftrightarrow> x = Exited EXIT_FAILURE \<or> x = QuickExited EXIT_FAILURE \<or> x = Aborted"

lemma failing_failure_stop [simp]: "failing (failure_stop b env)"
  by (simp add: failing_def failure_stop_def)

lemma failing_Exited_1 [simp]: "failing (Exited EXIT_FAILURE)"
  by (simp add: failing_def)

text \<open>The idiom \<open>if ((r = call (...)) == -1) die (msg);\<close> with a reporter \<open>die\<close>.\<close>

definition checked :: "('x \<Rightarrow> ('m, unit) prog) \<Rightarrow> call \<Rightarrow> 'x \<Rightarrow> ('m, reply) prog" where
  "checked die c msg = bind (sys c) (\<lambda>r. seq (only_if (ret r = -1) (die msg)) (return r))"

text \<open>
  A program is \<open>explained\<close> when each of its failing exits comes right after a system call that
  returned -1, with nothing but diagnostics in between, and its trace only grows.
\<close>

definition explains :: "event list \<Rightarrow> bool" where
  "explains tr \<longleftrightarrow> (\<exists>pre c r es. tr = pre @ Did c r # es \<and> ret r = -1 \<and> es \<noteq> [] \<and> list_all is_diagnostic es)"

definition explaining :: "event list \<Rightarrow> 'a outcome \<Rightarrow> 'm proc_scheme \<Rightarrow> bool" where
  "explaining tr out s' \<longleftrightarrow> (\<exists>es. trace s' = tr @ es \<and>
     (\<forall>x. out = Stop x \<longrightarrow> failing x \<longrightarrow> explains es))"

definition explained :: "('m, 'a) prog \<Rightarrow> bool" where
  "explained m \<longleftrightarrow> (\<forall>s. wp m (explaining (trace s)) s)"

named_theorems explained_rules \<open>composition rules of explained programs\<close>

lemma explains_append: "explains es \<Longrightarrow> explains (ds @ es)"
  unfolding explains_def by (metis append.assoc)

lemma explains_failed_call:
  "ret r = -1 \<Longrightarrow> es \<noteq> [] \<Longrightarrow> list_all is_diagnostic es \<Longrightarrow> explains (Did c r # es)"
  unfolding explains_def by (intro exI [of _ "[]"] exI) auto

lemma explaining_trans:
  "explaining tr (Ok a) s1 \<Longrightarrow> explaining (trace s1) out s' \<Longrightarrow> explaining tr out s'"
  by (auto simp: explaining_def intro!: explains_append)

lemma explaining_Stop: "explaining tr (Stop x :: 'a outcome) s' \<Longrightarrow> explaining tr (Stop x :: 'b outcome) s'"
  by (simp add: explaining_def)

lemma explained_bind [explained_rules]:
  fixes m :: "('m, 'a) prog" and f :: "'a \<Rightarrow> ('m, 'b) prog"
  assumes m: "explained m" and f: "\<And>a. explained (f a)"
  shows "explained (bind m f)"
  unfolding explained_def wp_bind
proof
  fix s :: "'m proc_scheme"
  show "wp m (\<lambda>out s'. case out of Ok a \<Rightarrow> wp (f a) (explaining (trace s)) s'
      | Stop x \<Rightarrow> explaining (trace s) (Stop x :: 'b outcome) s') s"
  proof (rule wp_mono [OF m [unfolded explained_def, rule_format, of s]])
    fix out :: "'a outcome" and s1 :: "'m proc_scheme"
    assume *: "explaining (trace s) out s1"
    show "case out of Ok a \<Rightarrow> wp (f a) (explaining (trace s)) s1
      | Stop x \<Rightarrow> explaining (trace s) (Stop x :: 'b outcome) s1"
    proof (cases out)
      case (Ok a)
      have "wp (f a) (explaining (trace s1)) s1"
        using f by (simp add: explained_def)
      then have "wp (f a) (explaining (trace s)) s1"
        by (rule wp_mono) (use * Ok in \<open>blast intro: explaining_trans\<close>)
      with Ok show ?thesis by simp
    qed (use * in \<open>auto dest: explaining_Stop\<close>)
  qed
qed

lemma explained_loop [explained_rules]:
  assumes "\<And>a. explained (body a)"
  shows "explained (loop body a)"
proof -
  have "wp (loop body a) (explaining (trace s)) s" for a s
    using assms
  proof (induction body a s rule: loop.induct)
    case (1 body a s)
    obtain out s' where run: "body a s = (out, s')" by fastforce
    have "wp (body a) (explaining (trace s)) s"
      using 1(2) [of a] by (simp add: explained_def)
    from wpD [OF this run] have e: "explaining (trace s) out s'" .
    show ?case
    proof (cases "\<exists>a'. out = Ok (Inl a') \<and> length (replies s') < length (replies s)")
      case True
      then obtain a' where a': "out = Ok (Inl a')" "length (replies s') < length (replies s)"
        by blast
      from 1(1) [OF run [symmetric] a'(1) refl a'(2)] 1(2)
      have "wp (loop body a') (explaining (trace s')) s'" by blast
      then have "wp (loop body a') (explaining (trace s)) s'"
        by (rule wp_mono) (use e a' in \<open>blast intro: explaining_trans\<close>)
      with run a' show ?thesis by (simp add: wp_def loop.simps [of body a s])
    next
      case False
      with run e show ?thesis
        by (auto simp: wp_def loop.simps [of body a s] explaining_def failing_def
            split: outcome.splits sum.splits)
    qed
  qed
  then show ?thesis by (simp add: explained_def)
qed

lemma explained_seq [explained_rules]: "explained m \<Longrightarrow> explained n \<Longrightarrow> explained (seq m n)"
  by (simp add: seq_def explained_bind)

lemma explained_return [explained_rules]: "explained (return a)"
  by (simp add: explained_def explaining_def wp_rules)

lemma explained_skip [explained_rules]: "explained skip"
  by (simp add: explained_def explaining_def wp_rules)

lemma explained_gets [explained_rules]: "explained (gets f)"
  by (simp add: explained_def explaining_def wp_rules)

lemma explained_emit [explained_rules]: "explained (emit e)"
  by (simp add: explained_def explaining_def wp_rules)

lemma explained_printf [explained_rules]: "explained (printf f as)"
  by (simp add: printf_def explained_emit)

lemma explained_eprintf [explained_rules]: "explained (eprintf f as)"
  by (simp add: eprintf_def explained_emit)

lemma explained_set_errno [explained_rules]: "explained (set_errno e)"
  by (simp add: explained_def explaining_def set_errno_def modify_def wp_rules wp_def)

lemma explained_sys [explained_rules]: "explained (sys c)"
  by (simp add: explained_def explaining_def wp_rules failing_def split: list.splits)

lemma explained_require [explained_rules]: "explained (require x why)"
  by (simp add: explained_def explaining_def wp_rules failing_def split: option.splits)

lemma explained_exit_0 [explained_rules]: "explained (stop (Exited EXIT_SUCCESS))"
  by (simp add: explained_def explaining_def wp_rules failing_def EXIT_SUCCESS_def EXIT_FAILURE_def)

lemma explained_only_if [explained_rules]: "explained m \<Longrightarrow> explained (only_if b m)"
  by (simp add: only_if_def explained_skip)

lemma explained_if [explained_rules]: "explained m \<Longrightarrow> explained n \<Longrightarrow> explained (if b then m else n)"
  by simp

lemma explained_for_each [explained_rules]: "(\<And>x. explained (f x)) \<Longrightarrow> explained (for_each xs f)"
  by (induction xs) (simp_all add: explained_rules)

lemma explained_fold_each [explained_rules]:
  "(\<And>x b. explained (f x b)) \<Longrightarrow> explained (fold_each xs f b)"
  by (induction xs arbitrary: b) (simp_all add: explained_rules)

lemma explained_argv_nth [explained_rules]: "explained (argv_nth argv i)"
  by (simp add: argv_nth_def explained_require)

lemma explained_store [explained_rules]: "explained (store b i cs)"
  by (simp add: store_def explained_require)

lemma explained_load_string [explained_rules]: "explained (load_string b)"
  by (simp add: load_string_def explained_require)

text \<open>The reporters write diagnostics and nothing else.\<close>

lemma emits_outputError:
  assumes "\<And>e. is_diagnostic e \<Longrightarrow> P e"
  shows "emits P (outputError u err fl f a)"
  unfolding outputError_def Let_def
  by (intro emits_rules assms) (simp_all add: is_diagnostic_def)

lemma emits_reporters [emits_rules]:
  assumes "\<And>e. is_diagnostic e \<Longrightarrow> P e"
  shows "emits P (errMsg f a)" "emits P (errExit f a)" "emits P (err_exit f a)"
    "emits P (errExitEN n f a)" "emits P (fatal f a)" "emits P (usageErr f a)"
    "emits P (cmdLineErr f a)" "emits P (perror t)" "emits P (errexit t)" "emits P (terminate b)"
  unfolding errMsg_def errExit_def err_exit_def errExitEN_def fatal_def usageErr_def cmdLineErr_def
    perror_def errexit_def terminate_def eprintf_def
  by (intro emits_rules emits_outputError assms; simp add: is_diagnostic_def)+

locale reporter =
  fixes die :: "'x \<Rightarrow> ('m, unit) prog"
    and good :: "'x \<Rightarrow> bool"
  assumes die_fails: "good msg \<Longrightarrow>
    \<exists>x s' es. die msg s = (Stop x, s') \<and> failing x \<and> replies s' = replies s \<and>
      trace s' = trace s @ es \<and> es \<noteq> [] \<and> list_all is_diagnostic es"
begin

lemma wp_die:
  assumes "good msg"
    and "\<And>x s' es. failing x \<Longrightarrow> replies s' = replies s \<Longrightarrow> trace s' = trace s @ es \<Longrightarrow> es \<noteq> [] \<Longrightarrow>
      list_all is_diagnostic es \<Longrightarrow> Q (Stop x) s'"
  shows "wp (die msg) Q s"
  using die_fails [OF assms(1), of s] assms(2) by (auto simp: wp_def)

lemma wp_checked:
  assumes "good msg"
    and "replies s = [] \<Longrightarrow> Q (Stop Blocked) s"
    and "\<And>r rs. replies s = r # rs \<Longrightarrow> ret r \<noteq> -1 \<Longrightarrow> Q (Ok r) (after c r rs s)"
    and "\<And>r rs x s' es. replies s = r # rs \<Longrightarrow> ret r = -1 \<Longrightarrow> failing x \<Longrightarrow> replies s' = rs \<Longrightarrow>
      trace s' = trace s @ Did c r # es \<Longrightarrow> es \<noteq> [] \<Longrightarrow> list_all is_diagnostic es \<Longrightarrow> Q (Stop x) s'"
  shows "wp (checked die c msg) Q s"
proof (cases "replies s")
  case Nil
  with assms(2) show ?thesis by (simp add: checked_def wp_rules)
next
  case (Cons r rs)
  show ?thesis
  proof (cases "ret r = -1")
    case False
    with Cons assms(3) show ?thesis by (simp add: checked_def wp_rules)
  next
    case True
    obtain x s' es where d: "die msg (after c r rs s) = (Stop x, s')" "failing x" "replies s' = rs"
        "trace s' = trace s @ Did c r # es" "es \<noteq> []" "list_all is_diagnostic es"
      using die_fails [OF assms(1), of "after c r rs s"] by auto
    from assms(4) [OF Cons True d(2-)] have "Q (Stop x) s'" .
    with Cons True d(1) show ?thesis by (simp add: checked_def wp_rules) (simp add: wp_def)
  qed
qed

text \<open>A checked call explains its failure.\<close>

lemma explained_checked: "good msg \<Longrightarrow> explained (checked die c msg)"
  unfolding explained_def explaining_def
  by (intro allI wp_checked) (auto simp: failing_def intro: explains_failed_call)

text \<open>So does any other test of the result that only -1 passes.\<close>

lemma checked_Ok:
  assumes "good msg" "checked die c msg s = (Ok r, s')"
  shows "ret r \<noteq> -1 \<and> replies s = r # replies s' \<and> trace s' = trace s @ [Did c r]"
proof -
  have "wp (checked die c msg) (\<lambda>out s'. \<forall>r. out = Ok r \<longrightarrow>
      ret r \<noteq> -1 \<and> replies s = r # replies s' \<and> trace s' = trace s @ [Did c r]) s"
    using assms(1) by (intro wp_checked) auto
  with assms(2) show ?thesis by (simp add: wp_def)
qed

end

lemma errExit_fails:
  assumes "cformat f a \<noteq> None"
  shows "\<exists>x s' es. errExit f a s = (Stop x, s') \<and> failing x \<and> replies s' = replies s \<and>
      trace s' = trace s @ es \<and> es \<noteq> [] \<and> list_all is_diagnostic es"
proof -
  obtain m where m: "cformat f a = Some m" using assms by blast
  show ?thesis
    using wp_errExit [OF m, of "\<lambda>out s'. \<exists>x es. out = Stop x \<and> failing x \<and>
      replies s' = replies s \<and> trace s' = trace s @ es \<and> es \<noteq> [] \<and> list_all is_diagnostic es" s]
    by (auto simp: wp_def is_diagnostic_def split: prod.splits)
qed

lemma fatal_fails:
  assumes "cformat f a \<noteq> None"
  shows "\<exists>x s' es. fatal f a s = (Stop x, s') \<and> failing x \<and> replies s' = replies s \<and>
      trace s' = trace s @ es \<and> es \<noteq> [] \<and> list_all is_diagnostic es"
proof -
  obtain m where m: "cformat f a = Some m" using assms by blast
  show ?thesis
    using wp_fatal [OF m, of "\<lambda>out s'. \<exists>x es. out = Stop x \<and> failing x \<and>
      replies s' = replies s \<and> trace s' = trace s @ es \<and> es \<noteq> [] \<and> list_all is_diagnostic es" s]
    by (auto simp: wp_def is_diagnostic_def split: prod.splits)
qed

lemma errExitEN_fails:
  assumes "cformat f a \<noteq> None"
  shows "\<exists>x s' es. errExitEN n f a s = (Stop x, s') \<and> failing x \<and> replies s' = replies s \<and>
      trace s' = trace s @ es \<and> es \<noteq> [] \<and> list_all is_diagnostic es"
proof -
  obtain m where m: "cformat f a = Some m" using assms by blast
  show ?thesis
    using wp_errExitEN [OF m, of n "\<lambda>out s'. \<exists>x es. out = Stop x \<and> failing x \<and>
      replies s' = replies s \<and> trace s' = trace s @ es \<and> es \<noteq> [] \<and> list_all is_diagnostic es" s]
    by (auto simp: wp_def is_diagnostic_def split: prod.splits)
qed

lemma errexit_fails:
  "\<exists>x s' es. errexit msg s = (Stop x, s') \<and> failing x \<and> replies s' = replies s \<and>
      trace s' = trace s @ es \<and> es \<noteq> [] \<and> list_all is_diagnostic es"
  using wp_errexit [of msg "\<lambda>out s'. \<exists>x es. out = Stop x \<and> failing x \<and>
      replies s' = replies s \<and> trace s' = trace s @ es \<and> es \<noteq> [] \<and> list_all is_diagnostic es" s]
  by (auto simp: wp_def is_diagnostic_def split: prod.splits)

text \<open>A message of \<open>errExit\<close> and \<open>fatal\<close> is a format with its arguments; it is good when they fit.\<close>

definition fits_format :: "string \<times> carg list \<Rightarrow> bool" where
  "fits_format m \<longleftrightarrow> cformat (fst m) (snd m) \<noteq> None"

interpretation tlpi: reporter "\<lambda>m. errExit (fst m) (snd m)" fits_format
  by unfold_locales (rule errExit_fails, simp add: fits_format_def)

interpretation tlpi_fatal: reporter "\<lambda>m. fatal (fst m) (snd m)" fits_format
  by unfold_locales (rule fatal_fails, simp add: fits_format_def)

interpretation tlpi_EN: reporter "\<lambda>m. errExitEN (fst m) (fst (snd m)) (snd (snd m))"
    "\<lambda>m. fits_format (snd m)"
  by unfold_locales (rule errExitEN_fails, simp add: fits_format_def)

interpretation api3: reporter errexit "\<lambda>_. True"
  by unfold_locales (rule errexit_fails)

text \<open>The two idioms as the code has them.\<close>

definition or_errExit :: "call \<Rightarrow> string \<Rightarrow> carg list \<Rightarrow> ('m, reply) prog" where
  "or_errExit c f a = checked (\<lambda>m. errExit (fst m) (snd m)) c (f, a)"

definition or_errexit :: "call \<Rightarrow> string \<Rightarrow> ('m, reply) prog" where
  "or_errexit c msg = checked errexit c msg"

lemma wp_or_errExit [wp_rules]:
  assumes "cformat f a = Some msg"
  shows "wp (or_errExit c f a) Q s =
    (case replies s of
       [] \<Rightarrow> Q (Stop Blocked) s
     | r # rs \<Rightarrow>
         if ret r = -1
         then Q (Stop (failure_stop True (environ s)))
           (reported True (errno (after c r rs s)) True msg (after c r rs s))
         else Q (Ok r) (after c r rs s))"
  by (simp add: or_errExit_def checked_def wp_rules wp_errExit [OF assms] split: list.splits)

lemma wp_or_errexit [wp_rules]:
  "wp (or_errexit c t) Q s =
    (case replies s of
       [] \<Rightarrow> Q (Stop Blocked) s
     | r # rs \<Rightarrow>
         if ret r = -1
         then Q (Stop (Exited EXIT_FAILURE)) (logged (Perror t (errno (after c r rs s))) (after c r rs s))
         else Q (Ok r) (after c r rs s))"
  by (simp add: or_errexit_def checked_def wp_rules split: list.splits)

lemma reporters_not_ok [ok_simps]:
  "errExit f a s = (Ok v, s') \<longleftrightarrow> False" "fatal f a s = (Ok v, s') \<longleftrightarrow> False"
  "errexit t s = (Ok v, s') \<longleftrightarrow> False" "errExitEN n f a s = (Ok v, s') \<longleftrightarrow> False"
  "usageErr f a s = (Ok v, s') \<longleftrightarrow> False"
  by (auto simp: ok_simps errExit_def fatal_def errexit_def errExitEN_def usageErr_def terminate_def)

lemma check_ok [ok_simps]:
  "or_errExit c f a s = (Ok r, s') \<longleftrightarrow> (\<exists>rs. replies s = r # rs \<and> ret r \<noteq> -1 \<and> s' = after c r rs s)"
  "or_errexit c t s = (Ok r, s') \<longleftrightarrow> (\<exists>rs. replies s = r # rs \<and> ret r \<noteq> -1 \<and> s' = after c r rs s)"
  by (auto simp: or_errExit_def or_errexit_def checked_def ok_simps)

lemma errMsg_ok [ok_simps]:
  assumes "cformat f a = Some m"
  shows "errMsg f a s = (Ok u, s') \<longleftrightarrow> s' = (reported True (errno s) True m s)\<lparr>errno := errno s\<rparr>"
proof -
  have "wp (errMsg f a) (\<lambda>out s'. out = Ok () \<and> s' = (reported True (errno s) True m s)\<lparr>errno := errno s\<rparr>) s"
    by (simp add: wp_errMsg [OF assms])
  then show ?thesis by (auto simp: wp_def split: prod.splits)
qed

lemma emits_checks [emits_rules]:
  assumes "\<And>e. is_diagnostic e \<Longrightarrow> P e" and "\<And>r. P (Did c r)"
  shows "emits P (or_errExit c f a)" "emits P (or_errexit c t)"
  unfolding or_errExit_def or_errexit_def checked_def
  by (intro emits_rules assms; assumption)+

lemma explained_or_errExit [explained_rules]: "cformat f a \<noteq> None \<Longrightarrow> explained (or_errExit c f a)"
  by (simp add: or_errExit_def tlpi.explained_checked fits_format_def)

lemma explained_or_errexit [explained_rules]: "explained (or_errexit c msg)"
  by (simp add: or_errexit_def api3.explained_checked)

subsection \<open>The reporters never claim success\<close>

lemma no_success_reporters [no_success_rules]:
  "no_success (errExit f a)" "no_success (fatal f a)" "no_success (errexit t)"
  "no_success (or_errExit c f a)" "no_success (or_errexit c t)"
proof -
  have E: "no_success (errExit f a)" for f a
  proof (cases "cformat f a")
    case None
    then show ?thesis
      by (auto simp: no_success_def errExit_def seq_def bind_def gets_def outputError_def require_def undef_def stop_def)
  next
    case (Some m)
    then show ?thesis
      by (intro no_success_wpI) (simp add: wp_errExit [OF Some] failure_stop_def EXIT_FAILURE_def)
  qed
  show "no_success (errExit f a)" by (rule E)
  show "no_success (fatal f a)"
  proof (cases "cformat f a")
    case None
    then show ?thesis
      by (auto simp: no_success_def fatal_def seq_def bind_def outputError_def require_def undef_def stop_def)
  next
    case (Some m)
    then show ?thesis
      by (intro no_success_wpI) (simp add: wp_fatal [OF Some] failure_stop_def EXIT_FAILURE_def)
  qed
  have X: "no_success (errexit t)" for t
    by (intro no_success_wpI) (simp add: wp_rules EXIT_FAILURE_def)
  show "no_success (errexit t)" by (rule X)
  show "no_success (or_errExit c f a)" "no_success (or_errexit c t)"
    unfolding or_errExit_def or_errexit_def checked_def by (intro no_success_rules X | simp add: E)+
qed

subsection \<open>The reporters are safe\<close>

lemma sane_failing [simp]: "failing x \<Longrightarrow> sane x" "sane (Exited n)" "sane (QuickExited n)" "sane Blocked"
  "sane Aborted" "sane (Killed n)"
  by (auto simp: sane_def failing_def)

lemma tame_outputError: "tame (outputError u err fl f a)"
  unfolding outputError_def by (intro tame_rules)

lemma tame_reporters [tame_rules]:
  "tame (errMsg f a)" "tame (errExit f a)" "tame (err_exit f a)" "tame (errExitEN n f a)"
  "tame (fatal f a)" "tame (usageErr f a)" "tame (cmdLineErr f a)" "tame (perror t)"
  "tame (errexit t)" "tame (terminate b)" "tame (or_errExit c f a)" "tame (or_errexit c t)"
  unfolding errMsg_def errExit_def err_exit_def errExitEN_def fatal_def usageErr_def cmdLineErr_def
    perror_def errexit_def or_errExit_def or_errexit_def checked_def terminate_def
  by (intro tame_rules tame_outputError)+

lemma safe_wpI: "(\<And>s. wp q (\<lambda>out s'. case out of Ok v \<Rightarrow> S v | Stop x \<Rightarrow> sane x) s) \<Longrightarrow> safe_if K q S"
  unfolding safe_if_def by (blast dest: wpD)

lemma safe_reporters [safe_rules]:
  assumes "cformat f a \<noteq> None"
  shows "safe_if K (errMsg f a) (\<lambda>_. True)" "safe_if K (errExit f a) R" "safe_if K (err_exit f a) R"
    "safe_if K (errExitEN n f a) R" "safe_if K (fatal f a) R"
proof -
  obtain m where m: "cformat f a = Some m" using assms by blast
  show "safe_if K (errMsg f a) (\<lambda>_. True)" "safe_if K (errExit f a) R" "safe_if K (err_exit f a) R"
    "safe_if K (errExitEN n f a) R" "safe_if K (fatal f a) R"
    by (rule safe_wpI, simp add: wp_errMsg [OF m] wp_errExit [OF m] wp_err_exit [OF m]
      wp_errExitEN [OF m] wp_fatal [OF m])+
qed

lemma safe_exits [safe_rules]: "safe_if K (errexit t) R" "safe_if K (usageErr f a) R" "safe_if K (cmdLineErr f a) R"
    "safe_if K (perror t) (\<lambda>_. True)"
  by (rule safe_wpI, simp add: wp_rules c_defs usageErr_def cmdLineErr_def perror_def)+

text \<open>A reporter stops the process with nothing but diagnostics.\<close>

definition gives_up :: "'a outcome \<Rightarrow> event list \<Rightarrow> bool" where
  "gives_up out es \<longleftrightarrow> (\<exists>x. out = Stop x \<and> failing x) \<and> list_all is_diagnostic es"

lemma traced_wpI:
  assumes "\<And>s. wp m (\<lambda>out s'. \<exists>es. trace s' = trace s @ es \<and> Q out es) s"
  shows "traced K m Q"
  unfolding traced_def by (auto dest!: wpD [OF assms])

lemma traced_errexit: "traced K (errexit t) gives_up"
  by (rule traced_wpI) (simp add: wp_errexit gives_up_def is_diagnostic_def)

lemma traced_errExit: "cformat f a \<noteq> None \<Longrightarrow> traced K (errExit f a) gives_up"
  by (rule traced_wpI) (auto simp: wp_errExit gives_up_def is_diagnostic_def)

text \<open>The test of a result that is followed by a reporter.\<close>

lemma safe_guard:
  "(b \<Longrightarrow> safe_if K m (\<lambda>_. False)) \<Longrightarrow> (\<not> b \<Longrightarrow> safe_if K n R) \<Longrightarrow> tame m \<Longrightarrow> tame n \<Longrightarrow>
    safe_if K (seq (only_if b m) n) R"
  by (cases b)
    (simp_all add: only_if_def seq_def safe_bind [where R = "\<lambda>_. False"]
      safe_bind [where R = "\<lambda>_. True"] safe_skip tame_basic)

lemma safe_guards:
  "cformat f a \<noteq> None \<Longrightarrow> (\<not> b \<Longrightarrow> safe_if K n R) \<Longrightarrow> tame n \<Longrightarrow> safe_if K (seq (only_if b (errExit f a)) n) R"
  "cformat f a \<noteq> None \<Longrightarrow> (\<not> b \<Longrightarrow> safe_if K n R) \<Longrightarrow> tame n \<Longrightarrow> safe_if K (seq (only_if b (err_exit f a)) n) R"
  "cformat f a \<noteq> None \<Longrightarrow> (\<not> b \<Longrightarrow> safe_if K n R) \<Longrightarrow> tame n \<Longrightarrow> safe_if K (seq (only_if b (fatal f a)) n) R"
  "cformat f a \<noteq> None \<Longrightarrow> (\<not> b \<Longrightarrow> safe_if K n R) \<Longrightarrow> tame n \<Longrightarrow>
     safe_if K (seq (only_if b (errExitEN k f a)) n) R"
  "(\<not> b \<Longrightarrow> safe_if K n R) \<Longrightarrow> tame n \<Longrightarrow> safe_if K (seq (only_if b (errexit t)) n) R"
  "(\<not> b \<Longrightarrow> safe_if K n R) \<Longrightarrow> tame n \<Longrightarrow> safe_if K (seq (only_if b (usageErr f a)) n) R"
  "(\<not> b \<Longrightarrow> safe_if K n R) \<Longrightarrow> tame n \<Longrightarrow> sane x \<Longrightarrow> safe_if K (seq (only_if b (stop x)) n) R"
  by (rule safe_guard; simp add: safe_reporters safe_exits safe_stop tame_rules)+

lemma safe_checked [safe_rules]:
  "cformat f a \<noteq> None \<Longrightarrow> safe_if K (or_errExit c f a) (\<lambda>r. K (Did c r) \<and> ret r \<noteq> -1)"
  "safe_if K (or_errexit c t) (\<lambda>r. K (Did c r) \<and> ret r \<noteq> -1)"
  unfolding or_errExit_def or_errexit_def checked_def
  by (rule safe_bind [OF safe_sys] safe_guards safe_return tame_rules | simp; fail)+

lemma consumes_checked [progress_rules]:
  assumes f: "\<And>r. tame (f r)"
  shows "consumes (bind (or_errexit c t) f)" "consumes (bind (or_errExit c fmt a) f)"
proof -
  have "length (replies s2) < length (replies s)"
    if "replies s = r # rs" "f r (after c r rs s) = (Ok (Inl v), s2)" for s s2 r rs v
    using tameD(2) [OF f that(2)] that(1) by simp
  then show "consumes (bind (or_errexit c t) f)" "consumes (bind (or_errExit c fmt a) f)"
    unfolding consumes_def by (auto simp: ok_simps)
qed

subsection \<open>Properties\<close>

text \<open>C1. \<open>errMsg\<close> returns, leaves \<open>errno\<close> as it found it although the output functions it calls
  may overwrite it, uses no system call of its own, and writes exactly one line: standard output
  is flushed first, and the line names the error the caller saw.\<close>

theorem errMsg_preserves_errno:
  assumes "cformat format ap = Some msg"
    and "errMsg format ap s = (out, s')"
  shows "out = Ok () \<and> errno s' = errno s \<and> replies s' = replies s \<and>
    trace s' = trace s @
      [FlushOut, ErrText (diagnosis True (errno s) (strerror s) msg), FlushErr]"
proof -
  have "wp (errMsg format ap) (\<lambda>out s'. out = Ok () \<and> errno s' = errno s \<and>
      replies s' = replies s \<and> trace s' = trace s @
        [FlushOut, ErrText (diagnosis True (errno s) (strerror s) msg), FlushErr]) s"
    by (simp add: wp_errMsg [OF assms(1)])
  from wpD [OF this assms(2)] show ?thesis .
qed

theorem errMsg_preserves_errno_witness:
  "\<exists>s'. errMsg ''link()'' [] (boot []\<lparr>errno := 17, stdio_eno := (\<lambda>_. 25)\<rparr>) = (Ok (), s') \<and> errno s' = 17"
proof -
  have f: "cformat ''link()'' [] = Some ''link()''" by simp
  show ?thesis
    using errMsg_preserves_errno [OF f, of "boot []\<lparr>errno := 17, stdio_eno := (\<lambda>_. 25)\<rparr>"]
    by (cases "errMsg ''link()'' [] (boot []\<lparr>errno := 17, stdio_eno := (\<lambda>_. 25)\<rparr>)") simp
qed

text \<open>C2. None of the terminating reporters returns. With arguments that match the format they end
  the process with status 1 (or abort, when \<open>EF_DUMPCORE\<close> is set and not empty); \<open>err_exit\<close> is the
  one that ends it through \<open>_exit\<close>.\<close>

theorem reporters_terminate:
  assumes "cformat format ap = Some msg"
  shows "fst (errExit format ap s :: unit outcome \<times> 'm proc_scheme) = Stop (failure_stop True (environ s)) \<and>
    fst (err_exit format ap s :: unit outcome \<times> 'm proc_scheme) = Stop (failure_stop False (environ s)) \<and>
    fst (errExitEN errnum format ap s :: unit outcome \<times> 'm proc_scheme) = Stop (failure_stop True (environ s)) \<and>
    fst (fatal format ap s :: unit outcome \<times> 'm proc_scheme) = Stop (failure_stop True (environ s)) \<and>
    fst (usageErr format ap s :: unit outcome \<times> 'm proc_scheme) = Stop (Exited 1) \<and>
    fst (cmdLineErr format ap s :: unit outcome \<times> 'm proc_scheme) = Stop (Exited 1) \<and>
    fst (errexit msg s :: unit outcome \<times> 'm proc_scheme) = Stop (Exited 1)"
  by (simp add: fst_eq_wp wp_errExit [OF assms] wp_err_exit [OF assms] wp_errExitEN [OF assms]
      wp_fatal [OF assms] usageErr_def cmdLineErr_def c_defs wp_rules EXIT_FAILURE_def)

theorem reporters_terminate_witness:
  "fst (errExit ''open(): %s'' [T ''read''] (boot []) :: unit outcome \<times> proc) = Stop (Exited 1) \<and>
   fst (fatal ''open(): %s'' [T ''read'']
     (boot []\<lparr>environ := (\<lambda>v. if v = ''EF_DUMPCORE'' then Some ''y'' else None)\<rparr>) :: unit outcome \<times> proc) = Stop Aborted"
proof -
  have f: "cformat ''open(): %s'' [T ''read''] = Some ''open(): read''" by simp
  show ?thesis
    using reporters_terminate [OF f, of "boot []" 0]
      reporters_terminate [OF f, of "boot []\<lparr>environ :=
        (\<lambda>v. if v = ''EF_DUMPCORE'' then Some ''y'' else None)\<rparr>" 0]
    by (simp add: failure_stop_def boot_def EXIT_FAILURE_def)
qed

text \<open>C3. The error table is never read outside its bounds, whatever the error number, and no
  diagnostic line is longer than the 499 characters the buffer holds.\<close>

theorem outputError_in_bounds:
  assumes "cformat format ap = Some msg"
    and "outputError useErr err flush format ap s = (out, s')"
  shows "out = Ok () \<and> ename_at err \<noteq> None \<and>
    (\<exists>t. trace s' = trace s @ (if flush then [FlushOut] else []) @ [ErrText t, FlushErr] \<and>
      length t \<le> 499)"
proof -
  have "wp (outputError useErr err flush format ap) (\<lambda>out s'. out = Ok () \<and>
      trace s' = trace s @ (if flush then [FlushOut] else []) @
        [ErrText (diagnosis useErr err (strerror s) msg), FlushErr]) s"
    by (simp add: wp_outputError [OF assms(1)])
  from wpD [OF this assms(2)] ename_in_range [of err] show ?thesis
    by (auto simp: diagnosis_def fit_def ERR_BUF_SIZE_def)
qed

theorem outputError_in_bounds_witness:
  "\<exists>s'. outputError True 133 True ''x'' [] (boot []) = (Ok (), s') \<and> ename_at 133 = Some ''EHWPOISON''"
proof -
  have f: "cformat ''x'' [] = Some ''x''" by simp
  show ?thesis
    using outputError_in_bounds [OF f, of True 133 True "boot []"]
    by (cases "outputError True 133 True ''x'' [] (boot [])")
      (simp add: ename_at_def MAX_ENAME_def ename_def)
qed

end
