(* ===== verification/GetNum.thy ===== *)
theory GetNum
  imports ErrorFns
begin

text \<open>
  \<open>LinuxAPI/error/get_num.c\<close> (and its identical copy in \<open>LinuxAPI2/error\<close>): conversion of
  command line arguments to numbers. A null pointer argument is \<open>None\<close>.
\<close>

unbundle bit_operations_syntax

definition GN_NONNEG :: int where "GN_NONNEG = 1"
definition GN_GT_0 :: int where "GN_GT_0 = 2"
definition GN_ANY_BASE :: int where "GN_ANY_BASE = 64"
definition GN_BASE_8 :: int where "GN_BASE_8 = 128"
definition GN_BASE_16 :: int where "GN_BASE_16 = 256"

definition has_flag :: "int \<Rightarrow> int \<Rightarrow> bool" where
  "has_flag flags f \<longleftrightarrow> flags AND f \<noteq> 0"

definition gnFail :: "string \<Rightarrow> string \<Rightarrow> string option \<Rightarrow> string option \<Rightarrow> ('m, 'a) prog" where
  "gnFail fname msg arg name =
     seq (eprintf ''%s error'' [T fname])
     (seq (case name of None \<Rightarrow> skip | Some n \<Rightarrow> eprintf '' (in %s)'' [T n])
     (seq (eprintf (CHR '':'' # '' %s'' @ [NL]) [T msg])
     (seq (case arg of
             None \<Rightarrow> skip
           | Some a \<Rightarrow> only_if (a \<noteq> []) (eprintf (''        offending text: %s'' @ [NL]) [T a]))
     (stop (Exited EXIT_FAILURE)))))"

definition gn_base :: "int \<Rightarrow> nat" where
  "gn_base flags =
     (if has_flag flags GN_ANY_BASE then 0 else if has_flag flags GN_BASE_8 then 8
      else if has_flag flags GN_BASE_16 then 16 else 10)"

text \<open>The call of \<open>strtol\<close>, which stores to \<open>errno\<close> only when it reports an error.\<close>

definition do_strtol :: "string \<Rightarrow> nat \<Rightarrow> ('m, int \<times> string) prog" where
  "do_strtol a base =
     (case strtol a base of
        (v, rest, e) \<Rightarrow>
          seq (case e of None \<Rightarrow> skip | Some n \<Rightarrow> set_errno n) (return (v, rest)))"

definition getNum :: "string \<Rightarrow> string option \<Rightarrow> int \<Rightarrow> string option \<Rightarrow> ('m, int) prog" where
  "getNum fname arg flags name =
     (case arg of
        None \<Rightarrow> gnFail fname ''null or empty string'' arg name
      | Some a \<Rightarrow>
          seq (only_if (a = []) (gnFail fname ''null or empty string'' arg name))
          (let base = gn_base flags in
          seq (set_errno 0)
          (bind (do_strtol a base) (\<lambda>(res, endptr).
          bind (gets errno) (\<lambda>e.
          seq (only_if (e \<noteq> 0) (gnFail fname ''strtol() failed'' arg name))
          (seq (only_if (endptr \<noteq> []) (gnFail fname ''nonnumeric characters'' arg name))
          (seq (only_if (has_flag flags GN_NONNEG \<and> res < 0)
                  (gnFail fname ''negative value not allowed'' arg name))
          (seq (only_if (has_flag flags GN_GT_0 \<and> res \<le> 0)
                  (gnFail fname ''value must be > 0'' arg name))
          (return res)))))))))"

definition getLong :: "string option \<Rightarrow> int \<Rightarrow> string option \<Rightarrow> ('m, int) prog" where
  "getLong arg flags name = getNum ''getLong'' arg flags name"

definition getInt :: "string option \<Rightarrow> int \<Rightarrow> string option \<Rightarrow> ('m, int) prog" where
  "getInt arg flags name =
     bind (getNum ''getInt'' arg flags name) (\<lambda>res.
     seq (only_if (res > INT_MAX \<or> res < INT_MIN) (gnFail ''getInt'' ''integer out of range'' arg name))
     (return (to_int32 res)))"

subsection \<open>The accepted texts\<close>

text \<open>What a failed conversion leaves: exit status 1 and nothing but messages.\<close>

definition gn_lines :: "string \<Rightarrow> string \<Rightarrow> string option \<Rightarrow> string option \<Rightarrow> event list" where
  "gn_lines fname msg arg name =
     Err ''%s error'' [T fname] #
     (case name of None \<Rightarrow> [] | Some n \<Rightarrow> [Err '' (in %s)'' [T n]]) @
     Err (CHR '':'' # '' %s'' @ [NL]) [T msg] #
     (case arg of None \<Rightarrow> [] | Some a \<Rightarrow>
        if a = [] then [] else [Err (''        offending text: %s'' @ [NL]) [T a]])"

lemma wp_gnFail:
  assumes "\<And>s'. trace s' = trace s @ gn_lines fname msg arg name \<Longrightarrow> replies s' = replies s \<Longrightarrow>
    Q (Stop (Exited EXIT_FAILURE)) s'"
  shows "wp (gnFail fname msg arg name) Q s"
  by (cases arg; cases name) (simp_all add: gnFail_def c_defs wp_rules assms gn_lines_def)

text \<open>
  A text is a decimal numeral with value \<open>v\<close> when it is white space, an optional sign and at
  least one decimal digit, nothing else.
\<close>

definition decimal_numeral :: "string \<Rightarrow> int \<Rightarrow> bool" where
  "decimal_numeral a v \<longleftrightarrow>
     (\<exists>sp sg ds. a = sp @ sg @ ds \<and> list_all is_space sp \<and> sg \<in> {[], ''-'', ''+''} \<and>
        ds \<noteq> [] \<and> list_all (is_digit_of 10) ds \<and>
        v = (if sg = ''-'' then - digits_val 10 ds else digits_val 10 ds))"

definition fits_flags :: "int \<Rightarrow> int \<Rightarrow> bool" where
  "fits_flags flags v \<longleftrightarrow> (has_flag flags GN_NONNEG \<longrightarrow> 0 \<le> v) \<and> (has_flag flags GN_GT_0 \<longrightarrow> 0 < v)"

lemma takeWhile_eq_all: "dropWhile P xs = [] \<Longrightarrow> takeWhile P xs = xs \<and> list_all P xs"
  by (induction xs) (auto split: if_splits)

lemma strtol_decimal_sound:
  assumes "strtol a 10 = (v, [], None)" "a \<noteq> []"
  shows "decimal_numeral a v \<and> LONG_MIN \<le> v \<and> v \<le> LONG_MAX"
proof -
  obtain neg t where st: "strip_sign (dropWhile is_space a) = (neg, t)" by fastforce
  then obtain sg where sg: "dropWhile is_space a = sg @ t" "sg \<in> {[], ''-'', ''+''}" "neg \<longleftrightarrow> sg = ''-''"
    by (auto simp: strip_sign_def split: list.splits if_splits)
  from assms strtol_10 [OF st] have v: "dropWhile (is_digit_of 10) t = []"
      "takeWhile (is_digit_of 10) t \<noteq> []" "LONG_MIN \<le> v \<and> v \<le> LONG_MAX"
      "v = (if neg then - digits_val 10 (takeWhile (is_digit_of 10) t)
            else digits_val 10 (takeWhile (is_digit_of 10) t))"
    by (auto simp: Let_def split: if_splits)
  have "a = takeWhile is_space a @ sg @ t"
    using sg(1) by (metis takeWhile_dropWhile_id)
  moreover have "list_all is_space (takeWhile is_space a)"
    by (auto simp: list_all_iff dest: set_takeWhileD)
  ultimately show ?thesis
    unfolding decimal_numeral_def using v sg(2,3) takeWhile_eq_all [OF v(1)] by metis
qed

lemma strtol_decimal_complete:
  assumes "decimal_numeral a v" "LONG_MIN \<le> v" "v \<le> LONG_MAX"
  shows "strtol a 10 = (v, [], None)"
proof -
  from assms(1) obtain sp sg ds where a: "a = sp @ sg @ ds" "list_all is_space sp"
      "sg \<in> {[], ''-'', ''+''}" "ds \<noteq> []" "list_all (is_digit_of 10) ds"
      "v = (if sg = ''-'' then - digits_val 10 ds else digits_val 10 ds)"
    unfolding decimal_numeral_def by blast
  obtain d ds' where d: "ds = d # ds'" using a(4) by (cases ds) auto
  have hd: "is_digit_of 10 d" "\<not> is_space d"
    using a(5) d digit_not_special by auto
  have plus: "\<not> is_space (CHR ''+'')" by (simp add: is_space_def)
  have "dropWhile is_space a = sg @ ds"
    using a(1-3) hd plus unfolding d by (auto simp: list_all_iff dropWhile_append2)
  then have st: "strip_sign (dropWhile is_space a) = (sg = ''-'', ds)"
    using a(3) strip_sign_digit [OF hd(1)] d by (auto simp: strip_sign_def)
  have t: "takeWhile (is_digit_of 10) ds = ds" "dropWhile (is_digit_of 10) ds = []"
    using a(5) by (simp_all add: list_all_iff)
  show ?thesis
    using a(4,6) assms(2,3) by (simp add: strtol_10 [OF st] t Let_def)
qed

lemma decimal_numeral_not_Nil: "decimal_numeral a v \<Longrightarrow> a \<noteq> []"
  by (auto simp: decimal_numeral_def)

text \<open>The exact effect of \<open>getNum\<close> on a text, by cases on what \<open>strtol\<close> says.\<close>

definition gn_failure :: "int \<Rightarrow> string \<Rightarrow> string option" where
  "gn_failure flags a =
     (if a = [] then Some ''null or empty string''
      else case strtol a (gn_base flags) of (v, rest, e) \<Rightarrow>
        if e \<noteq> None then Some ''strtol() failed''
        else if rest \<noteq> [] then Some ''nonnumeric characters''
        else if has_flag flags GN_NONNEG \<and> v < 0 then Some ''negative value not allowed''
        else if has_flag flags GN_GT_0 \<and> v \<le> 0 then Some ''value must be > 0''
        else None)"

lemma gn_failure_fits:
  "gn_failure flags a = None \<Longrightarrow> strtol a (gn_base flags) = (v, [], None) \<Longrightarrow> fits_flags flags v"
  by (auto simp: gn_failure_def fits_flags_def split: if_splits)

lemma strtol_eno: "strtol a b = (v, rest, Some n) \<Longrightarrow> n = ERANGE"
  by (auto simp: strtol_def Let_def split: if_splits prod.splits)

lemma wp_getNum:
  assumes "\<And>msg s'. gn_failure flags a = Some msg \<Longrightarrow>
      trace s' = trace s @ gn_lines fname msg (Some a) name \<Longrightarrow> replies s' = replies s \<Longrightarrow>
      Q (Stop (Exited EXIT_FAILURE)) s'"
    and "\<And>v. gn_failure flags a = None \<Longrightarrow> strtol a (gn_base flags) = (v, [], None) \<Longrightarrow>
      Q (Ok v) (s\<lparr>errno := 0\<rparr>)"
  shows "wp (getNum fname (Some a) flags name) Q s"
proof -
  obtain v rest e where st: "strtol a (gn_base flags) = (v, rest, e)"
    by (cases "strtol a (gn_base flags)")
  have er: "e = None \<or> e = Some ERANGE"
    using strtol_eno st by (cases e) auto
  show ?thesis
    using assms er
    by (auto simp: getNum_def do_strtol_def st wp_rules c_defs gn_failure_def ERANGE_def
        intro!: wp_gnFail)
qed

subsection \<open>Properties\<close>

text \<open>The flags without a base bit select base 10.\<close>

definition decimal_flags :: "int \<Rightarrow> bool" where
  "decimal_flags flags \<longleftrightarrow> gn_base flags = 10"

lemma gn_failure_None_decimal:
  assumes "decimal_flags flags"
  shows "gn_failure flags a = None \<and> strtol a 10 = (v, [], None) \<longleftrightarrow>
    decimal_numeral a v \<and> LONG_MIN \<le> v \<and> v \<le> LONG_MAX \<and> fits_flags flags v"
proof
  assume L: "gn_failure flags a = None \<and> strtol a 10 = (v, [], None)"
  then have "a \<noteq> []" by (auto simp: gn_failure_def)
  with L strtol_decimal_sound [of a v] assms
  show "decimal_numeral a v \<and> LONG_MIN \<le> v \<and> v \<le> LONG_MAX \<and> fits_flags flags v"
    by (auto simp: gn_failure_def fits_flags_def decimal_flags_def split: if_splits)
next
  assume R: "decimal_numeral a v \<and> LONG_MIN \<le> v \<and> v \<le> LONG_MAX \<and> fits_flags flags v"
  then have "strtol a 10 = (v, [], None)" "a \<noteq> []"
    by (auto intro: strtol_decimal_complete dest: decimal_numeral_not_Nil)
  with R assms show "gn_failure flags a = None \<and> strtol a 10 = (v, [], None)"
    by (auto simp: gn_failure_def fits_flags_def decimal_flags_def)
qed

text \<open>C4. In base 10, \<open>getLong\<close> returns \<open>v\<close> exactly for the texts that are white space, an optional
  sign and at least one digit with nothing behind them, whose value \<open>v\<close> is a \<open>long\<close> and meets the
  non-negative and positive flags; every other text ends the process with status 1.\<close>

theorem getLong_accepts_iff:
  assumes "decimal_flags flags" and "getLong (Some a) flags name s = (out, s')"
  shows "(\<forall>v. out = Ok v \<longleftrightarrow>
      decimal_numeral a v \<and> LONG_MIN \<le> v \<and> v \<le> LONG_MAX \<and> fits_flags flags v) \<and>
    ((\<exists>v. out = Ok v) \<or> out = Stop (Exited 1)) \<and> replies s' = replies s"
proof -
  have b: "gn_base flags = 10" using assms(1) by (simp add: decimal_flags_def)
  have "wp (getLong (Some a) flags name) (\<lambda>out s'. (\<forall>v. out = Ok v \<longleftrightarrow>
        gn_failure flags a = None \<and> strtol a 10 = (v, [], None)) \<and>
      ((\<exists>v. out = Ok v) \<or> out = Stop (Exited 1)) \<and> replies s' = replies s) s"
    unfolding getLong_def
    by (rule wp_getNum) (auto simp: b EXIT_FAILURE_def)
  from wpD [OF this assms(2)] show ?thesis
    unfolding gn_failure_None_decimal [OF assms(1)] .
qed

theorem getLong_accepts_iff_witness:
  "fst (getLong (Some '' -42'') 0 None (boot [])) = Ok (- 42) \<and> decimal_numeral '' -42'' (- 42)"
proof -
  have f: "decimal_flags 0" by (simp add: decimal_flags_def gn_base_def has_flag_def)
  have r: "fst (getLong (Some '' -42'') 0 None (boot [])) = Ok (- 42)"
    by code_simp
  obtain out s' where o: "getLong (Some '' -42'') 0 None (boot []) = (out, s')" by fastforce
  from getLong_accepts_iff [OF f o] r o show ?thesis by auto
qed

text \<open>C5. Round trip: a number of type \<open>int\<close> printed in decimal is read back by \<open>getInt\<close>.\<close>

theorem getInt_show_int:
  assumes "INT_MIN \<le> i" "i \<le> INT_MAX"
  shows "getInt (Some (show_int i)) 0 name s = (Ok i, s\<lparr>errno := 0\<rparr>)"
proof -
  have r: "LONG_MIN \<le> i" "i \<le> LONG_MAX"
    using assms by (simp_all add: INT_MIN_def INT_MAX_def LONG_MIN_def LONG_MAX_def)
  have b: "gn_base 0 = 10" by (simp add: gn_base_def has_flag_def)
  have "gn_failure 0 (show_int i) = None"
    using strtol_show_int [OF r] by (simp add: gn_failure_def b has_flag_def)
  then have "wp (getInt (Some (show_int i)) 0 name) (\<lambda>out s'. out = Ok i \<and> s' = s\<lparr>errno := 0\<rparr>) s"
    unfolding getInt_def wp_bind using strtol_show_int [OF r] assms
    by (intro wp_getNum) (auto simp: b wp_rules to_int32_id)
  then show ?thesis by (auto simp: wp_def split: prod.splits)
qed

theorem getInt_show_int_witness:
  "getInt (Some (show_int (- 2147483648))) 0 None (boot []) = (Ok (- 2147483648), boot [])"
  using getInt_show_int [of "- 2147483648" None "boot []"]
  by (simp add: INT_MIN_def INT_MAX_def boot_def)

text \<open>C6. Whatever the text and the flags, a result of \<open>getInt\<close> is in the range of \<open>int\<close>, not
  negative under \<open>GN_NONNEG\<close> and positive under \<open>GN_GT_0\<close>; a \<open>long\<close> outside the range of \<open>int\<close> is
  reported as such and ends the process.\<close>

theorem getInt_range:
  assumes "getInt arg flags name s = (out, s')"
  shows "(\<forall>v. out = Ok v \<longrightarrow> INT_MIN \<le> v \<and> v \<le> INT_MAX \<and> fits_flags flags v) \<and>
    (\<forall>a v. arg = Some a \<longrightarrow> gn_failure flags a = None \<longrightarrow> strtol a (gn_base flags) = (v, [], None) \<longrightarrow>
      v < INT_MIN \<or> INT_MAX < v \<longrightarrow>
      out = Stop (Exited 1) \<and> trace s' = trace s @ gn_lines ''getInt'' ''integer out of range'' arg name)"
proof (cases arg)
  case None
  have "wp (getInt None flags name) (\<lambda>out s'. out = Stop (Exited EXIT_FAILURE)) s"
    by (simp add: getInt_def wp_rules getNum_def wp_gnFail)
  with assms None show ?thesis by (auto simp: wp_def)
next
  case (Some a)
  have "wp (getInt (Some a) flags name) (\<lambda>out s'.
      (\<forall>v. out = Ok v \<longrightarrow> INT_MIN \<le> v \<and> v \<le> INT_MAX \<and> fits_flags flags v) \<and>
      (\<forall>v. gn_failure flags a = None \<longrightarrow> strtol a (gn_base flags) = (v, [], None) \<longrightarrow>
        v < INT_MIN \<or> INT_MAX < v \<longrightarrow> out = Stop (Exited EXIT_FAILURE) \<and>
          trace s' = trace s @ gn_lines ''getInt'' ''integer out of range'' (Some a) name)) s"
    unfolding getInt_def wp_bind
  proof (rule wp_getNum, goal_cases)
    case (1 msg s')
    then show ?case by auto
  next
    case (2 v)
    then show ?case
      by (cases "v > INT_MAX \<or> v < INT_MIN")
        (auto simp: wp_rules to_int32_id gn_failure_fits intro!: wp_gnFail)
  qed
  from wpD [OF this assms [unfolded Some]] show ?thesis
    unfolding Some EXIT_FAILURE_def by blast
qed

theorem getInt_range_witness:
  "fst (getInt (Some ''2147483648'') GN_NONNEG None (boot [])) = Stop (Exited 1)"
proof -
  have f: "gn_failure GN_NONNEG ''2147483648'' = None" by code_simp
  have v: "strtol ''2147483648'' (gn_base GN_NONNEG) = (2147483648, [], None)" by code_simp
  have b: "INT_MAX < 2147483648" by (simp add: INT_MAX_def)
  obtain out s' where r: "getInt (Some ''2147483648'') GN_NONNEG None (boot []) = (out, s')"
    by fastforce
  from getInt_range [OF r] f v b have "out = Stop (Exited 1)" by blast
  with r show ?thesis by simp
qed

end
