(* ===== verification/Flags.thy ===== *)
theory Flags
  imports OS
begin

text \<open>
  The constants of the Linux headers the code passes to the system (values of x86-64), and the
  combination and test of flag words.
\<close>

unbundle bit_operations_syntax

subsection \<open>Flags of \<open>open\<close> and \<open>fcntl\<close>\<close>

definition O_RDONLY :: int where "O_RDONLY = 0"
definition O_WRONLY :: int where "O_WRONLY = 1"
definition O_RDWR :: int where "O_RDWR = 2"
definition O_ACCMODE :: int where "O_ACCMODE = 3"
definition O_CREAT :: int where "O_CREAT = 64"
definition O_EXCL :: int where "O_EXCL = 128"
definition O_TRUNC :: int where "O_TRUNC = 512"
definition O_APPEND :: int where "O_APPEND = 1024"
definition O_NONBLOCK :: int where "O_NONBLOCK = 2048"
definition O_ASYNC :: int where "O_ASYNC = 8192"
definition O_DIRECT :: int where "O_DIRECT = 16384"
definition O_SYNC :: int where "O_SYNC = 1052672"

definition F_GETFL :: int where "F_GETFL = 3"
definition F_SETFL :: int where "F_SETFL = 4"
definition F_SETLK :: int where "F_SETLK = 6"
definition F_SETLKW :: int where "F_SETLKW = 7"
definition F_SETOWN :: int where "F_SETOWN = 8"
definition F_RDLCK :: int where "F_RDLCK = 0"
definition F_WRLCK :: int where "F_WRLCK = 1"
definition F_UNLCK :: int where "F_UNLCK = 2"

definition SEEK_SET :: int where "SEEK_SET = 0"
definition SEEK_CUR :: int where "SEEK_CUR = 1"
definition SEEK_END :: int where "SEEK_END = 2"

definition STDIN_FILENO :: int where "STDIN_FILENO = 0"
definition STDOUT_FILENO :: int where "STDOUT_FILENO = 1"
definition STDERR_FILENO :: int where "STDERR_FILENO = 2"

subsection \<open>File modes\<close>

definition S_IRUSR :: mode_t where "S_IRUSR = 256"
definition S_IWUSR :: mode_t where "S_IWUSR = 128"
definition S_IXUSR :: mode_t where "S_IXUSR = 64"
definition S_IRWXU :: mode_t where "S_IRWXU = 448"
definition S_IRGRP :: mode_t where "S_IRGRP = 32"
definition S_IWGRP :: mode_t where "S_IWGRP = 16"
definition S_IXGRP :: mode_t where "S_IXGRP = 8"
definition S_IRWXG :: mode_t where "S_IRWXG = 56"
definition S_IROTH :: mode_t where "S_IROTH = 4"
definition S_IWOTH :: mode_t where "S_IWOTH = 2"
definition S_IXOTH :: mode_t where "S_IXOTH = 1"
definition S_IFMT :: mode_t where "S_IFMT = 61440"
definition S_IFSOCK :: mode_t where "S_IFSOCK = 49152"
definition S_IFLNK :: mode_t where "S_IFLNK = 40960"
definition S_IFREG :: mode_t where "S_IFREG = 32768"
definition S_IFBLK :: mode_t where "S_IFBLK = 24576"
definition S_IFDIR :: mode_t where "S_IFDIR = 16384"
definition S_IFCHR :: mode_t where "S_IFCHR = 8192"
definition S_IFIFO :: mode_t where "S_IFIFO = 4096"

definition mode_has :: "mode_t \<Rightarrow> mode_t \<Rightarrow> bool" where
  "mode_has m b \<longleftrightarrow> m AND b \<noteq> 0"

definition file_type_is :: "mode_t \<Rightarrow> mode_t \<Rightarrow> bool" where
  "file_type_is m t \<longleftrightarrow> m AND S_IFMT = t"

definition int_has :: "int \<Rightarrow> int \<Rightarrow> bool" where
  "int_has f b \<longleftrightarrow> f AND b \<noteq> 0"

subsection \<open>Error numbers and signals\<close>

definition EPERM :: int where "EPERM = 1"
definition ENOENT :: int where "ENOENT = 2"
definition EINTR :: int where "EINTR = 4"
definition ECHILD :: int where "ECHILD = 10"
definition EAGAIN :: int where "EAGAIN = 11"
definition EACCES :: int where "EACCES = 13"
definition EEXIST :: int where "EEXIST = 17"
definition EINVAL :: int where "EINVAL = 22"
definition EDEADLK :: int where "EDEADLK = 35"

definition SIGHUP :: int where "SIGHUP = 1"
definition SIGINT :: int where "SIGINT = 2"
definition SIGQUIT :: int where "SIGQUIT = 3"
definition SIGABRT :: int where "SIGABRT = 6"
definition SIGKILL :: int where "SIGKILL = 9"
definition SIGUSR1 :: int where "SIGUSR1 = 10"
definition SIGUSR2 :: int where "SIGUSR2 = 12"
definition SIGPIPE :: int where "SIGPIPE = 13"
definition SIGALRM :: int where "SIGALRM = 14"
definition SIGTERM :: int where "SIGTERM = 15"
definition SIGCHLD :: int where "SIGCHLD = 17"
definition SIGCONT :: int where "SIGCONT = 18"
definition SIGSTOP :: int where "SIGSTOP = 19"
definition SIGTSTP :: int where "SIGTSTP = 20"
definition SIGIO :: int where "SIGIO = 29"
definition SIGRTMIN :: int where "SIGRTMIN = 34"
definition SIGRTMAX :: int where "SIGRTMAX = 64"
definition NSIG :: int where "NSIG = 65"

text \<open>A pointer argument that is null, and a stream that must not be.\<close>

definition NULL :: int where "NULL = 0"

lemmas open_flags = O_RDONLY_def O_WRONLY_def O_RDWR_def O_ACCMODE_def O_CREAT_def O_EXCL_def
  O_TRUNC_def O_APPEND_def O_NONBLOCK_def O_ASYNC_def O_DIRECT_def O_SYNC_def

lemmas mode_bits = S_IRUSR_def S_IWUSR_def S_IXUSR_def S_IRWXU_def S_IRGRP_def S_IWGRP_def
  S_IXGRP_def S_IRWXG_def S_IROTH_def S_IWOTH_def S_IXOTH_def S_IFMT_def S_IFSOCK_def S_IFLNK_def
  S_IFREG_def S_IFBLK_def S_IFDIR_def S_IFCHR_def S_IFIFO_def

end
