(* ===== verification/FdIO.thy ===== *)
theory FdIO
  imports ErrorFns Flags
begin

text \<open>
  Reading into and writing from a buffer through a file descriptor, and the copy loops that
  occur throughout the code, with what a run of such a loop has read and written. The lemmas
  about the loops are proved once, for any reporter.
\<close>

subsection \<open>Transfers between buffers and descriptors\<close>

text \<open>\<open>read (fd, buf + off, n)\<close>: the kernel stores the bytes it delivers.\<close>

definition read_into :: "int \<Rightarrow> cbuf \<Rightarrow> nat \<Rightarrow> nat \<Rightarrow> ('m, int \<times> cbuf) prog" where
  "read_into fd buf off n =
     bind (sys (Read fd n)) (\<lambda>r.
     if ret r < 0 then return (ret r, buf)
     else bind (store buf off (rdata r)) (\<lambda>buf'. return (ret r, buf')))"

text \<open>\<open>write (fd, buf + off, n)\<close>.\<close>

definition write_from :: "int \<Rightarrow> cbuf \<Rightarrow> nat \<Rightarrow> nat \<Rightarrow> ('m, int) prog" where
  "write_from fd buf off n =
     bind (require (peek buf off n) ''read past the end of a buffer'') (\<lambda>d.
     bind (sys (Write fd d)) (\<lambda>r. return (ret r)))"

text \<open>\<open>while ((n = read (src, buf, sz)) > 0) if (write (dst, buf, n) != n) die (msg);\<close> answers the
  last \<open>n\<close>.\<close>

definition copy_loop :: "int \<Rightarrow> nat \<Rightarrow> int \<Rightarrow> ('x \<Rightarrow> ('m, unit) prog) \<Rightarrow> 'x \<Rightarrow> ('m, int) prog" where
  "copy_loop src sz dst die msg =
     loop (\<lambda>buf.
       bind (read_into src buf 0 sz) (\<lambda>(n, buf).
       if n > 0 then
         bind (write_from dst buf 0 (nat n)) (\<lambda>w.
         seq (only_if (w \<noteq> n) (die msg))
         (again buf))
       else leave n))
     (uninit sz)"

text \<open>What a trace has read from and written to a descriptor.\<close>

fun read_by :: "int \<Rightarrow> event \<Rightarrow> string" where
  "read_by fd (Did (Read f n) r) = (if f = fd \<and> 0 < ret r then rdata r else [])"
| "read_by fd _ = []"

fun written_by :: "int \<Rightarrow> event \<Rightarrow> cbuf" where
  "written_by fd (Did (Write f d) r) = (if f = fd then take (nat (ret r)) d else [])"
| "written_by fd _ = []"

definition bytes_read :: "int \<Rightarrow> event list \<Rightarrow> string" where
  "bytes_read fd tr = concat (map (read_by fd) tr)"

definition bytes_written :: "int \<Rightarrow> event list \<Rightarrow> cbuf" where
  "bytes_written fd tr = concat (map (written_by fd) tr)"

lemma bytes_simps [simp]:
  "bytes_read fd [] = []" "bytes_read fd (e # es) = read_by fd e @ bytes_read fd es"
  "bytes_read fd (xs @ ys) = bytes_read fd xs @ bytes_read fd ys"
  "bytes_written fd [] = []" "bytes_written fd (e # es) = written_by fd e @ bytes_written fd es"
  "bytes_written fd (xs @ ys) = bytes_written fd xs @ bytes_written fd ys"
  by (simp_all add: bytes_read_def bytes_written_def)

lemma diagnostics_transfer_nothing:
  "list_all is_diagnostic es \<Longrightarrow> bytes_read fd es = [] \<and> bytes_written fd es = [] \<and> legal_trace es"
  by (induction es) (auto simp: is_diagnostic_def split: event.splits)

subsection \<open>Their effect\<close>

lemma wp_read_into:
  "wp (read_into fd buf off n) Q s =
     (case replies s of
        [] \<Rightarrow> Q (Stop Blocked) s
      | r # rs \<Rightarrow>
          if ret r < 0 then Q (Ok (ret r, buf)) (after (Read fd n) r rs s)
          else case poke buf off (rdata r) of
              Some b \<Rightarrow> Q (Ok (ret r, b)) (after (Read fd n) r rs s)
            | None \<Rightarrow> Q (Stop (Undefined ''write past the end of a buffer'')) (after (Read fd n) r rs s))"
  by (auto simp: read_into_def wp_rules c_defs split: list.splits option.splits)

lemma wp_write_from:
  "wp (write_from fd buf off n) Q s =
     (case peek buf off n of
        None \<Rightarrow> Q (Stop (Undefined ''read past the end of a buffer'')) s
      | Some d \<Rightarrow>
          case replies s of
            [] \<Rightarrow> Q (Stop Blocked) s
          | r # rs \<Rightarrow> Q (Ok (ret r)) (after (Write fd d) r rs s))"
  by (auto simp: write_from_def wp_rules split: list.splits option.splits)

lemma peek_poke_start:
  "poke b 0 cs = Some b' \<Longrightarrow> n = length cs \<Longrightarrow> peek b' 0 n = Some (map Some cs)"
  by (auto simp: poke_def peek_def split: if_splits)

text \<open>What the copy loop guarantees of the events it adds: the accepted bytes are always an initial
  segment of the bytes read, all of them when the loop is left, and then the last read said end
  of file or failed.\<close>

definition copied :: "int \<Rightarrow> nat \<Rightarrow> int \<Rightarrow> event list \<Rightarrow> int outcome \<Rightarrow> bool" where
  "copied src sz dst es out \<longleftrightarrow>
     (\<exists>t. lit (bytes_read src es) = bytes_written dst es @ t \<and> length t \<le> sz) \<and>
     (\<forall>n. out = Ok n \<longrightarrow> n \<le> 0 \<and> lit (bytes_read src es) = bytes_written dst es \<and>
        (\<exists>r. last es = Did (Read src sz) r \<and> es \<noteq> [] \<and> ret r = n)) \<and>
     (\<forall>why. out \<noteq> Stop (Undefined why)) \<and> out \<noteq> Stop Diverged"

lemma copied_Stop:
  assumes "lit (bytes_read src es) = bytes_written dst es @ t" "length t \<le> sz" "failing x \<or> x = Blocked"
  shows "copied src sz dst es (Stop x)"
  using assms by (auto simp: copied_def failing_def)

text \<open>One iteration of the loop, from a state in which everything read was written.\<close>

definition balanced :: "int \<Rightarrow> int \<Rightarrow> event list \<Rightarrow> bool" where
  "balanced src dst es \<longleftrightarrow> lit (bytes_read src es) = bytes_written dst es"

lemma balanced_leave:
  assumes "balanced src dst es" "legal (Did (Read src sz) r)" "ret r \<le> 0"
  shows "copied src sz dst (es @ [Did (Read src sz) r]) (Ok (ret r))"
  using assms by (auto simp: balanced_def copied_def)

lemma balanced_step:
  assumes "balanced src dst es" "ret r = int (length (rdata r))" "ret w = ret r" "0 < ret r"
  shows "balanced src dst (es @ [Did (Read src sz) r, Did (Write dst (map Some (rdata r))) w])"
  using assms by (simp add: balanced_def lit_def)

lemma balanced_short_write:
  assumes "balanced src dst es" "0 < ret r" "length (rdata r) \<le> sz"
    "list_all is_diagnostic ds" "failing x"
  shows "copied src sz dst
    (es @ Did (Read src sz) r # Did (Write dst (map Some (rdata r))) w # ds) (Stop x)"
  by (rule copied_Stop [where t = "drop (nat (ret w)) (map Some (rdata r))"])
    (use assms diagnostics_transfer_nothing in \<open>auto simp: balanced_def lit_def\<close>)

lemma balanced_blocked:
  "balanced src dst es \<Longrightarrow> copied src sz dst es (Stop Blocked)"
  "balanced src dst es \<Longrightarrow> 0 < ret r \<Longrightarrow> length (rdata r) \<le> sz \<Longrightarrow>
     copied src sz dst (es @ [Did (Read src sz) r]) (Stop Blocked)"
  by (rule copied_Stop [where t = "[]"], simp_all add: balanced_def)
    (rule copied_Stop [where t = "lit (rdata r)"], simp_all add: balanced_def)

context reporter
begin

lemma wp_copy_loop:
  assumes plain: "good msg"
  shows "wp (copy_loop src sz dst die msg)
    (\<lambda>out s'. \<exists>es. trace s' = trace s @ es \<and> (legal_trace es \<longrightarrow> copied src sz dst es out)) s"
  unfolding copy_loop_def
proof (rule wp_loop [where I = "\<lambda>buf s'. length buf = sz \<and> (\<exists>es. trace s' = trace s @ es \<and>
      (legal_trace es \<longrightarrow> balanced src dst es))"], goal_cases)
  case (1 buf s1)
  then obtain es where es: "trace s1 = trace s @ es" and len: "length buf = sz"
    and I: "legal_trace es \<Longrightarrow> balanced src dst es" by blast
  show ?case
  proof (cases "replies s1")
    case Nil
    with es I show ?thesis by (auto simp: wp_rules wp_read_into intro: balanced_blocked)
  next
    case (Cons r rs)
    let ?R = "Did (Read src sz) r"
    show ?thesis
    proof (cases "legal ?R")
      case True
      consider "ret r \<le> 0" | b where "0 < ret r" "ret r = int (length (rdata r))" "length (rdata r) \<le> sz"
          "poke buf 0 (rdata r) = Some b"
        using True len by (cases "ret r \<le> 0") (auto simp: poke_def intro: that)
      then show ?thesis
      proof cases
        case 1
        then have "legal_trace es \<Longrightarrow> copied src sz dst (es @ [?R]) (Ok (ret r))"
          using True I by (intro balanced_leave) auto
        with 1 Cons True es show ?thesis
          by (auto simp: wp_rules wp_read_into c_defs poke_def)
      next
        case (2 b)
        have p: "peek b 0 (nat (ret r)) = Some (map Some (rdata r))"
          using 2 by (intro peek_poke_start) auto
        let ?W = "\<lambda>w. Did (Write dst (map Some (rdata r))) w"
        show ?thesis
        proof (cases rs)
          case Nil
          with Cons True es I 2 p show ?thesis
            by (auto simp: wp_rules wp_read_into wp_write_from intro!: exI [of _ "es @ [?R]"]
                intro: balanced_blocked)
        next
          case W: (Cons w rs')
          show ?thesis
          proof (cases "ret w = ret r")
            case True
            then have "legal_trace es \<Longrightarrow> balanced src dst (es @ [?R, ?W w])"
              using I 2 by (intro balanced_step) auto
            with Cons W es len 2 p True length_poke [OF 2(4)] show ?thesis
              by (auto simp: wp_rules wp_read_into wp_write_from c_defs
                  intro!: exI [of _ "es @ [?R, ?W w]"])
          next
            case False
            have "\<exists>es'. trace s @ es @ ?R # ?W w # ds = trace s @ es' \<and>
                (legal_trace es' \<longrightarrow> copied src sz dst es' (Stop x))"
              if "failing x" "list_all is_diagnostic ds" for x ds
              using that I 2 by (auto intro!: balanced_short_write)
            with Cons W es len 2 p False show ?thesis
              by (auto simp: wp_rules wp_read_into wp_write_from c_defs intro!: wp_die [OF plain])
          qed
        qed
      qed
    next
      case False
      have "\<exists>es'. trace s @ es @ ?R # ds = trace s @ es' \<and> \<not> legal_trace es'" for ds
        using False by (intro exI [of _ "es @ ?R # ds"]) simp
      with Cons es len show ?thesis
        by (auto simp: wp_rules wp_read_into wp_write_from c_defs length_poke
            split: option.splits list.splits intro!: wp_die [OF plain])
    qed
  qed
next
  case 2
  then show ?case by (simp add: balanced_def)
qed

end

subsection \<open>Reading a file from a position\<close>

text \<open>
  What the kernel promises of a descriptor \<open>fd\<close> open on a file that holds \<open>c\<close>: a successful
  \<open>read\<close> delivers the bytes at the file position and moves it, and returns 0 only at the end of
  the file; \<open>lseek\<close> sets the position to the one it returns.
\<close>

fun serves :: "int \<Rightarrow> string \<Rightarrow> nat \<Rightarrow> event list \<Rightarrow> bool" where
  "serves fd c p [] = True"
| "serves fd c p (Did (Read f n) r # es) =
     (if f \<noteq> fd then serves fd c p es
      else if ret r = 0 \<and> n \<noteq> 0 then length c \<le> p \<and> serves fd c p es
      else if 0 < ret r then
        rdata r = take (nat (ret r)) (drop p c) \<and> p + nat (ret r) \<le> length c \<and>
        serves fd c (p + nat (ret r)) es
      else serves fd c p es)"
| "serves fd c p (Did (Lseek f off w) r # es) =
     (if f \<noteq> fd \<or> ret r < 0 then serves fd c p es
      else (w = SEEK_SET \<longrightarrow> ret r = off) \<and> serves fd c (nat (ret r)) es)"
| "serves fd c p (_ # es) = serves fd c p es"

text \<open>The events of a copy loop.\<close>

definition transfer :: "int \<Rightarrow> nat \<Rightarrow> int \<Rightarrow> event \<Rightarrow> bool" where
  "transfer src sz dst e \<longleftrightarrow>
     (\<exists>r. e = Did (Read src sz) r) \<or> (\<exists>d r. e = Did (Write dst d) r) \<or> is_diagnostic e"

lemma emits_read_into [emits_rules]: "(\<And>r. P (Did (Read fd n) r)) \<Longrightarrow> emits P (read_into fd b i n)"
  unfolding read_into_def by (intro emits_rules; assumption)

lemma emits_write_from [emits_rules]:
  "(\<And>d r. P (Did (Write fd d) r)) \<Longrightarrow> emits P (write_from fd b i n)"
  unfolding write_from_def by (intro emits_rules; assumption)

lemma emits_split [emits_rules]: "(\<And>a b. emits P (f a b)) \<Longrightarrow> emits P (case x of (a, b) \<Rightarrow> f a b)"
  by (cases x) simp

lemma emits_copy_loop:
  assumes "emits (transfer src sz dst) (die msg)"
  shows "emits (transfer src sz dst) (copy_loop src sz dst die msg)"
  unfolding copy_loop_def
  by (intro emits_rules; simp add: transfer_def assms)

text \<open>As long as nobody moves the position, the reads deliver the file from the position on.\<close>

definition steady :: "int \<Rightarrow> event \<Rightarrow> bool" where
  "steady fd e \<longleftrightarrow> (\<forall>off w r. e \<noteq> Did (Lseek fd off w) r)"

lemma transfer_steady: "transfer src sz dst e \<Longrightarrow> steady fd e"
  by (auto simp: transfer_def steady_def is_diagnostic_def)

lemma transfers_steady: "list_all (transfer src sz dst) es \<Longrightarrow> list_all (steady fd) es"
  by (auto simp: list_all_iff intro: transfer_steady)

lemma serves_other:
  assumes "\<And>n r. e \<noteq> Did (Read fd n) r" "steady fd e"
  shows "serves fd c p (e # es) \<longleftrightarrow> serves fd c p es"
proof (cases e)
  case (Did call r)
  with assms show ?thesis by (cases call) (auto simp: steady_def)
qed simp_all

lemma read_by_other:
  assumes "\<And>n r. e \<noteq> Did (Read fd n) r"
  shows "read_by fd e = []"
proof (cases e)
  case (Did call r)
  with assms show ?thesis by (cases call) auto
qed simp_all

lemma serves_steady:
  assumes "list_all (steady fd) es" "serves fd c p (es @ fs)"
  shows "serves fd c (p + length (bytes_read fd es)) fs \<and>
    bytes_read fd es = take (length (bytes_read fd es)) (drop p c)"
  using assms
proof (induction es arbitrary: p)
  case Nil
  then show ?case by simp
next
  case (Cons e es)
  show ?case
  proof (cases "\<exists>n r. e = Did (Read fd n) r")
    case True
    then obtain n r where e: "e = Did (Read fd n) r" by blast
    let ?k = "nat (ret r)"
    show ?thesis
    proof (cases "0 < ret r")
      case True
      with e Cons.prems(2) have r: "rdata r = take ?k (drop p c)" "p + ?k \<le> length c"
        and sv: "serves fd c (p + ?k) (es @ fs)"
        by auto
      then have len: "length (rdata r) = ?k" by simp
      from Cons.IH [OF _ sv] Cons.prems(1)
      have "serves fd c (p + ?k + length (bytes_read fd es)) fs"
        and br: "bytes_read fd es = take (length (bytes_read fd es)) (drop (p + ?k) c)"
        by simp_all
      moreover have "take (?k + length (bytes_read fd es)) (drop p c) = rdata r @ bytes_read fd es"
        unfolding take_add r(1) [symmetric] using br by (simp add: add.commute)
      ultimately show ?thesis
        using True e len by (simp add: add.assoc)
    next
      case False
      with e Cons.prems(2) have "serves fd c p (es @ fs)" by (simp split: if_splits)
      from Cons.IH [OF _ this] Cons.prems(1) False e show ?thesis by simp
    qed
  next
    case False
    then have n: "\<And>n r. e \<noteq> Did (Read fd n) r" by blast
    have "steady fd e" using Cons.prems(1) by simp
    with serves_other [OF n] read_by_other [OF n] Cons show ?thesis by simp
  qed
qed

text \<open>Once a read has said end of file, everything behind the starting position was read.\<close>

lemma serves_end_of_file:
  assumes "list_all (steady fd) es" "serves fd c p (es @ Did (Read fd n) r # fs)" "ret r = 0" "n \<noteq> 0"
  shows "bytes_read fd es = drop p c"
proof -
  from serves_steady [OF assms(1,2)]
  have "serves fd c (p + length (bytes_read fd es)) (Did (Read fd n) r # fs)"
    and b: "bytes_read fd es = take (length (bytes_read fd es)) (drop p c)" by simp_all
  with assms(3,4) have "length c \<le> p + length (bytes_read fd es)" by simp
  with b show ?thesis by simp
qed

text \<open>The copy loop as a copy of a file: when it is left at the end of the file, everything behind
  the starting position was written, in order.\<close>

lemma copied_file:
  assumes c: "copied src sz dst es (Ok n)" and tr: "list_all (transfer src sz dst) es"
    and sv: "serves src cont p (es @ fs)" and n: "n = 0" "sz \<noteq> 0"
  shows "bytes_written dst es = lit (drop p cont)"
proof -
  obtain r where r: "last es = Did (Read src sz) r" "es \<noteq> []" "ret r = 0"
    using c n by (auto simp: copied_def)
  then have es: "es = butlast es @ [Did (Read src sz) r]"
    by (metis append_butlast_last_id)
  have "bytes_read src (butlast es) = drop p cont"
    using serves_end_of_file [of src "butlast es" cont p sz r fs] transfers_steady [OF tr] sv r(3) n(2) es
    by (metis append.assoc append_Cons append_Nil list_all_append)
  moreover have "bytes_read src es = bytes_read src (butlast es)"
    using r(3) by (subst es) simp
  ultimately show ?thesis using c n by (simp add: copied_def)
qed

lemma copied_legal_end:
  assumes "copied src sz dst es (Ok n)" "legal_trace es" "n \<noteq> -1"
  shows "n = 0"
proof -
  obtain r where r: "last es = Did (Read src sz) r" "es \<noteq> []" "ret r = n" "n \<le> 0"
    using assms(1) by (auto simp: copied_def)
  then have "legal (Did (Read src sz) r)"
    using assms(2) by (metis append_butlast_last_id legal_trace_simps(2,3))
  with r assms(3) show ?thesis by auto
qed

subsection \<open>Copy loops that are left\<close>

text \<open>The events of a copy loop with either reporter, and what they amount to.\<close>

lemma wp_reporting_copy:
  assumes "emits (transfer src sz dst) (copy_loop src sz dst die msg)"
    and "\<And>s. wp (copy_loop src sz dst die msg)
      (\<lambda>out s'. \<exists>es. trace s' = trace s @ es \<and> (legal_trace es \<longrightarrow> copied src sz dst es out)) s"
    and "copy_loop src sz dst die msg s = (out, s')"
  obtains es where "trace s' = trace s @ es" "list_all (transfer src sz dst) es"
    "legal_trace es \<Longrightarrow> copied src sz dst es out"
  using wpD [OF wp_conj [OF emits_wp [OF assms(1)] assms(2)] assms(3)] by auto

lemma fatal_copy_ok:
  assumes good: "fits_format msg"
    and run: "copy_loop src sz dst (\<lambda>m. fatal (fst m) (snd m)) msg s = (out, s')"
  obtains es where "trace s' = trace s @ es" "list_all (transfer src sz dst) es"
    "legal_trace es \<Longrightarrow> copied src sz dst es out"
proof (rule wp_reporting_copy [OF _ tlpi_fatal.wp_copy_loop [OF good] run])
  show "emits (transfer src sz dst) (copy_loop src sz dst (\<lambda>m. fatal (fst m) (snd m)) msg)"
    by (intro emits_copy_loop emits_rules) (simp add: transfer_def)
qed (rule that)

lemma errExit_copy_ok:
  assumes good: "fits_format msg"
    and run: "copy_loop src sz dst (\<lambda>m. errExit (fst m) (snd m)) msg s = (out, s')"
  obtains es where "trace s' = trace s @ es" "list_all (transfer src sz dst) es"
    "legal_trace es \<Longrightarrow> copied src sz dst es out"
proof (rule wp_reporting_copy [OF _ tlpi.wp_copy_loop [OF good] run])
  show "emits (transfer src sz dst) (copy_loop src sz dst (\<lambda>m. errExit (fst m) (snd m)) msg)"
    by (intro emits_copy_loop emits_rules) (simp add: transfer_def)
qed (rule that)

subsection \<open>Safe transfers\<close>

lemma tame_transfers [tame_rules]: "tame (read_into fd b i n)" "tame (write_from fd b i n)"
  unfolding read_into_def write_from_def by (intro tame_rules)+

lemma tame_copy_loop [tame_rules]: "tame (die msg) \<Longrightarrow> tame (copy_loop src sz dst die msg)"
  unfolding copy_loop_def by (intro tame_rules)

text \<open>What a legal read into a buffer can answer.\<close>

definition read_result :: "(event \<Rightarrow> bool) \<Rightarrow> int \<Rightarrow> cbuf \<Rightarrow> nat \<Rightarrow> nat \<Rightarrow> int \<times> cbuf \<Rightarrow> bool" where
  "read_result K fd b i n v \<longleftrightarrow> length (snd v) = length b \<and>
     (\<exists>r. K (Did (Read fd n) r) \<and> ret r = fst v) \<and>
     (fst v = -1 \<and> snd v = b \<or>
      (\<exists>d. fst v = int (length d) \<and> length d \<le> n \<and> poke b i d = Some (snd v)))"

lemma safe_read_into [safe_rules]:
  assumes "honest K" "i + n \<le> length b"
  shows "safe_if K (read_into fd b i n) (read_result K fd b i n)"
  unfolding read_into_def
proof (rule safe_bind [OF safe_sys])
  fix r
  assume k: "K (Did (Read fd n) r)"
  with assms(1) have r: "legal (Did (Read fd n) r)" unfolding honest_def by blast
  show "safe_if K (if ret r < 0 then return (ret r, b)
      else bind (store b i (rdata r)) (\<lambda>buf'. return (ret r, buf'))) (read_result K fd b i n)"
  proof (cases "ret r < 0")
    case True
    with r k show ?thesis by (auto intro!: safe_return simp: read_result_def)
  next
    case False
    with r assms(2) have "i + length (rdata r) \<le> length b" by auto
    then have "safe_if K (bind (store b i (rdata r)) (\<lambda>buf'. return (ret r, buf'))) (read_result K fd b i n)"
      by (rule safe_bind [OF safe_store])
        (use False r k in \<open>auto intro!: safe_return tame_rules exI [of _ "rdata r"]
          simp: read_result_def length_poke\<close>)
    with False show ?thesis by simp
  qed
qed (intro tame_rules)+

lemma safe_write_from [safe_rules]:
  assumes "honest K" "i + n \<le> length b"
  shows "safe_if K (write_from fd b i n) (\<lambda>w. w = -1 \<or> 0 \<le> w \<and> w \<le> int n)"
  unfolding write_from_def
proof (rule safe_bind [OF safe_require])
  fix d
  assume "peek b i n = Some d"
  then have "length d = n" by (auto simp: peek_def split: if_splits)
  then show "safe_if K (bind (sys (Write fd d)) (\<lambda>r. return (ret r))) (\<lambda>w. w = -1 \<or> 0 \<le> w \<and> w \<le> int n)"
    using assms(1) by (intro safe_bind [OF safe_sys] safe_return tame_rules) (fastforce simp: honest_def)+
qed (use assms in \<open>auto simp: peek_def intro: tame_rules\<close>)

lemma consumes_read_into [progress_rules]: "(\<And>v. tame (f v)) \<Longrightarrow> consumes (bind (read_into fd b i n) f)"
  unfolding consumes_def
proof (intro allI impI)
  fix s a s'
  assume f: "\<And>v. tame (f v)" and "bind (read_into fd b i n) f s = (Ok (Inl a), s')"
  then obtain v s1 where v: "read_into fd b i n s = (Ok v, s1)" "f v s1 = (Ok (Inl a), s')"
    by (auto simp: ok_simps)
  then have "length (replies s1) < length (replies s)"
    by (auto simp: read_into_def ok_simps)
  with tameD(2) [OF f v(2)] show "length (replies s') < length (replies s)" by simp
qed

lemma safe_copy_loop [safe_rules]:
  assumes "honest K" "safe_if K (die msg) (\<lambda>_. False)" "tame (die msg)"
  shows "safe_if K (copy_loop src sz dst die msg) (\<lambda>n. n = 0 \<or> n = -1)"
  unfolding copy_loop_def
proof (rule safe_loop [where I = "\<lambda>b. length b = sz"], goal_cases)
  case (1 buf)
  have w: "safe_if K (bind (write_from dst b 0 (nat n)) (\<lambda>w. seq (only_if (w \<noteq> n) (die msg)) (again b)))
      (\<lambda>v. case v of Inl b' \<Rightarrow> length b' = sz | Inr n \<Rightarrow> n = 0 \<or> n = -1)"
    if "read_result K src buf 0 sz (n, b)" "0 < n" for n b
    using that 1 by (intro safe_bind [OF safe_write_from] safe_guard assms safe_again tame_rules)
      (auto simp: read_result_def)
  show ?case
    by (rule safe_bind [OF safe_read_into [OF assms(1)]], use 1 in simp, clarify)
      (auto intro!: safe_if w safe_again tame_rules assms simp: read_result_def)
qed (simp_all add: consumes_read_into assms tame_rules)

lemma traced_read_into:
  assumes "honest K" "i + n \<le> length b"
  shows "traced K (read_into fd b i n) (\<lambda>out es. out = Stop Blocked \<and> es = [] \<or>
    (\<exists>r. es = [Did (Read fd n) r] \<and> K (Did (Read fd n) r) \<and>
      (ret r = -1 \<and> out = Ok (-1, b) \<or>
       (\<exists>b'. 0 \<le> ret r \<and> int (length (rdata r)) = ret r \<and> length (rdata r) \<le> n \<and>
          poke b i (rdata r) = Some b' \<and> out = Ok (ret r, b')))))"
  unfolding traced_def
proof (intro allI impI, goal_cases)
  case (1 s out s' es)
  show ?case
  proof (cases "replies s")
    case Nil
    with 1 show ?thesis by (auto simp: read_into_def bind_def sys_def)
  next
    case (Cons r rs)
    with 1 have es: "es = [Did (Read fd n) r]"
      by (auto simp: read_into_def bind_def sys_def store_def require_def undef_def stop_def return_def
          split: if_splits option.splits)
    with 1(3) have k: "K (Did (Read fd n) r)" by simp
    with assms(1) have l: "legal (Did (Read fd n) r)" unfolding honest_def by blast
    show ?thesis
    proof (cases "ret r < 0")
      case True
      with 1 Cons es k l show ?thesis by (auto simp: read_into_def bind_def sys_def return_def)
    next
      case False
      with l assms(2) obtain b' where "poke b i (rdata r) = Some b'"
        by (auto simp: poke_def)
      with False 1 Cons es k l show ?thesis
        by (auto simp: read_into_def bind_def sys_def return_def store_def require_def)
    qed
  qed
qed

end
