(* ===== verification/FileIO.thy ===== *)
theory FileIO
  imports FdIO
begin

text \<open>
  \<open>LinuxAPI/file_io.c\<close>, \<open>file_stat.c\<close>, \<open>file_mount.c\<close> and \<open>file_buffering.c\<close>: copying a file from a
  position on, status flags, scatter and gather transfers, truncation, a temporary file,
  positioned reads by two threads, file status and modes, and buffering. The C functions keep
  their names; a function without parameters is a program that answers its return value.
\<close>

unbundle bit_operations_syntax

definition BUFFER_SIZE :: nat where "BUFFER_SIZE = 1024"

definition rw_all :: mode_t where
  "rw_all = S_IRUSR OR S_IWUSR OR S_IRGRP OR S_IWGRP OR S_IROTH OR S_IWOTH"

subsection \<open>\<open>file_io.c\<close>\<close>

definition file_open_read_write :: "('m, int) prog" where
  "file_open_read_write =
     bind (or_errExit (Open ''read'' O_RDONLY None) ''open(): %s'' [T ''read'']) (\<lambda>r.
     let input_fd = ret r;
         open_flags = O_CREAT OR O_WRONLY OR O_TRUNC;
         fileperms = rw_all in
     bind (or_errExit (Open ''write'' open_flags (Some fileperms)) ''open(): %s'' [T ''write'']) (\<lambda>r.
     let output_fd = ret r in
     seq (or_errExit (Lseek input_fd 10 SEEK_SET) ''lseek'' [])
     (bind (copy_loop input_fd BUFFER_SIZE output_fd (\<lambda>m. fatal (fst m) (snd m))
              (''Couldn't write whole buffer'', [])) (\<lambda>numread.
     seq (only_if (numread = -1) (errExit ''read'' []))
     (seq (or_errExit (Close input_fd) ''Close input'' [])
     (seq (or_errExit (Close output_fd) ''Close output'' [])
     (return EXIT_SUCCESS)))))))"

definition file_fcntl :: "('m, int) prog" where
  "file_fcntl =
     bind (or_errExit (Open ''read'' O_RDONLY None) ''open(): %s'' [T ''read'']) (\<lambda>r.
     let input_fd = ret r in
     bind (or_errExit (Sys ''fcntl'' [N input_fd, N F_GETFL]) ''fcntl()'' []) (\<lambda>r.
     let flags = ret r in
     seq (only_if (int_has flags O_SYNC) (printf (''open are synchronized.'' @ [NL]) []))
     (let access_mode = flags AND O_ACCMODE in
     seq (only_if (access_mode = O_RDONLY) (printf (''read only.'' @ [NL]) []))
     (let flags = flags OR O_APPEND in
     seq (or_errExit (Sys ''fcntl'' [N input_fd, N F_SETFL, N flags]) ''fcntl()'' [])
     (return EXIT_SUCCESS)))))"

text \<open>The kernel fills the buffers of an \<open>iovec\<close> in order.\<close>

fun scatter :: "cbuf list \<Rightarrow> string \<Rightarrow> cbuf list" where
  "scatter [] cs = []"
| "scatter (b # bs) cs =
     (map Some (take (length b) cs) @ drop (length cs) b) # scatter bs (drop (length b) cs)"

definition file_scatter_gather :: "('m, int) prog" where
  "file_scatter_gather =
     bind (or_errExit (Open ''read'' O_RDONLY None) ''open(): %s'' [T ''read'']) (\<lambda>r.
     let read_fd = ret r;
         iov = [uninit 10, uninit 5, uninit 3];
         total_required = 10 + 5 + 3 in
     bind (or_errExit (Readv read_fd (map length iov)) ''num_read()'' []) (\<lambda>r.
     let num_read = ret r; iov = scatter iov (rdata r) in
     seq (only_if (num_read < total_required)
            (printf (''read bytes are smaller than required.'' @ [NL]) []))
     (bind (or_errExit (Open ''write'' (O_CREAT OR O_WRONLY OR O_TRUNC) (Some rw_all))
              ''open(): %s'' [T ''write'']) (\<lambda>r.
     let write_fd = ret r in
     bind (sys (Writev write_fd iov)) (\<lambda>r.
     let num_write = ret r in
     seq (only_if (num_write < total_required)
            (printf (''written bytes are smaller than required.'' @ [NL]) []))
     (return EXIT_SUCCESS))))))"

definition file_ftruncate :: "('m, int) prog" where
  "file_ftruncate =
     bind (or_errExit (Open ''read'' O_WRONLY None) ''open(): %s'' [T ''read'']) (\<lambda>r.
     seq (or_errExit (Sys ''ftruncate'' [N (ret r), N 10]) ''ftruncate()'' [])
     (return EXIT_SUCCESS))"

text \<open>\<open>mkstemp\<close> replaces the last six characters of its template by the ones of the name it made.\<close>

definition file_opentempfile :: "('m, int) prog" where
  "file_opentempfile =
     bind (or_errExit (Sys ''mkstemp'' [T ''temporaryfileXXXXXX'']) ''mkstemp(): %s''
             [T ''temporaryfileXXXXXX'']) (\<lambda>r.
     let temp_fd = ret r; tempfile = out_str r 0 in
     seq (sys (Sys ''unlink'' [T tempfile]))
     (let buf = lit (''This is test.'' @ [NUL]) in
     bind (write_from temp_fd buf 0 13) (\<lambda>numwrite.
     seq (only_if (numwrite = -1) (errExit ''write(): %d'' [N temp_fd]))
     (seq (or_errExit (Lseek temp_fd 0 SEEK_SET) ''lseek'' [])
     (bind (read_into temp_fd (uninit 30) 0 (nat numwrite)) (\<lambda>(numread, readbuf).
     seq (only_if (numread = -1) (errExit ''read(): %d'' [N temp_fd]))
     (seq (or_errExit (Close temp_fd) ''close(): %d'' [N temp_fd])
     (return EXIT_SUCCESS))))))))"

definition thread_func :: "int \<Rightarrow> ('m, unit) prog" where
  "thread_func fd =
     seq (fold_each [0..<10] (\<lambda>i buf.
       bind (sys (Pread fd 5 0)) (\<lambda>r.
       seq (only_if (ret r = -1) (errExit ''read(): %d'' [N fd]))
       (bind (store buf 0 (rdata r)) (\<lambda>buf.
       bind (store buf 5 [NUL]) (\<lambda>buf.
       bind (sys (Sys ''gettid'' [])) (\<lambda>tid.
       bind (load_string buf) (\<lambda>str.
       seq (printf ''[%ld]%s '' [N (ret tid), T str])
       (return buf)))))))) (uninit 6))
     skip"

definition file_pread_pwrite :: "('m, int) prog" where
  "file_pread_pwrite =
     bind (sys (Open ''read'' O_RDONLY None)) (\<lambda>r.
     let fd1 = ret r in
     seq (only_if (fd1 = -1) (errExit ''open(): %s'' [N fd1]))
     (bind (sys (Sys ''pthread_create'' [T ''thread_func'', N fd1])) (\<lambda>tid1.
     bind (sys (Sys ''pthread_create'' [T ''thread_func'', N fd1])) (\<lambda>tid2.
     seq (sys (Sys ''pthread_join'' [N (out_int tid1 0)]))
     (seq (sys (Sys ''pthread_join'' [N (out_int tid2 0)]))
     (seq (or_errExit (Close fd1) ''close(): %d'' [N fd1])
     (return EXIT_SUCCESS)))))))"

subsection \<open>\<open>file_stat.c\<close> and \<open>file_mount.c\<close>\<close>

text \<open>The fields of \<open>struct stat\<close> the code reads. A failed \<open>stat\<close> leaves the structure as it was:
  uninitialised.\<close>

record stat_buf =
  st_dev :: int
  st_ino :: int
  st_mode :: mode_t
  st_uid :: int
  st_gid :: int
  st_size :: int
  st_blksize :: int
  st_blocks :: int
  st_nlink :: int
  st_atim :: int
  st_mtim :: int
  st_ctim :: int

definition stat_of :: "reply \<Rightarrow> stat_buf option" where
  "stat_of r = (if ret r = 0
     then Some \<lparr>st_dev = out_int r 0, st_ino = out_int r 1, st_mode = word_of_int (out_int r 2),
       st_uid = out_int r 3, st_gid = out_int r 4, st_size = out_int r 5,
       st_blksize = out_int r 6, st_blocks = out_int r 7,
       st_nlink = out_int r 8, st_atim = out_int r 9, st_mtim = out_int r 10, st_ctim = out_int r 11\<rparr>
     else None)"

text \<open>The device numbers of glibc: 12 low bits of the major and 8 low bits of the minor number in
  the low 20 bits, the rest above.\<close>

definition dev_major :: "int \<Rightarrow> int" where
  "dev_major d = (drop_bit 8 d AND 4095) OR (drop_bit 32 d AND 4294963200)"

definition dev_minor :: "int \<Rightarrow> int" where
  "dev_minor d = (d AND 255) OR (drop_bit 12 d AND 4294967040)"

definition FS_IMMUTABLE_FL :: int where "FS_IMMUTABLE_FL = 16"
definition FS_IOC_GETFLAGS :: int where "FS_IOC_GETFLAGS = 2148034049"
definition FS_IOC_SETFLAGS :: int where "FS_IOC_SETFLAGS = 1074292226"

definition print_file_kind :: "mode_t \<Rightarrow> ('m, unit) prog" where
  "print_file_kind m =
     for_each
       [(file_type_is m S_IFREG, ''It is regular file.''),
        (file_type_is m S_IFDIR, ''It is directory.''),
        (file_type_is m S_IFCHR, ''It is character device.''),
        (file_type_is m S_IFBLK, ''It is block device.''),
        (file_type_is m S_IFIFO, ''It is FIFO(named pipe).''),
        (file_type_is m S_IFLNK, ''It is symbolic link.''),
        (file_type_is m S_IFSOCK, ''It is socket.''),
        (mode_has m S_IRUSR, ''it is readable.''),
        (mode_has m S_IWUSR, ''It is writable.''),
        (mode_has m S_IXUSR, ''It is executable.'')]
       (\<lambda>(b, line). only_if b (printf (line @ [NL]) []))"

text \<open>The time stamps are handed over as a pair: the elements 2 and 3 of an array of two.\<close>

definition timeval_pair :: "(int \<times> int) list \<Rightarrow> nat \<Rightarrow> ((int \<times> int) \<times> (int \<times> int)) option" where
  "timeval_pair tv i = (if i + 1 < length tv then Some (tv ! i, tv ! (i + 1)) else None)"

definition file_stat :: "('m, unit) prog" where
  "file_stat =
     bind (or_errExit (Open ''test'' (O_RDONLY OR O_CREAT) None) ''open()'' []) (\<lambda>r.
     let fd = ret r in
     bind (sys (Sys ''stat'' [T ''test''])) (\<lambda>r.
     bind (require (stat_of r) ''uninitialised struct stat'') (\<lambda>filestat.
     seq (printf (''i-node number=%d'' @ [NL]) [N (st_ino filestat)])
     (let maj = dev_major (st_dev filestat); min = dev_minor (st_dev filestat) in
     seq (printf (''major id=%d, minor id=%d'' @ [NL]) [N maj, N min])
     (seq (print_file_kind (st_mode filestat))
     (seq (printf (''file size=%d, file block=%d, Preferred block size for system IO=%d'' @ [NL])
             [N (st_size filestat), N (st_blocks filestat), N (st_blksize filestat)])
     (seq (sys (Sys ''utimes'' [T ''test'']))
     (bind (sys (Sys ''gettimeofday'' [])) (\<lambda>t0.
     bind (sys (Sys ''gettimeofday'' [])) (\<lambda>t1.
     let tv = [(out_int t0 0, out_int t0 1), (out_int t1 0, out_int t1 1)] in
     bind (require (timeval_pair tv 2) ''read past the end of an array'') (\<lambda>((s0, u0), (s1, u1)).
     seq (sys (Sys ''utimes'' [T ''test'', N s0, N u0, N s1, N u1]))
     (bind (or_errExit (Sys ''stat'' [T ''test'']) ''stat()'' []) (\<lambda>r.
     bind (require (stat_of r) ''uninitialised struct stat'') (\<lambda>fstat.
     seq (or_errExit (Sys ''chown'' [T ''test'', N (st_uid fstat), N (st_gid fstat)]) ''chown()'' [])
     (let mode = (st_mode fstat OR S_IROTH) AND NOT S_IWUSR in
     seq (or_errExit (Sys ''chmod'' [T ''test'', N (uint mode)]) ''chmod()'' [])
     (let mode = (493 :: mode_t) in
     seq (or_errExit (Sys ''chmod'' [T ''test'', N (uint mode)]) ''chmod()'' [])
     (bind (or_errExit (Sys ''ioctl'' [N fd, N FS_IOC_GETFLAGS]) ''ioctl()'' []) (\<lambda>r.
     let attr = out_int r 0 + FS_IMMUTABLE_FL in
     seq (or_errExit (Sys ''ioctl'' [N fd, N FS_IOC_SETFLAGS, N attr]) ''ioctl()'' [])
     skip))))))))))))))))))"

definition MS_RDONLY :: int where "MS_RDONLY = 1"

definition file_mount :: "('m, unit) prog" where
  "file_mount =
     seq (or_errExit (Sys ''mount'' [T ''/dev/sdc1'', T ''/mnt/sdcard'', T ''vfat'', N MS_RDONLY, N NULL])
            ''mount()'' [])
     (seq (or_errExit (Sys ''statvfs'' [T ''/mnt/sdcard'']) ''statvfs()'' [])
     (seq (or_errExit (Sys ''umount'' [T ''/mnt/sdcard'']) ''umount()'' [])
     skip))"

subsection \<open>\<open>file_buffering.c\<close>\<close>

text \<open>A stream is the pointer \<open>fopen\<close> or \<open>fdopen\<close> returned; 0 is null, and using it is undefined.\<close>

definition stream_call :: "string \<Rightarrow> int \<Rightarrow> carg list \<Rightarrow> ('m, reply) prog" where
  "stream_call name p as =
     bind (require (if p = NULL then None else Some p) ''null stream'') (\<lambda>p. sys (Sys name (N p # as)))"

definition IOFBF :: int where "IOFBF = 0"
definition IONBF :: int where "IONBF = 2"

definition file_buffering :: "('m, int) prog" where
  "file_buffering =
     bind (sys (Open ''write'' (O_RDWR OR O_CREAT) (Some rw_all))) (\<lambda>r.
     let fd = ret r in
     bind (sys (Sys ''fdopen'' [N fd, T ''w+''])) (\<lambda>f.
     seq (stream_call ''fprintf'' (ret f) [T (''This is test for normal file stream'' @ [NL])])
     (seq (stream_call ''fclose'' (ret f) [])
     (bind (sys (Sys ''fopen'' [T ''write'', T ''w+''])) (\<lambda>f.
     seq (stream_call ''setvbuf'' (ret f) [N NULL, N IONBF, N 0])
     (seq (stream_call ''fprintf'' (ret f)
             [T (''This is test for normal file stream - Set no buffering.'' @ [NL])])
     (seq (stream_call ''fclose'' (ret f) [])
     (bind (sys (Sys ''malloc'' [N 10])) (\<lambda>stdio_buf.
     bind (sys (Sys ''fopen'' [T ''write'', T ''w+''])) (\<lambda>f.
     seq (stream_call ''setvbuf'' (ret f) [N (ret stdio_buf), N IOFBF, N 10])
     (seq (stream_call ''fprintf'' (ret f)
             [T (''This is test for normal file stream - Set buffer but small size.'' @ [NL])])
     (seq (stream_call ''fclose'' (ret f) [])
     (bind (sys (Sys ''fopen'' [T ''write'', T ''w+''])) (\<lambda>f.
     let strbuf = lit (''This is test for normal file stream - fsync'' @ [NL]) in
     seq (sys (Write fd strbuf))
     (bind (sys (Sys ''fsync'' [N fd])) (\<lambda>r.
     let rc = ret r in
     seq (stream_call ''fclose'' (ret f) [])
     (bind (sys (Open ''write'' (O_RDWR OR O_CREAT OR O_SYNC) (Some rw_all))) (\<lambda>r.
     let fd = ret r in
     bind (sys (Sys ''fopen'' [T ''write'', T ''w+''])) (\<lambda>f.
     seq (sys (Write fd strbuf))
     (seq (stream_call ''fclose'' (ret f) [])
     (bind (sys (Open ''temp'' (O_RDONLY OR O_DIRECT) (Some rw_all))) (\<lambda>r.
     let fd = ret r; blocksize = 512 in
     seq (sys (Sys ''memalign'' [N blocksize, N (blocksize * 4)]))
     (bind (read_into fd (uninit (nat blocksize * 4)) 0 (nat blocksize * 2)) (\<lambda>(numread, aligned_buf).
     seq (only_if (numread = -1) (errExit ''read()'' []))
     (seq (sys (Close fd))
     (return rc))))))))))))))))))))))))))"

subsection \<open>The copy\<close>

lemma copy_loop_ok:
  assumes "copy_loop src sz dst (\<lambda>m. fatal (fst m) (snd m)) (''Couldn't write whole buffer'', []) s = (out, s')"
  obtains es where "trace s' = trace s @ es" "list_all (transfer src sz dst) es"
    "legal_trace es \<Longrightarrow> copied src sz dst es out"
  by (rule fatal_copy_ok [OF _ assms]) (simp_all add: fits_format_def)

text \<open>C7. A run of \<open>file_open_read_write\<close> that returns has opened \<open>read\<close>, created or truncated \<open>write\<close>,
  positioned the first at byte 10, done nothing but read the one and write the other, and closed
  both; it returns 0, and when the first descriptor is open on a file that holds \<open>c\<close>, the bytes
  written are exactly those of \<open>c\<close> from the tenth on.\<close>

theorem file_open_read_write_copies:
  assumes "file_open_read_write s = (Ok v, s')" "trace s' = trace s @ es" "legal_trace es"
  shows "v = 0 \<and> (\<exists>ri ro rl mid c1 c2. es =
      [Did (Open ''read'' O_RDONLY None) ri,
       Did (Open ''write'' (O_CREAT OR O_WRONLY OR O_TRUNC) (Some rw_all)) ro,
       Did (Lseek (ret ri) 10 SEEK_SET) rl] @ mid @
      [Did (Close (ret ri)) c1, Did (Close (ret ro)) c2] \<and>
      list_all (transfer (ret ri) 1024 (ret ro)) mid \<and>
      (\<forall>c. serves (ret ri) c 0 es \<longrightarrow> bytes_written (ret ro) es = lit (drop 10 c)))"
proof -
  let ?open_w = "Open ''write'' (O_CREAT OR O_WRONLY OR O_TRUNC) (Some rw_all)"
  from assms(1) obtain ri ro rl rs n s1 c1 c2 rs' where r: "replies s = ri # ro # rl # rs"
    and loop: "copy_loop (ret ri) 1024 (ret ro) (\<lambda>m. fatal (fst m) (snd m))
        (''Couldn't write whole buffer'', [])
        (after (Lseek (ret ri) 10 SEEK_SET) rl rs (after ?open_w ro (rl # rs)
          (after (Open ''read'' O_RDONLY None) ri (ro # rl # rs) s))) = (Ok n, s1)"
    and n: "n \<noteq> -1" "ret rl \<noteq> -1"
    and e: "s' = after (Close (ret ro)) c2 rs' (after (Close (ret ri)) c1 (c2 # rs') s1)" "v = 0"
    unfolding file_open_read_write_def
    by (auto simp: ok_simps EXIT_SUCCESS_def BUFFER_SIZE_def)
  from loop obtain mid where mid: "trace s1 = trace s @ [Did (Open ''read'' O_RDONLY None) ri,
       Did ?open_w ro, Did (Lseek (ret ri) 10 SEEK_SET) rl] @ mid"
    "list_all (transfer (ret ri) 1024 (ret ro)) mid"
    "legal_trace mid \<Longrightarrow> copied (ret ri) 1024 (ret ro) mid (Ok n)"
    by (auto elim!: copy_loop_ok)
  have es: "es = [Did (Open ''read'' O_RDONLY None) ri, Did ?open_w ro,
      Did (Lseek (ret ri) 10 SEEK_SET) rl] @ mid @ [Did (Close (ret ri)) c1, Did (Close (ret ro)) c2]"
    using assms(2) e(1) mid(1) by simp
  with assms(3) have c: "copied (ret ri) 1024 (ret ro) mid (Ok n)" "legal_trace mid" "0 \<le> ret rl"
    using mid(3) n(2) by auto
  from copied_legal_end [OF c(1,2) n(1)] have n0: "n = 0" .
  have "bytes_written (ret ro) mid = lit (drop 10 cont)" if "serves (ret ri) cont 0 es" for cont
  proof -
    have "serves (ret ri) cont 10 (mid @ [Did (Close (ret ri)) c1, Did (Close (ret ro)) c2])"
      using that c(3) unfolding es by (simp split: if_splits) (metis nat_numeral)
    from copied_file [OF c(1) mid(2) this n0] show ?thesis by simp
  qed
  then show ?thesis
    using es mid(2) e(2) by auto
qed

definition copy_script :: "reply list" where
  "copy_script = [r_ok 3, r_ok 4, r_ok 10, r_got ''klm'', r_ok 3, r_ok 0, r_ok 0, r_ok 0]"

theorem file_open_read_write_copies_witness:
  "fst (file_open_read_write (boot copy_script)) = Ok 0 \<and>
   bytes_written 4 (trace (snd (file_open_read_write (boot copy_script)))) = lit ''klm''"
proof -
  let ?run = "file_open_read_write (boot copy_script)"
  have f: "fst ?run = Ok 0" by code_simp
  have l: "legal_trace (trace (snd ?run))" by code_simp
  have e: "trace (snd ?run) = trace (boot copy_script) @ trace (snd ?run)" by (simp add: boot_def)
  have m: "?run = (Ok 0, snd ?run)" using f by (metis prod.collapse)
  have t: "take 2 (trace (snd ?run)) = [Did (Open ''read'' O_RDONLY None) (r_ok 3),
      Did (Open ''write'' (O_CREAT OR O_WRONLY OR O_TRUNC) (Some rw_all)) (r_ok 4)]"
    by code_simp
  have sv: "serves 3 ''abcdefghijklm'' 0 (trace (snd ?run))" by code_simp
  from file_open_read_write_copies [OF m e l] obtain ri ro where
      "take 2 (trace (snd ?run)) = [Did (Open ''read'' O_RDONLY None) ri,
        Did (Open ''write'' (O_CREAT OR O_WRONLY OR O_TRUNC) (Some rw_all)) ro]"
      "\<forall>c. serves (ret ri) c 0 (trace (snd ?run)) \<longrightarrow>
        bytes_written (ret ro) (trace (snd ?run)) = lit (drop 10 c)"
    by (metis (no_types, lifting) append_Cons take_0 take_Suc_Cons numeral_2_eq_2)
  with t have "\<forall>c. serves 3 c 0 (trace (snd ?run)) \<longrightarrow> bytes_written 4 (trace (snd ?run)) = lit (drop 10 c)"
    by (simp add: r_ok_def)
  with sv have "bytes_written 4 (trace (snd ?run)) = lit (drop 10 ''abcdefghijklm'')" by blast
  with f show ?thesis by simp
qed


lemma wp_print_file_kind:
  assumes "\<And>s'. replies s' = replies s \<Longrightarrow> Q (Ok ()) s'"
  shows "wp (print_file_kind m) Q s"
proof -
  have "prints (print_file_kind m) (concat (map (\<lambda>x. if fst x then [Out (snd x @ [NL]) []] else [])
      [(file_type_is m S_IFREG, ''It is regular file.''),
        (file_type_is m S_IFDIR, ''It is directory.''),
        (file_type_is m S_IFCHR, ''It is character device.''),
        (file_type_is m S_IFBLK, ''It is block device.''),
        (file_type_is m S_IFIFO, ''It is FIFO(named pipe).''),
        (file_type_is m S_IFLNK, ''It is symbolic link.''),
        (file_type_is m S_IFSOCK, ''It is socket.''),
        (mode_has m S_IRUSR, ''it is readable.''),
        (mode_has m S_IWUSR, ''It is writable.''),
        (mode_has m S_IXUSR, ''It is executable.'')]))"
    unfolding print_file_kind_def case_prod_beta by (intro prints_rules)
  then show ?thesis by (rule prints_wp) (rule assms)
qed

text \<open>\<open>file_stat\<close> cannot work: when its first calls succeed, the time stamps it hands to \<open>utimes\<close>
  are read behind the end of an array of two.\<close>

theorem file_stat_overreads:
  assumes "replies s = op # st # u # ta # tb # rs" "ret op \<noteq> -1" "ret st = 0"
  shows "fst (file_stat s) = Stop (Undefined ''read past the end of an array'')"
  using assms
  by (simp add: fst_eq_wp file_stat_def wp_rules c_defs stat_of_def cong: wp_cong)
    (rule wp_print_file_kind, simp add: wp_rules c_defs timeval_pair_def cong: wp_cong)

theorem file_stat_overreads_witness:
  "fst (file_stat (boot (replicate 12 (r_ok 0)))) = Stop (Undefined ''read past the end of an array'')"
  by (rule file_stat_overreads [where op = "r_ok 0" and st = "r_ok 0" and u = "r_ok 0" and
        ta = "r_ok 0" and tb = "r_ok 0" and rs = "replicate 7 (r_ok 0)"])
    (simp_all add: boot_def r_ok_def numeral_eq_Suc)

end
