(* ===== verification/Api3File.thy ===== *)
theory Api3File
  imports FileIO
begin

text \<open>
  File input and output of \<open>api3\<close>: reading a whole file with restarts, the waiting samples
  (\<open>select\<close>, \<open>pselect\<close>, \<open>poll\<close>, \<open>epoll\<close>), vectored and buffered transfers, mappings, asynchronous
  writes and block numbers.
\<close>

unbundle bit_operations_syntax

definition BUF_SIZE :: nat where "BUF_SIZE = 1000"

definition mode_664 :: mode_t where
  "mode_664 = S_IRUSR OR S_IWUSR OR S_IRGRP OR S_IWGRP OR S_IROTH"

subsection \<open>\<open>fileio_read_write.c\<close>\<close>

text \<open>The reading loop: \<open>idx\<close> is the next free place of the buffer, \<open>len\<close> the room that is left.\<close>

definition read_whole :: "int \<Rightarrow> nat \<Rightarrow> ('m, cbuf \<times> nat) prog" where
  "read_whole fd cap =
     loop (\<lambda>(buf, idx, len).
       if len = 0 then leave (buf, idx)
       else
         bind (read_into fd buf idx len) (\<lambda>(numread, buf).
         if numread = 0 then leave (buf, idx)
         else if numread = -1 then
           bind (gets errno) (\<lambda>e.
           if e = EINTR then again (buf, idx, len)
           else errexit ''read'')
         else again (buf, idx + nat numread, len - nat numread)))
     (uninit cap, 0, cap)"

text \<open>\<open>fd\<close> is not set when the option is none of the three.\<close>

definition fileio_read_write :: "('m, unit) prog" where
  "fileio_read_write =
     bind (sys (Sys ''getopt'' [T ''crw''])) (\<lambda>opt.
     bind (if ret opt = 99 then
             bind (or_errexit (Open ''test'' (O_WRONLY OR O_CREAT OR O_TRUNC) (Some mode_664)) ''open'')
               (\<lambda>r. return (Some (ret r)))
           else if ret opt = 114 then
             bind (or_errexit (Open ''test'' O_RDONLY None) ''open'') (\<lambda>r.
             let fd = ret r in
             seq (or_errexit (Sys ''posix_fadvise'' [N fd, N 0, N 0, N 2]) ''posix_fadvise'')
             (bind (read_whole fd BUF_SIZE) (\<lambda>(buf, idx).
             bind (store buf idx [NUL]) (\<lambda>buf.
             bind (load_string buf) (\<lambda>str.
             seq (printf (''%s'' @ [NL]) [T str])
             (return (Some fd)))))))
           else if ret opt = 119 then
             bind (sys (Open ''test'' O_WRONLY None)) (\<lambda>r.
             let fd = ret r in
             bind (read_into STDIN_FILENO (uninit BUF_SIZE) 0 BUF_SIZE) (\<lambda>(numread, buf).
             seq (only_if (numread > 0)
               (seq (or_errexit (Lseek fd 0 SEEK_SET) ''lseek'')
               (bind (write_from fd buf 0 (nat numread)) (\<lambda>w.
               only_if (w \<noteq> numread) (errexit ''write'')))))
             (seq (or_errexit (Sys ''fdatasync'' [N fd]) ''fdatasync'')
             (return (Some fd)))))
           else return None) (\<lambda>fd.
     bind (require fd ''uninitialised descriptor'') (\<lambda>fd.
     seq (or_errexit (Close fd) ''close'')
     skip)))"

subsection \<open>\<open>fileio_select_poll.c\<close> and \<open>fileio_epoll.c\<close>\<close>

definition POLLIN :: int where "POLLIN = 1"
definition EPOLLIN :: int where "EPOLLIN = 1"

text \<open>What the three loops do when the descriptor is ready.\<close>

definition report_input :: "int \<Rightarrow> ('m, unit) prog" where
  "report_input fd =
     bind (read_into fd (uninit BUF_SIZE) 0 BUF_SIZE) (\<lambda>(numread, buf).
     seq (only_if (numread = -1) (errexit ''read''))
     (only_if (numread \<noteq> 0)
       (bind (store buf (nat numread) [NUL]) (\<lambda>buf.
       bind (load_string buf) (\<lambda>str.
       printf (''read bytes = %ld, %s'' @ [NL]) [N numread, T str])))))"

text \<open>The reply of a waiting call carries, as its first result parameter, whether the descriptor is
  in the set (for \<open>poll\<close>, \<open>revents\<close>).\<close>

definition select_sample :: "('m, unit) prog" where
  "select_sample =
     bind (or_errexit (Open ''test'' O_RDONLY None) ''open()'') (\<lambda>r.
     let fd = ret r in
     seq (printf (''FIFO opened on fd %d'' @ [NL]) [N fd])
     (loop (\<lambda>u.
       bind (or_errexit (Sys ''select'' [N (fd + 1), N fd, N 5, N 0]) ''select'') (\<lambda>ready.
       if ret ready = 0 then seq (printf (''time elapsed.'' @ [NL]) []) (leave ())
       else seq (only_if (out_int ready 0 \<noteq> 0) (report_input fd)) (again u))) ()))"

definition pselect_sample :: "('m, unit) prog" where
  "pselect_sample =
     bind (or_errexit (Open ''test'' O_RDONLY None) ''open()'') (\<lambda>r.
     let fd = ret r in
     seq (printf (''FIFO opened on fd %d'' @ [NL]) [N fd])
     (loop (\<lambda>u.
       bind (or_errexit (Sys ''pselect'' [N (fd + 1), N fd, N 5, N 0, N SIGINT]) ''select'') (\<lambda>ready.
       if ret ready = 0 then seq (printf (''time elapsed.'' @ [NL]) []) (leave ())
       else seq (only_if (out_int ready 0 \<noteq> 0) (report_input fd)) (again u))) ()))"

definition poll_sample :: "('m, unit) prog" where
  "poll_sample =
     bind (or_errexit (Open ''test'' O_RDONLY None) ''open()'') (\<lambda>r.
     let fd = ret r in
     seq (printf (''FIFO opened on fd %d'' @ [NL]) [N fd])
     (loop (\<lambda>u.
       bind (or_errexit (Sys ''poll'' [N fd, N POLLIN, N 1, N 5000]) ''select'') (\<lambda>ready.
       if ret ready = 0 then seq (printf (''time elapsed.'' @ [NL]) []) (leave ())
       else seq (only_if (int_has (out_int ready 0) POLLIN) (report_input fd)) (again u))) ()))"

definition MAX_EVENTS :: nat where "MAX_EVENTS = 5"

text \<open>The reply of \<open>epoll_wait\<close> carries the events and descriptors of the entries it filled. The
  buffer is declared before the loop.\<close>

definition epoll_sample :: "('m, unit) prog" where
  "epoll_sample =
     bind (or_errexit (Sys ''epoll_create1'' [N 0]) ''epoll_create1'') (\<lambda>r.
     let epfd = ret r in
     bind (or_errexit (Open ''test'' O_RDONLY None) ''open()'') (\<lambda>r.
     let fd = ret r in
     seq (or_errexit (Sys ''epoll_ctl'' [N epfd, N 1, N fd, N EPOLLIN]) ''epoll_ctl'')
     (bind (or_errexit (Sys ''epoll_wait'' [N epfd, N (int MAX_EVENTS), N (-1)]) ''epoll_wait'') (\<lambda>evs.
     let numevent = ret evs in
     seq (fold_each [0..<nat numevent] (\<lambda>i buf.
       seq (printf (''event = %d, on fd = %d'' @ [NL]) [N (out_int evs (2 * i)), N (out_int evs (2 * i + 1))])
       (bind (read_into fd buf 0 BUF_SIZE) (\<lambda>(numread, buf).
       seq (only_if (numread = -1) (errexit ''read''))
       (bind (store buf (nat numread) [NUL]) (\<lambda>buf.
       bind (load_string buf) (\<lambda>str.
       seq (printf (''read = %ld, %s'' @ [NL]) [N numread, T str])
       (return buf))))))) (uninit BUF_SIZE))
     (seq (sys (Close fd))
     (seq (sys (Close epfd))
     skip))))))"

subsection \<open>\<open>fileio_readv_writev.c\<close>\<close>

definition names :: "string list" where
  "names = [''Hyunsoo Kim'' @ [NL], ''Daeho Lee'' @ [NL], ''Shinsoo Choo'' @ [NL]]"

definition fileio_readv_writev :: "('m, unit) prog" where
  "fileio_readv_writev =
     bind (or_errexit (Open ''test'' (O_WRONLY OR O_CREAT OR O_TRUNC) (Some mode_664)) ''open'') (\<lambda>r.
     let fd = ret r; iov = map (\<lambda>b. lit (b @ [NUL])) names in
     bind (or_errexit (Writev fd iov) ''writev'') (\<lambda>w.
     seq (printf (''write bytes = %ld'' @ [NL]) [N (ret w)])
     (bind (sys (Close fd)) (\<lambda>c.
     seq (only_if (ret c \<noteq> 0) (errexit ''close''))
     (bind (or_errexit (Open ''test'' O_RDONLY None) ''open'') (\<lambda>r.
     let fd = ret r in
     bind (or_errexit (Readv fd (map (\<lambda>b. length b + 1) names)) ''writev'') (\<lambda>r.
     let readbuf = scatter (map (\<lambda>b. uninit (length b + 1)) names) (rdata r) in
     seq (for_each [0..<3] (\<lambda>i.
       bind (load_string (readbuf ! i @ uninit (BUF_SIZE - length (names ! i) - 1))) (\<lambda>str.
       printf ''%s'' [T str])))
     (bind (sys (Close fd)) (\<lambda>c.
     seq (only_if (ret c \<noteq> 0) (errexit ''close''))
     skip)))))))))"

subsection \<open>\<open>fileio_stdio.c\<close>\<close>

definition EOF :: int where "EOF = -1"

text \<open>\<open>while (--need > 0 && (ch = fgetc (stream)) != EOF && (*(idx++) = ch) != delimiter);\<close> with the
  count already decremented; answers the buffer, \<open>idx\<close> and \<open>ch\<close>.\<close>

fun get_line_loop :: "int \<Rightarrow> char \<Rightarrow> nat \<Rightarrow> cbuf \<Rightarrow> nat \<Rightarrow> int \<Rightarrow> ('m, cbuf \<times> nat \<times> int) prog" where
  "get_line_loop stream delim 0 buf idx ch = return (buf, idx, ch)"
| "get_line_loop stream delim (Suc need) buf idx ch =
     bind (sys (Sys ''fgetc'' [N stream])) (\<lambda>r.
     if ret r = EOF then return (buf, idx, ret r)
     else
       bind (store buf idx [char_of (nat (ret r))]) (\<lambda>buf.
       if char_of (nat (ret r)) \<noteq> delim then get_line_loop stream delim need buf (idx + 1) (ret r)
       else return (buf, idx + 1, ret r)))"

definition fileio_stdio_read :: "('m, unit) prog" where
  "fileio_stdio_read =
     bind (sys (Sys ''fopen'' [T ''test'', T ''r''])) (\<lambda>f.
     let stream = ret f in
     seq (only_if (stream = NULL) (errexit ''fdopen''))
     (let need = 10; delimiter = NL in
     bind (get_line_loop stream delimiter (need - 1) (uninit BUF_SIZE) 0 0) (\<lambda>(buf, idx, ch).
     bind (if ch = int (of_char delimiter) then store buf (idx - 1) [NUL] else store buf idx [NUL]) (\<lambda>buf.
     bind (load_string buf) (\<lambda>str.
     seq (printf (''%s'' @ [NL]) [T str])
     (bind (stream_call ''fclose'' stream []) (\<lambda>c.
     seq (only_if (ret c = EOF) (errexit ''fclose''))
     skip)))))))"

text \<open>\<open>struct test\<close>: a name of 20 bytes and an \<open>int\<close>; 24 bytes.\<close>

definition pack_test :: "string \<Rightarrow> int \<Rightarrow> string" where
  "pack_test name number = name @ replicate (20 - length name) NUL @ le_bytes 4 number"

definition test_name :: "string \<Rightarrow> string option" where
  "test_name bs = cstr (lit (take 20 bs))"

definition test_number :: "string \<Rightarrow> int" where
  "test_number bs = le_int (take 4 (drop 20 bs))"

definition fileio_stdio_write :: "('m, unit) prog" where
  "fileio_stdio_write =
     bind (sys (Sys ''fopen'' [T ''test_b'', T ''w+''])) (\<lambda>f.
     let stream_b = ret f in
     seq (only_if (stream_b = NULL) (errexit ''fopen''))
     (let mytest = pack_test ''Myunghoon Ahn'' 12345 in
     bind (sys (Sys ''fwrite'' [T mytest, N 24, N 1, N stream_b])) (\<lambda>w.
     seq (only_if (ret w = 0) (errexit ''fwrite''))
     (seq (sys (Sys ''fflush'' [N stream_b]))
     (bind (sys (Sys ''fileno'' [N stream_b])) (\<lambda>fd_test_b.
     seq (sys (Sys ''fsync'' [N (ret fd_test_b)]))
     (bind (sys (Sys ''fopen'' [T ''test_b'', T ''r''])) (\<lambda>f.
     let stream_b = ret f in
     seq (only_if (stream_b = NULL) (errexit ''fopen''))
     (bind (sys (Sys ''fread'' [N 24, N 1, N stream_b])) (\<lambda>rd.
     seq (only_if (ret rd = 0) (errexit ''fread''))
     (let myread = rdata rd in
     bind (sys (Sys ''ferror'' [N stream_b])) (\<lambda>e.
     seq (only_if (ret e \<noteq> 0) (printf (''error on f'' @ [NL]) []))
     (bind (sys (Sys ''feof'' [N stream_b])) (\<lambda>e.
     seq (only_if (ret e \<noteq> 0) (printf (''EOF on stream_b'' @ [NL]) []))
     (seq (sys (Sys ''clearerr'' [N stream_b]))
     (bind (require (test_name myread) ''string without terminating NUL'') (\<lambda>name.
     seq (printf (''%s = %d'' @ [NL]) [T name, N (test_number myread)])
     (bind (sys (Sys ''fclose'' [N stream_b])) (\<lambda>c.
     seq (only_if (ret c = EOF) (errexit ''fclose''))
     skip)))))))))))))))))))"

definition fileio_stdio_write_lock :: "('m, unit) prog" where
  "fileio_stdio_write_lock =
     bind (sys (Sys ''fopen'' [T ''test'', T ''a+''])) (\<lambda>f.
     let stream = ret f in
     seq (only_if (stream = NULL) (errexit ''fdopen''))
     (seq (sys (Sys ''flockfile'' [N stream]))
     (bind (sys (Sys ''fputs_unlocked'' [T (''This is test1'' @ [NL]), N stream])) (\<lambda>r.
     seq (only_if (ret r = EOF) (errexit ''fputs''))
     (bind (sys (Sys ''fputs_unlocked'' [T (''This is test2'' @ [NL]), N stream])) (\<lambda>r.
     seq (only_if (ret r = EOF) (errexit ''fputs''))
     (seq (sys (Sys ''funlockfile'' [N stream]))
     (bind (sys (Sys ''fclose'' [N stream])) (\<lambda>r.
     seq (only_if (ret r = EOF) (errexit ''fclose''))
     skip)))))))))"

subsection \<open>\<open>fileio_etc.c\<close>\<close>

definition get_inode :: "('m, unit) prog" where
  "get_inode =
     bind (or_errexit (Open ''test'' O_RDWR None) ''open'') (\<lambda>r.
     let fd = ret r in
     bind (or_errexit (Sys ''fstat'' [N fd]) ''fstat'') (\<lambda>st.
     let inode = to_int32 (out_int st 1) in
     seq (printf (''fd = %d, inode number = %d'' @ [NL]) [N fd, N inode])
     (seq (sys (Close fd))
     skip)))"

definition get_physical_block_number :: "('m, unit) prog" where
  "get_physical_block_number =
     bind (or_errexit (Open ''test'' O_RDWR None) ''open'') (\<lambda>r.
     let fd = ret r in
     bind (or_errexit (Sys ''fstat'' [N fd]) ''fstat'') (\<lambda>st.
     let logical_block = to_int32 (out_int st 7) in
     seq (for_each [0..<nat logical_block] (\<lambda>i.
       bind (or_errexit (Sys ''ioctl FIBMAP'' [N fd, N (int i)]) ''ioctl'') (\<lambda>j.
       printf (''logical = %d, physical = %d'' @ [NL]) [N (int i), N (out_int j 0)])))
     (seq (sys (Close fd))
     skip)))"

subsection \<open>\<open>fileio_mmap.c\<close>\<close>

text \<open>The reply of \<open>mmap\<close> and \<open>mremap\<close> is the address; its data are the bytes visible there.\<close>

definition mmap_sample :: "string list \<Rightarrow> ('m, unit) prog" where
  "mmap_sample argv =
     bind (argv_nth argv 1) (\<lambda>file.
     bind (or_errexit (Open file O_RDWR None) ''open'') (\<lambda>r.
     let fd = ret r in
     bind (or_errexit (Sys ''fstat'' [N fd]) ''fstat'') (\<lambda>st.
     let st_mode = word_of_int (out_int st 2); st_size = out_int st 5 in
     if \<not> file_type_is st_mode S_IFREG then
       eprintf (''%s is not a file.'' @ [NL]) [T file]
     else
       bind (or_errexit (Sys ''mmap'' [N NULL, N st_size, N 1, N 1, N fd, N 0]) ''mmap'') (\<lambda>m.
       let p = ret m in
       seq (or_errexit (Close fd) ''close'')
       (bind (require (cstr (lit (rdata m))) ''string without terminating NUL'') (\<lambda>str.
       seq (printf (''%s'' @ [NL]) [T str])
       (let newsize = st_size + 100 in
       bind (or_errexit (Sys ''mremap'' [N p, N st_size, N newsize, N 1]) ''mremap'') (\<lambda>m.
       let new_p = ret m in
       seq (or_errexit (Sys ''mprotect'' [N new_p, N (st_size + 100), N 2]) ''mprotect'')
       (seq (or_errexit (Sys ''msync'' [N new_p, N newsize, N 1]) ''msync'')
       (seq (or_errexit (Sys ''madvise'' [N new_p, N newsize, N 2]) ''madvise'')
       (bind (require (c_strcpy (lit (rdata m)) ''remap works?'') ''write past the end of a mapping'') (\<lambda>mem.
       bind (load_string mem) (\<lambda>str.
       seq (printf (''%s'' @ [NL]) [T str])
       (seq (or_errexit (Sys ''munmap'' [N p, N st_size]) ''munmap'')
       skip))))))))))))))"

subsection \<open>\<open>fileio_aio.c\<close>\<close>

text \<open>A control block for an asynchronous write: descriptor, length, offset, buffer. The buffer is an
  address; the code leaves it null.\<close>

record aiocb =
  aio_fildes :: int
  aio_nbytes :: int
  aio_offset :: int
  aio_buf :: "string option"

definition EINPROGRESS :: int where "EINPROGRESS = 115"
definition MAX_LIST :: int where "MAX_LIST = 5"

definition aio_thread_func :: "aiocb \<Rightarrow> ('m, unit) prog" where
  "aio_thread_func cb =
     bind (sys (Sys ''aio_error'' [N (aio_fildes cb)])) (\<lambda>e.
     only_if (ret e \<noteq> EINPROGRESS)
       (bind (sys (Sys ''aio_return'' [N (aio_fildes cb)])) (\<lambda>w.
       seq (only_if (ret w = -1) (errexit ''aio_return''))
       (bind (require (aio_buf cb) ''null string'') (\<lambda>str.
       printf (''write bytes = %ld, %s'' @ [NL]) [N (ret w), T str])))))"

definition aio_block :: "int \<Rightarrow> aiocb" where
  "aio_block fd = \<lparr>aio_fildes = fd, aio_nbytes = 32, aio_offset = 0, aio_buf = None\<rparr>"

definition fileio_aio_write :: "('m, unit) prog" where
  "fileio_aio_write =
     bind (or_errexit (Open ''test'' O_RDWR None) ''open'') (\<lambda>r.
     let fd = ret r in
     bind (require (c_strcpy (uninit BUF_SIZE) (''This is asynchronous call test!'' @ [NL]))
             ''write past the end of a buffer'') (\<lambda>buf.
     let my_aiocb = aio_block fd in
     seq (or_errexit (Sys ''aio_write'' [N (aio_fildes my_aiocb), N (aio_nbytes my_aiocb), N (aio_offset my_aiocb),
            T (case aio_buf my_aiocb of None \<Rightarrow> [] | Some t \<Rightarrow> t)]) ''aio_write'')
     (seq (or_errexit (Sys ''aio_suspend'' [N MAX_LIST]) ''aio_suspend'')
     skip)))"

subsection \<open>Reading a whole file\<close>

text \<open>What the reading loop has collected: the bytes read so far are the first \<open>idx\<close> bytes of the
  buffer, whatever the number of reads and interruptions.\<close>

definition collected :: "int \<Rightarrow> nat \<Rightarrow> event list \<Rightarrow> cbuf \<Rightarrow> nat \<Rightarrow> bool" where
  "collected fd cap es buf idx \<longleftrightarrow> idx \<le> cap \<and> length buf = cap \<and>
     idx = length (bytes_read fd es) \<and> take idx buf = lit (bytes_read fd es)"

lemma collected_read:
  assumes "collected fd cap es buf idx" "legal (Did (Read fd (cap - idx)) r)" "0 < ret r"
  shows "\<exists>b. poke buf idx (rdata r) = Some b \<and>
    collected fd cap (es @ [Did (Read fd (cap - idx)) r]) b (idx + nat (ret r))"
proof -
  have n: "nat (ret r) = length (rdata r)" "idx + length (rdata r) \<le> length buf"
    using assms by (auto simp: collected_def)
  with assms show ?thesis
    by (auto simp: collected_def poke_def lit_def take_Cons' min_def)
qed

lemma traced_read_whole:
  "traced legal (read_whole fd cap) (\<lambda>out es. list_all (steady fd) es \<and> (case out of
        Ok (buf, idx) \<Rightarrow> \<exists>fs. collected fd cap fs buf idx \<and>
          (es = fs \<and> idx = cap \<or>
           (\<exists>r. es = fs @ [Did (Read fd (cap - idx)) r] \<and> ret r = 0 \<and> idx < cap))
      | Stop x \<Rightarrow> sane x))"
  unfolding read_whole_def
proof (rule traced_loop [where I = "\<lambda>(buf, idx, len) es. list_all (steady fd) es \<and>
      collected fd cap es buf idx \<and> len = cap - idx"], goal_cases)
  case (1 v es)
  obtain buf idx len where v: "v = (buf, idx, len)" by (cases v)
  with 1 have es: "list_all (steady fd) es" "collected fd cap es buf idx" "len = cap - idx" by auto
  then have lb: "idx + len \<le> length buf" by (simp add: collected_def)
  have st: "list_all (steady fd) (es @ [Did (Read fd len) r])" for r
    using es(1) by (simp add: steady_def)
  show ?case
    unfolding v prod.case
  proof (rule traced_if, goal_cases)
    case 1
    with es show ?case by (intro traced_again) (auto simp: collected_def)
  next
    case len: 2
    show ?case
    proof (rule traced_bind [OF traced_read_into [OF honest_legal(1) lb]], goal_cases)
      case (3 w fs)
      then obtain r b' where r: "fs = [Did (Read fd len) r]" "legal (Did (Read fd len) r)"
        and w: "ret r = -1 \<and> w = (-1, buf) \<or>
          0 \<le> ret r \<and> poke buf idx (rdata r) = Some b' \<and> w = (ret r, b')"
        by auto
      show ?case
      proof (cases "ret r = -1")
        case True
        then have c: "collected fd cap (es @ fs) buf idx" using es(2) r(1) by (auto simp: collected_def)
        have g: "traced legal (if e = EINTR then again (buf, idx, len) else errexit ''read'')
            (\<lambda>out gs. case out of Ok (Inl a') \<Rightarrow> (case a' of (buf, idx, len) \<Rightarrow> list_all (steady fd) (es @ fs @ gs) \<and>
                 collected fd cap (es @ fs @ gs) buf idx \<and> len = cap - idx)
               | Ok (Inr b) \<Rightarrow> list_all (steady fd) (es @ fs @ gs) \<and> (case b of (buf, idx) \<Rightarrow> \<exists>hs. collected fd cap hs buf idx \<and>
                   (es @ fs @ gs = hs \<and> idx = cap \<or>
                    (\<exists>r. es @ fs @ gs = hs @ [Did (Read fd (cap - idx)) r] \<and> ret r = 0 \<and> idx < cap)))
               | Stop x \<Rightarrow> list_all (steady fd) (es @ fs @ gs) \<and> sane x)" for e
          using c es r
          by (intro traced_if traced_again traced_mono [OF traced_errexit])
            (auto simp: gives_up_def steady_def is_diagnostic_def list_all_iff split: event.splits)
        from True w have "w = (-1, buf)" by auto
        then show ?thesis
          by (auto intro!: traced_bind [OF traced_gets] tame_rules traced_mono [OF g] split: outcome.splits sum.splits)
      next
        case False
        then have nw: "w = (ret r, b')" "0 \<le> ret r" "poke buf idx (rdata r) = Some b'" using w by auto
        show ?thesis
        proof (cases "ret r = 0")
          case True
          then have b: "b' = buf" using nw(3) r(2) lb by auto
          have "idx < cap" using len es(3) by simp
          with True nw(1) es r(1) st show ?thesis
            unfolding b by (auto intro!: traced_again exI [of _ es])
        next
          case False
          with nw have "0 < ret r" by simp
          from collected_read [OF es(2) r(2) [unfolded es(3)] this] nw es(3) r(1)
          have "collected fd cap (es @ fs) b' (idx + nat (ret r))" by simp
          with False nw es r st show ?thesis
            by (auto intro!: traced_again)
        qed
      qed
    next
      case (4 x fs)
      then show ?case using es(1) by auto
    qed (auto intro!: tame_rules)
  qed
next
  case 4
  show ?case by (simp add: collected_def)
qed (auto intro!: tame_rules consumes_if consumes_leave consumes_read_into split: prod.splits)

lemma tame_read_whole [tame_rules]: "tame (read_whole fd cap)"
  unfolding read_whole_def by (intro tame_rules)

lemma collected_string:
  assumes "collected fd cap fs buf idx" "idx < cap"
  shows "\<exists>b. poke buf idx [NUL] = Some b \<and> cstr b = Some (takeWhile (\<lambda>c. c \<noteq> NUL) (bytes_read fd fs))"
proof -
  have "take idx buf = lit (bytes_read fd fs)" "idx < length buf"
    using assms by (auto simp: collected_def)
  then show ?thesis
    using cstr_lit [of "bytes_read fd fs" "drop (Suc idx) buf"] by (simp add: poke_def lit_def)
qed

text \<open>The part behind the reading loop, by cases on how the loop ended.\<close>

definition prints_file :: "int \<Rightarrow> string \<Rightarrow> unit outcome \<Rightarrow> event list \<Rightarrow> bool" where
  "prints_file fd c out es \<longleftrightarrow> legal_trace es \<longrightarrow> serves fd c 0 es \<longrightarrow>
     (\<forall>u. out = Ok u \<longrightarrow> length c < 1000 \<and>
      Out (''%s'' @ [NL]) [T (takeWhile (\<lambda>x. x \<noteq> NUL) c)] \<in> set es) \<and>
    (\<forall>why. out = Stop (Undefined why) \<longrightarrow> 1000 \<le> length c)"

lemma collected_all:
  assumes "collected fd cap fs buf cap" "list_all (steady fd) fs" "serves fd c 0 (fs @ gs)"
  shows "cap \<le> length c"
  using serves_steady [OF assms(2,3)] assms(1) by (simp add: collected_def)
    (metis length_take min.cobounded1)

lemma read_option_rest:
  assumes tr: "trace s1 = trace s @ pre @ es"
    and pre: "\<And>xs. serves fd c 0 (pre @ xs) = serves fd c 0 xs"
    and st: "legal_trace es \<Longrightarrow> list_all (steady fd) es"
    and v: "legal_trace es \<Longrightarrow> collected fd BUF_SIZE fs buf idx \<and> (es = fs \<and> idx = BUF_SIZE \<or>
        (\<exists>r. es = fs @ [Did (Read fd (BUF_SIZE - idx)) r] \<and> ret r = 0 \<and> idx < BUF_SIZE))"
  shows "wp (bind (store buf idx [NUL]) (\<lambda>buf. bind (load_string buf) (\<lambda>str.
        seq (printf (''%s'' @ [NL]) [T str]) (return (Some fd)))))
     (\<lambda>out s'. case out of
        Ok a \<Rightarrow> wp (bind (require a ''uninitialised descriptor'') (\<lambda>fd. seq (or_errexit (Close fd) ''close'') skip))
           (\<lambda>out s'. \<forall>es. trace s' = trace s @ es \<longrightarrow> prints_file fd c out es) s'
      | Stop x \<Rightarrow> \<forall>es. trace s' = trace s @ es \<longrightarrow> prints_file fd c (Stop x) es) s1"
proof (cases "legal_trace es")
  case False
  then show ?thesis
    by (auto simp: wp_rules tr prints_file_def split: option.splits list.splits cong: wp_cong)
next
  case True
  note v = v [OF True] and st = st [OF True]
  show ?thesis
  proof (cases "idx = BUF_SIZE")
    case full: True
    with v have "es = fs" "length buf = BUF_SIZE" by (auto simp: collected_def)
    with v full st have "BUF_SIZE \<le> length c" if "serves fd c 0 es"
      using collected_all [of fd BUF_SIZE fs buf c "[]"] that by auto
    with full \<open>length buf = BUF_SIZE\<close> tr pre show ?thesis
      by (simp add: wp_rules poke_def prints_file_def BUF_SIZE_def cong: wp_cong)
  next
    case False
    with v obtain r where r: "es = fs @ [Did (Read fd (BUF_SIZE - idx)) r]" "ret r = 0" "idx < BUF_SIZE"
      and c: "collected fd BUF_SIZE fs buf idx" by auto
    from collected_string [OF c r(3)] obtain b where
      b: "poke buf idx [NUL] = Some b" "cstr b = Some (takeWhile (\<lambda>c. c \<noteq> NUL) (bytes_read fd fs))" by blast
    have all: "bytes_read fd fs = c \<and> length c < 1000" if "serves fd c 0 (es @ gs)" for gs
      using serves_end_of_file [of fd fs c 0 "BUF_SIZE - idx" r gs] st that r c
      by (auto simp: collected_def BUF_SIZE_def)
    show ?thesis
      using all [of "Out (''%s'' @ [NL]) [T (takeWhile (\<lambda>c. c \<noteq> NUL) (bytes_read fd fs))] # _"]
      by (auto simp: wp_rules b tr prints_file_def pre split: list.splits cong: wp_cong dest: all)
  qed
qed


definition restart_script :: "reply list" where
  "restart_script = [r_ok 114, r_ok 3, r_ok 0, r_fail 4, r_got ''abc'', r_fail 4, r_got ''de'', r_ok 0, r_ok 0]"


subsection \<open>Waiting for input\<close>

text \<open>No read fills the buffer.\<close>

definition roomy :: "event \<Rightarrow> bool" where
  "roomy e \<longleftrightarrow> legal e \<and> (case e of Did (Read fd n) r \<Rightarrow> ret r < int n | _ \<Rightarrow> True)"

lemma honest_roomy [simp]: "honest roomy"
  by (simp add: honest_def roomy_def)

lemma read_result_string:
  assumes "read_result roomy fd b 0 n v" "fst v \<noteq> -1" "n \<le> length b"
  shows "nat (fst v) + 1 \<le> length (snd v) \<and>
    (\<forall>b'. poke (snd v) (nat (fst v)) [NUL] = Some b' \<longrightarrow> cstr b' \<noteq> None)"
  using assms by (auto simp: read_result_def roomy_def dest: terminated_cstr)

lemma tame_report_input [tame_rules]: "tame (report_input fd)"
  unfolding report_input_def by (intro tame_rules)

lemma safe_report_input [safe_rules]: "safe_if roomy (report_input fd) (\<lambda>_. True)"
  unfolding report_input_def
proof (rule safe_bind [OF safe_read_into], goal_cases)
  case (3 v)
  show ?case
    using read_result_string [OF 3]
    by (cases v) ((rule safe_guards safe_rules tame_rules | simp; fail | fastforce)+)
qed (simp_all add: tame_rules split: prod.splits)

lemma safe_epoll_sample: "safe_if roomy epoll_sample (\<lambda>_. True)"
proof -
  have body: "safe_if roomy (bind (read_into fd buf 0 BUF_SIZE) (\<lambda>(numread, buf).
       seq (only_if (numread = -1) (errexit ''read''))
       (bind (store buf (nat numread) [NUL]) (\<lambda>buf.
       bind (load_string buf) (\<lambda>str.
       seq (printf (''read = %ld, %s'' @ [NL]) [N numread, T str])
       (return buf)))))) (\<lambda>b. length b = BUF_SIZE)" if b: "length buf = BUF_SIZE" for fd buf
  proof (rule safe_bind [OF safe_read_into], goal_cases)
    case (3 v)
    have "length (snd v) = BUF_SIZE" using 3 b by (simp add: read_result_def)
    with read_result_string [OF 3] b show ?case
      by (cases v) ((rule safe_guards safe_rules tame_rules | simp add: length_poke; fail | fastforce)+)
  qed (simp_all add: b tame_rules split: prod.splits)
  show ?thesis
    unfolding epoll_sample_def
    by (rule safe_fold_each [where I = "\<lambda>b. length b = BUF_SIZE"] body safe_guards safe_rules tame_rules
        | (simp; fail))+
qed


text \<open>The bound is sharp: a read that fills the buffer makes the terminator go behind its end.\<close>

theorem full_read_overflows:
  assumes "replies s = r # rs" "legal (Did (Read fd 1000) r)" "ret r = 1000"
  shows "fst (report_input fd s) = Stop (Undefined ''write past the end of a buffer'')"
proof -
  have "length (rdata r) = 1000" using assms(2,3) by auto
  then show ?thesis
    using assms unfolding fst_eq_wp report_input_def
    by (simp add: wp_rules wp_read_into poke_def BUF_SIZE_def cong: wp_cong)
qed

theorem full_read_overflows_witness:
  "fst (report_input 3 (boot [r_got (replicate 1000 CHR ''x'')])) =
     Stop (Undefined ''write past the end of a buffer'')"
  by (rule full_read_overflows [where r = "r_got (replicate 1000 CHR ''x'')" and rs = "[]"])
    (simp_all add: boot_def r_got_def)

subsection \<open>Lines and records through \<open>stdio\<close>\<close>

text \<open>What \<open>fgetc\<close> promises on a stream whose text is \<open>c\<close>: the next character, \<open>EOF\<close> behind the last.\<close>

fun streams :: "int \<Rightarrow> string \<Rightarrow> nat \<Rightarrow> event list \<Rightarrow> bool" where
  "streams f c p [] = True"
| "streams f c p (Did (Sys nm as) r # es) =
     (if nm = ''fgetc'' \<and> as = [N f]
      then ret r = (if p < length c then int (of_char (c ! p)) else EOF) \<and> streams f c (Suc p) es
      else streams f c p es)"
| "streams f c p (e # es) = streams f c p es"

text \<open>The line that is kept: at most \<open>k\<close> characters, up to the delimiter.\<close>

definition line_of :: "nat \<Rightarrow> string \<Rightarrow> string" where
  "line_of k t = takeWhile (\<lambda>c. c \<noteq> NL) (take k t)"

definition line_read :: "nat \<Rightarrow> string \<Rightarrow> cbuf \<Rightarrow> nat \<Rightarrow> cbuf \<times> nat \<times> int \<Rightarrow> bool" where
  "line_read k t buf idx v \<longleftrightarrow> (case v of (buf', idx', ch') \<Rightarrow>
     length buf' = length buf \<and> idx' \<le> length buf \<and>
     take (idx + length (line_of k t)) buf' = take idx buf @ lit (line_of k t) \<and>
     (if NL \<in> set (take k t) then ch' = 10 \<and> idx' = idx + length (line_of k t) + 1
      else ch' \<noteq> 10 \<and> idx' = idx + length (line_of k t)))"

lemma of_char_10: "int (of_char (c :: char)) = 10 \<longleftrightarrow> c = NL"
proof
  assume "int (of_char c) = 10"
  then have "of_char c = (of_char NL :: nat)" by simp
  then show "c = NL" by (simp only: of_char_eq_iff)
qed simp

lemma tame_get_line_loop [tame_rules]: "tame (get_line_loop f d k buf idx ch)"
  by (induction k arbitrary: buf idx ch) (auto intro!: tame_rules)

lemma get_line_loop_reads:
  assumes "get_line_loop f NL k buf idx ch s = (Ok v, s')" "trace s' = trace s @ es"
    "streams f c p (es @ fs)" "ch \<noteq> 10" "idx \<le> length buf"
  shows "line_read k (drop p c) buf idx v"
  using assms
proof (induction k arbitrary: buf idx ch s p es)
  case 0
  then show ?case by (simp add: ok_simps line_read_def line_of_def)
next
  case (Suc k)
  from Suc.prems(1) obtain r rs where r: "replies s = r # rs"
    and run: "(if ret r = EOF then return (buf, idx, ret r)
       else bind (store buf idx [char_of (nat (ret r))]) (\<lambda>buf.
         if char_of (nat (ret r)) \<noteq> NL then get_line_loop f NL k buf (idx + 1) (ret r)
         else return (buf, idx + 1, ret r))) (after (Sys ''fgetc'' [N f]) r rs s) = (Ok v, s')"
    by (auto simp: ok_simps)
  let ?m = "if ret r = EOF then return (buf, idx, ret r)
       else bind (store buf idx [char_of (nat (ret r))]) (\<lambda>buf.
         if char_of (nat (ret r)) \<noteq> NL then get_line_loop f NL k buf (idx + 1) (ret r)
         else return (buf, idx + 1, ret r))"
  have "tame ?m" by (intro tame_rules)
  from tameD(1) [of ?m, OF this run] obtain es1 where
    "trace s' = trace (after (Sys ''fgetc'' [N f]) r rs s) @ es1" by blast
  with Suc.prems(2) have es: "es = Did (Sys ''fgetc'' [N f]) r # es1" by simp
  with Suc.prems(3) have ret: "ret r = (if p < length c then int (of_char (c ! p)) else EOF)"
    and st: "streams f c (Suc p) (es1 @ fs)" by simp_all
  show ?case
  proof (cases "p < length c")
    case False
    with ret run show ?thesis
      using Suc.prems(5) by (simp add: ok_simps line_read_def line_of_def EOF_def)
  next
    case True
    then have d: "drop p c = c ! p # drop (Suc p) c" by (simp add: Cons_nth_drop_Suc)
    have nat: "nat (ret r) = of_char (c ! p)" "ret r \<noteq> EOF" using True ret by (simp_all add: EOF_def)
    with run obtain b where b: "poke buf idx [c ! p] = Some b"
      and run: "(if c ! p \<noteq> NL then get_line_loop f NL k b (idx + 1) (ret r)
         else return (b, idx + 1, ret r)) (after (Sys ''fgetc'' [N f]) r rs s) = (Ok v, s')"
      by (auto simp: ok_simps)
    then have lb: "length b = length buf" "idx + 1 \<le> length buf"
      and tb: "take (idx + 1) b = take idx buf @ [Some (c ! p)]"
      by (auto simp: poke_def split: if_splits)
    show ?thesis
    proof (cases "c ! p = NL")
      case nl: True
      with run have "v = (b, idx + 1, ret r)" by (simp add: ok_simps)
      moreover have "ret r = 10" using ret True nl of_char_10 by simp
      ultimately show ?thesis
        using lb tb nl d by (simp add: line_read_def line_of_def)
          (metis add_diff_cancel_right' append_take_drop_id butlast_snoc butlast_take diff_add_inverse2 take_butlast Suc_eq_plus1 Suc_le_lessD)
    next
      case False
      with run have run: "get_line_loop f NL k b (idx + 1) (ret r) (after (Sys ''fgetc'' [N f]) r rs s) = (Ok v, s')"
        by simp
      have "ret r \<noteq> 10" using ret True False of_char_10 by simp
      from Suc.IH [OF run _ st this] lb es Suc.prems(2)
      have "line_read k (drop (Suc p) c) b (idx + 1) v" by simp
      with False d lb tb show ?thesis
        by (auto simp: line_read_def line_of_def lit_def)
    qed
  qed
qed

text \<open>\<open>fileio_stdio_read\<close> prints the first line of the file without its newline, cut after nine
  characters.\<close>

theorem stdio_read_prints_line:
  assumes "fileio_stdio_read s = (Ok u, s')" "trace s' = trace s @ es" "replies s = fp # rs"
    and "streams (ret fp) c 0 es"
  shows "Out (''%s'' @ [NL]) [T (takeWhile (\<lambda>x. x \<noteq> NUL) (line_of 9 c))] \<in> set es"
proof -
  let ?f = "ret fp" and ?s1 = "after (Sys ''fopen'' [T ''test'', T ''r'']) fp rs s"
  from assms(1,3) obtain buf idx ch s2 b t r rs' where
    loop: "get_line_loop ?f NL 9 (uninit BUF_SIZE) 0 0 ?s1 = (Ok (buf, idx, ch), s2)"
    and b: "(if ch = 10 then poke buf (idx - 1) [NUL] else poke buf idx [NUL]) = Some b" "cstr b = Some t"
    and s': "s' = after (Sys ''fclose'' [N ?f]) r rs' (logged (Out (''%s'' @ [NL]) [T t]) s2)"
    unfolding fileio_stdio_read_def stream_call_def
    by (auto simp: ok_simps split: if_splits)
  from tameD(1) [OF tame_get_line_loop loop] obtain es1 where es1: "trace s2 = trace ?s1 @ es1" by blast
  have es: "es = Did (Sys ''fopen'' [T ''test'', T ''r'']) fp # es1 @
      [Out (''%s'' @ [NL]) [T t], Did (Sys ''fclose'' [N ?f]) r]"
    using assms(2) s' es1 by simp
  with assms(4) have "streams ?f c 0 (es1 @ [Out (''%s'' @ [NL]) [T t], Did (Sys ''fclose'' [N ?f]) r])"
    by simp
  from get_line_loop_reads [OF loop es1 this]
  have l: "line_read 9 c (uninit BUF_SIZE) 0 (buf, idx, ch)" by simp
  have "poke buf (length (line_of 9 c)) [NUL] = Some b"
    using l b(1) by (auto simp: line_read_def split: if_splits)
  moreover have "take (length (line_of 9 c)) buf = lit (line_of 9 c)"
    using l by (simp add: line_read_def)
  ultimately have "t = takeWhile (\<lambda>x. x \<noteq> NUL) (line_of 9 c)"
    using prefix_terminated_cstr b(2) by auto
  with es show ?thesis by simp
qed

definition line_script :: "reply list" where
  "line_script = [r_ok 3, r_ok 104, r_ok 105, r_ok 10, r_ok 0]"

theorem stdio_read_prints_line_witness:
  "Out (''%s'' @ [NL]) [T ''hi''] \<in> set (trace (snd (fileio_stdio_read (boot line_script))))"
proof -
  let ?run = "fileio_stdio_read (boot line_script)"
  have f: "fst ?run = Ok ()" by code_simp
  have e: "trace (snd ?run) = trace (boot line_script) @ trace (snd ?run)" by (simp add: boot_def)
  have m: "?run = (Ok (), snd ?run)" using f by (metis prod.collapse)
  have r: "replies (boot line_script) = r_ok 3 # drop 1 line_script"
    by (simp add: boot_def line_script_def)
  have sv: "streams (ret (r_ok 3)) (''hi'' @ [NL] @ ''there'') 0 (trace (snd ?run))" by code_simp
  from stdio_read_prints_line [OF m e r sv] show ?thesis by (simp add: line_of_def)
qed

text \<open>The record \<open>fileio_stdio_write\<close> stores comes back: when \<open>fread\<close> delivers the bytes \<open>fwrite\<close>
  was given, the name and the number are printed unchanged, and the record has 24 bytes.\<close>

theorem stdio_record_roundtrip:
  assumes "fileio_stdio_write s = (Ok u, s')" "trace s' = trace s @ es"
    and "replies s = f1 # w # fl # no # sy # f2 # rd # rs" "rdata rd = pack_test ''Myunghoon Ahn'' 12345"
  shows "Out (''%s = %d'' @ [NL]) [T ''Myunghoon Ahn'', N 12345] \<in> set es \<and>
    Did (Sys ''fwrite'' [T (rdata rd), N 24, N 1, N (ret f1)]) w \<in> set es \<and>
    length (pack_test ''Myunghoon Ahn'' 12345) = 24"
proof -
  have n: "test_name (pack_test ''Myunghoon Ahn'' 12345) = Some ''Myunghoon Ahn''"
      "test_number (pack_test ''Myunghoon Ahn'' 12345) = 12345"
      "length (pack_test ''Myunghoon Ahn'' 12345) = 24"
    by code_simp+
  from assms(1,3,4) have
    "Out (''%s = %d'' @ [NL]) [T ''Myunghoon Ahn'', N 12345] \<in> set (drop (length (trace s)) (trace s')) \<and>
     Did (Sys ''fwrite'' [T (rdata rd), N 24, N 1, N (ret f1)]) w \<in> set (drop (length (trace s)) (trace s'))"
    unfolding fileio_stdio_write_def by (auto simp: ok_simps n(1,2))
  with assms(2) n(3) show ?thesis by simp
qed

definition record_script :: "reply list" where
  "record_script = [r_ok 7, r_ok 1, r_ok 0, r_ok 3, r_ok 0, r_ok 8,
     (r_ok 1)\<lparr>rdata := pack_test ''Myunghoon Ahn'' 12345\<rparr>, r_ok 0, r_ok 0, r_ok 0, r_ok 0]"

theorem stdio_record_roundtrip_witness:
  "Out (''%s = %d'' @ [NL]) [T ''Myunghoon Ahn'', N 12345] \<in>
     set (trace (snd (fileio_stdio_write (boot record_script))))"
proof -
  let ?run = "fileio_stdio_write (boot record_script)"
  have f: "fst ?run = Ok ()" by code_simp
  have e: "trace (snd ?run) = trace (boot record_script) @ trace (snd ?run)" by (simp add: boot_def)
  have m: "?run = (Ok (), snd ?run)" using f by (metis prod.collapse)
  have r: "replies (boot record_script) = r_ok 7 # r_ok 1 # r_ok 0 # r_ok 3 # r_ok 0 # r_ok 8 #
      (r_ok 1)\<lparr>rdata := pack_test ''Myunghoon Ahn'' 12345\<rparr> # drop 7 record_script"
    by (simp add: boot_def record_script_def)
  from stdio_record_roundtrip [OF m e r] show ?thesis by simp
qed

end
