(* ===== verification/Directory.thy ===== *)
theory Directory
  imports FileIO
begin

text \<open>
  \<open>api3/file_directory.c\<close>, \<open>LinuxAPI/file_event.c\<close> and \<open>LinuxAPI/directory_link.c\<close>: file status and
  permissions, directories and links, and the decoding of \<open>inotify\<close> events from the bytes the
  kernel delivers.
\<close>

unbundle bit_operations_syntax

subsection \<open>Status and permissions (\<open>file_directory.c\<close>)\<close>

definition perm_bits :: "(mode_t \<times> char) list" where
  "perm_bits = [(S_IRUSR, CHR ''r''), (S_IWUSR, CHR ''w''), (S_IXUSR, CHR ''x''),
     (S_IRGRP, CHR ''r''), (S_IWGRP, CHR ''w''), (S_IXGRP, CHR ''x''),
     (S_IROTH, CHR ''r''), (S_IWOTH, CHR ''w''), (S_IXOTH, CHR ''x'')]"

definition print_kind :: "mode_t \<Rightarrow> ('m, unit) prog" where
  "print_kind m =
     (let t = m AND S_IFMT in
      if t = S_IFBLK then printf (''block device node'' @ [NL]) []
      else if t = S_IFCHR then printf (''chracter device node'' @ [NL]) []
      else if t = S_IFDIR then printf (''directory'' @ [NL]) []
      else if t = S_IFIFO then printf (''FIFO'' @ [NL]) []
      else if t = S_IFLNK then printf (''symbolic link'' @ [NL]) []
      else if t = S_IFREG then printf (''regular file'' @ [NL]) []
      else if t = S_IFSOCK then printf (''socket'' @ [NL]) []
      else skip)"

definition get_stat :: "string list \<Rightarrow> ('m, unit) prog" where
  "get_stat argv =
     bind (argv_nth argv 1) (\<lambda>file.
     bind (or_errexit (Sys ''stat'' [T file]) ''stat'') (\<lambda>r.
     bind (require (stat_of r) ''uninitialised struct stat'') (\<lambda>sb.
     seq (printf (''file size = %ld bytes'' @ [NL]) [N (st_size sb)])
     (let maj = dev_major (st_dev sb); min = dev_minor (st_dev sb) in
     seq (printf (''devic node : major = %d, minor = %d'' @ [NL]) [N maj, N min])
     (seq (printf (''inode = %ld'' @ [NL]) [N (st_ino sb)])
     (seq (print_kind (st_mode sb))
     (seq (for_each perm_bits (\<lambda>(b, c). if mode_has (st_mode sb) b then printf [c] [] else printf ''-'' []))
     (seq (printf [NL] [])
     (seq (printf (''hard link = %ld'' @ [NL]) [N (st_nlink sb)])
     (seq (printf (''uid = %d'' @ [NL]) [N (st_uid sb)])
     (seq (printf (''gid = %d'' @ [NL]) [N (st_gid sb)])
     (seq (printf (''block size = %ld bytes'' @ [NL]) [N (st_blksize sb)])
     (seq (printf (''block count = %ld'' @ [NL]) [N (st_blocks sb)])
     (seq (printf (''access time = %ld'' @ [NL]) [N (st_atim sb)])
     (seq (printf (''modified time = %ld'' @ [NL]) [N (st_mtim sb)])
     (printf (''correct time = %ld'' @ [NL]) [N (st_ctim sb)]))))))))))))))))"

definition chn_mode :: "mode_t \<Rightarrow> mode_t" where
  "chn_mode m = (m OR S_IWOTH) AND NOT S_IWUSR"

definition chn_access :: "string list \<Rightarrow> ('m, unit) prog" where
  "chn_access argv =
     bind (argv_nth argv 1) (\<lambda>file.
     bind (or_errexit (Sys ''stat'' [T file]) ''stat'') (\<lambda>r.
     bind (require (stat_of r) ''uninitialised struct stat'') (\<lambda>sb.
     let mode = chn_mode (st_mode sb) in
     seq (or_errexit (Sys ''chmod'' [T file, N (uint mode)]) ''chmod'')
     skip)))"

definition chn_owner :: "string list \<Rightarrow> ('m, unit) prog" where
  "chn_owner argv =
     bind (argv_nth argv 1) (\<lambda>file.
     seq (or_errexit (Sys ''stat'' [T file]) ''stat'')
     (seq (or_errexit (Sys ''chown'' [T file, N 0, N 0]) ''chown'')
     skip))"

text \<open>\<open>getcwd\<close> returns a null pointer on failure; its name is the first string of the reply.\<close>

definition working_diretory :: "('m, unit) prog" where
  "working_diretory =
     bind (sys (Sys ''getcwd'' [N NULL, N 0])) (\<lambda>r.
     seq (only_if (ret r = NULL) (errexit ''getcwd''))
     (seq (printf (''current working directory = %s'' @ [NL]) [T (out_str r 0)])
     (seq (or_errexit (Sys ''chdir'' [T ''/'']) ''chdir'')
     (bind (or_errexit (Open ''.'' O_RDONLY None) ''open'') (\<lambda>f.
     seq (or_errexit (Sys ''chdir'' [T ''/'']) ''chdir'')
     (seq (or_errexit (Sys ''fchdir'' [N (ret f)]) ''fchdir'')
     (seq (sys (Close (ret f)))
     skip)))))))"

definition dir_mode :: mode_t where
  "dir_mode = S_IRUSR OR S_IWUSR OR S_IXUSR OR S_IRGRP OR S_IWGRP OR S_IXGRP OR S_IROTH OR S_IWOTH"

definition make_directory :: "('m, unit) prog" where
  "make_directory =
     seq (or_errexit (Sys ''mkdir'' [T ''test_dir'', N (uint dir_mode)]) ''mkdir'')
     (seq (or_errexit (Sys ''rmdir'' [T ''test_dir'']) ''rmdir'')
     skip)"

text \<open>The search: \<open>readdir\<close> answers 0 at the end and on failure, otherwise an entry with its name.
  The loop answers \<open>ret\<close> and whether \<open>entry\<close> is null.\<close>

definition find_entry :: "int \<Rightarrow> string \<Rightarrow> ('m, int \<times> bool) prog" where
  "find_entry dir name =
     loop (\<lambda>u.
       bind (sys (Sys ''readdir'' [N dir])) (\<lambda>entry.
       if ret entry = NULL then leave (0, True)
       else if out_str entry 0 = name then
         seq (printf (''found: %s'' @ [NL]) [T name]) (leave (1, False))
       else again u)) ()"

definition traversal_directory :: "string list \<Rightarrow> ('m, unit) prog" where
  "traversal_directory argv =
     bind (sys (Sys ''opendir'' [T ''.''])) (\<lambda>d.
     let dir = ret d in
     seq (set_errno 0)
     (bind (argv_nth argv 1) (\<lambda>name.
     bind (require (if dir = NULL then None else Some dir) ''null directory stream'') (\<lambda>dir.
     bind (find_entry dir name) (\<lambda>(res, null).
     bind (gets errno) (\<lambda>e.
     seq (only_if (e \<noteq> 0 \<and> null) (errexit ''readdir''))
     (seq (only_if (res = 0) (printf (''not found: %s'' @ [NL]) [T name]))
     (seq (sys (Sys ''closedir'' [N dir]))
     skip))))))))"

definition CDROMEJECT :: int where "CDROMEJECT = 21257"

definition ioctl_example :: "string list \<Rightarrow> ('m, unit) prog" where
  "ioctl_example argv =
     bind (argv_nth argv 1) (\<lambda>file.
     bind (or_errexit (Open file (O_RDONLY OR O_NONBLOCK) None) ''open'') (\<lambda>r.
     seq (or_errexit (Sys ''ioctl'' [N (ret r), N CDROMEJECT, N 0]) ''ioctl'')
     (seq (or_errexit (Close (ret r)) ''close'')
     skip)))"

subsection \<open>\<open>inotify\<close> events\<close>

definition IN_ACCESS :: int where "IN_ACCESS = 1"
definition IN_MODIFY :: int where "IN_MODIFY = 2"
definition IN_ATTRIB :: int where "IN_ATTRIB = 4"
definition IN_CLOSE_WRITE :: int where "IN_CLOSE_WRITE = 8"
definition IN_CLOSE_NOWRITE :: int where "IN_CLOSE_NOWRITE = 16"
definition IN_OPEN :: int where "IN_OPEN = 32"
definition IN_MOVED_FROM :: int where "IN_MOVED_FROM = 64"
definition IN_MOVED_TO :: int where "IN_MOVED_TO = 128"
definition IN_CREATE :: int where "IN_CREATE = 256"
definition IN_DELETE :: int where "IN_DELETE = 512"
definition IN_DELETE_SELF :: int where "IN_DELETE_SELF = 1024"
definition IN_MOVE_SELF :: int where "IN_MOVE_SELF = 2048"
definition IN_UNMOUNT :: int where "IN_UNMOUNT = 8192"
definition IN_Q_OVERFLOW :: int where "IN_Q_OVERFLOW = 16384"
definition IN_IGNORED :: int where "IN_IGNORED = 32768"
definition IN_ISDIR :: int where "IN_ISDIR = 1073741824"
definition IN_ALL_EVENTS :: int where "IN_ALL_EVENTS = 4095"

text \<open>\<open>struct inotify_event\<close>: a header of four 32-bit numbers and, behind it, \<open>len\<close> bytes that hold
  the name and its terminating and padding NUL bytes.\<close>

record inotify_event =
  ev_wd :: int
  ev_mask :: int
  ev_cookie :: int
  ev_len :: nat
  ev_name :: cbuf

definition known_bytes :: "cbuf \<Rightarrow> string option" where
  "known_bytes b = (if None \<in> set b then None else Some (map the b))"

text \<open>Reading the structure at offset \<open>i\<close> of a buffer.\<close>

definition event_at :: "cbuf \<Rightarrow> nat \<Rightarrow> inotify_event option" where
  "event_at buf i =
     (case peek buf i 16 of
        None \<Rightarrow> None
      | Some h \<Rightarrow>
          (case known_bytes h of
             None \<Rightarrow> None
           | Some bs \<Rightarrow>
               Some \<lparr>ev_wd = le_int (take 4 bs), ev_mask = le_uint (take 4 (drop 4 bs)),
                 ev_cookie = le_uint (take 4 (drop 8 bs)), ev_len = nat (le_uint (drop 12 bs)),
                 ev_name = drop (i + 16) buf\<rparr>))"

definition mask_names :: "(int \<times> string) list" where
  "mask_names =
     [(IN_ACCESS, ''IN_ACCESS''), (IN_ATTRIB, ''IN_ATTRIB''), (IN_CLOSE_NOWRITE, ''IN_CLOSE_NOWRITE''),
      (IN_CLOSE_WRITE, ''IN_CLOSE_WRITE''), (IN_CREATE, ''IN_CREATE''), (IN_DELETE, ''IN_DELETE''),
      (IN_DELETE_SELF, ''IN_DELETE_SELF''), (IN_IGNORED, ''IN_IGNORED''), (IN_ISDIR, ''IN_ISDIR''),
      (IN_MODIFY, ''IN_MODIFY''), (IN_MOVE_SELF, ''IN_MOVE_SELF''), (IN_MOVED_FROM, ''IN_MOVED_FROM''),
      (IN_MOVED_TO, ''IN_MOVED_TO''), (IN_OPEN, ''IN_OPEN''), (IN_Q_OVERFLOW, ''IN_Q_OVERFLOW''),
      (IN_UNMOUNT, ''IN_UNMOUNT'')]"

definition print_mask :: "int \<Rightarrow> ('m, unit) prog" where
  "print_mask m =
     for_each mask_names (\<lambda>(b, name). only_if (int_has m b) (printf ([TAB] @ ''event: '' @ name @ [NL]) []))"

definition event_func :: "inotify_event \<Rightarrow> ('m, unit) prog" where
  "event_func event =
     seq (printf ''watch descriptor: %d, '' [N (ev_wd event)])
     (seq (printf (''mask = %d'' @ [NL]) [N (to_int32 (ev_mask event))])
     (seq (printf (''dir = %d'' @ [NL]) [N (to_int32 (ev_mask event AND IN_ISDIR))])
     (seq (only_if (ev_len event \<noteq> 0)
       (bind (load_string (ev_name event)) (\<lambda>name. printf (''file name = %s'' @ [NL]) [T name])))
     (print_mask (ev_mask event)))))"

text \<open>\<open>while (i < len) { event = (struct inotify_event *) &buf[i]; f (event);
  i += sizeof (struct inotify_event) + event->len; }\<close>\<close>

function events_loop :: "(inotify_event \<Rightarrow> ('m, unit) prog) \<Rightarrow> cbuf \<Rightarrow> nat \<Rightarrow> nat \<Rightarrow> ('m, unit) prog" where
  "events_loop f buf len i =
     (if i < len then
        bind (require (event_at buf i) ''unreadable event'') (\<lambda>event.
        seq (f event) (events_loop f buf len (i + (16 + ev_len event))))
      else skip)"
  by pat_completeness auto
termination
  by (relation "measure (\<lambda>(f, buf, len, i). len - i)") auto

declare events_loop.simps [simp del]

definition BUFSIZ :: nat where "BUFSIZ = 8192"

definition inotify_example :: "string list \<Rightarrow> ('m, unit) prog" where
  "inotify_example argv =
     bind (or_errexit (Sys ''inotify_init1'' [N 0]) ''inotify_init1'') (\<lambda>r.
     let fd = ret r in
     bind (argv_nth argv 1) (\<lambda>path.
     bind (or_errexit (Sys ''inotify_add_watch'' [N fd, T path, N IN_ALL_EVENTS]) ''inotify_add_watch'') (\<lambda>r.
     let wd = ret r in
     bind (read_into fd (uninit BUFSIZ) 0 BUFSIZ) (\<lambda>(len, buf).
     seq (only_if (len = -1) (errexit ''read''))
     (seq (events_loop event_func buf (nat len) 0)
     (seq (or_errexit (Sys ''inotify_rm_watch'' [N fd, N wd]) ''inotify_rm_watch'')
     (seq (sys (Close fd))
     skip)))))))"

subsection \<open>\<open>file_event.c\<close>\<close>

definition MAX_PATH :: nat where "MAX_PATH = 256"
definition MAX_BUFFER :: nat where "MAX_BUFFER = 4096"
definition MAX_FILE :: nat where "MAX_FILE = 2"

record fwatch =
  watchd :: int
  filename :: string

text \<open>The static table \<open>fw\<close> is part of the process.\<close>

record fw_proc = proc +
  fw :: "fwatch list"

definition set_filename :: "nat \<Rightarrow> string \<Rightarrow> ('m fw_proc_ext, unit) prog" where
  "set_filename i name = modify (\<lambda>s. s\<lparr>fw := (fw s)[i := ((fw s) ! i)\<lparr>filename := name\<rparr>]\<rparr>)"

definition set_watchd :: "nat \<Rightarrow> int \<Rightarrow> ('m fw_proc_ext, unit) prog" where
  "set_watchd i w = modify (\<lambda>s. s\<lparr>fw := (fw s)[i := ((fw s) ! i)\<lparr>watchd := w\<rparr>]\<rparr>)"

definition fevent_func :: "inotify_event \<Rightarrow> ('m fw_proc_ext, unit) prog" where
  "fevent_func fevent =
     seq (printf ''watch descriptor: %d, '' [N (ev_wd fevent)])
     (bind (gets fw) (\<lambda>fw.
     case find (\<lambda>w. ev_wd fevent = watchd w) (take MAX_FILE fw) of
       None \<Rightarrow> skip
     | Some w \<Rightarrow>
         seq (printf (''file name = %s'' @ [NL]) [T (filename w)])
         (print_mask (ev_mask fevent))))"

definition file_event :: "('m fw_proc_ext, unit) prog" where
  "file_event =
     seq (set_filename 0 ''file1'')
     (seq (set_filename 1 ''file2'')
     (seq (or_errExit (Sys ''chdir'' [T ''event'']) ''chdir()'' [])
     (bind (sys (Sys ''inotify_init'' [])) (\<lambda>r.
     let notify_fd = ret r in
     seq (for_each [0..<2] (\<lambda>i.
       bind (gets fw) (\<lambda>fw.
       bind (sys (Sys ''inotify_add_watch'' [N notify_fd, T (filename (fw ! i)), N IN_ALL_EVENTS])) (\<lambda>r.
       set_watchd i (ret r)))))
     (seq (loop (\<lambda>nfd_buf.
       bind (read_into notify_fd nfd_buf 0 MAX_BUFFER) (\<lambda>(read_cnt, nfd_buf).
       if read_cnt = -1 then seq (errMsg ''read()'' []) (leave ())
       else seq (events_loop fevent_func nfd_buf (nat read_cnt) 0) (again nfd_buf))) (uninit MAX_BUFFER))
     (seq (for_each [0..<2] (\<lambda>i.
       bind (gets fw) (\<lambda>fw.
       seq (sys (Sys ''inotify_rm_watch'' [N notify_fd, N (watchd (fw ! i))]))
       skip)))
     (seq (sys (Close notify_fd))
     skip)))))))"

subsection \<open>\<open>directory_link.c\<close>\<close>

text \<open>A visit of \<open>nftw\<close>: the path, the mode and inode of its status, and the offset of its last
  component. The reply of \<open>nftw\<close> carries the visits it makes: the paths as strings, the numbers in
  threes.\<close>

definition dirfunc :: "string \<Rightarrow> mode_t \<Rightarrow> int \<Rightarrow> nat \<Rightarrow> ('m, int) prog" where
  "dirfunc pathname mode ino base =
     (let t = mode AND S_IFMT in
     seq (if t = S_IFREG then printf ''file: '' []
          else if t = S_IFDIR then printf ''directory: '' []
          else if t = S_IFCHR then printf ''chracter device: '' []
          else if t = S_IFBLK then printf ''block device: '' []
          else if t = S_IFLNK then printf ''symbolic link: '' []
          else printf ''---'' [])
     (seq (printf ''%7ld '' [N ino])
     (bind (require (if base \<le> length pathname then Some (drop base pathname) else None)
              ''pointer past the end of a string'') (\<lambda>name.
     seq (printf (''%s'' @ [NL]) [T name])
     (return 0)))))"

definition PATH_MAX :: nat where "PATH_MAX = 4096"
definition AT_FDCWD :: int where "AT_FDCWD = -100"

text \<open>A pointer into a block of \<open>strdup\<close>: the text and the offset from the start of the block.
  \<open>dirname\<close> and \<open>basename\<close> of a path that contains a slash and does not end with one.\<close>

definition last_slash :: "string \<Rightarrow> nat" where
  "last_slash p = length p - 1 - length (takeWhile (\<lambda>c. c \<noteq> CHR ''/'') (rev p))"

definition c_dirname :: "string \<Rightarrow> string \<times> nat" where
  "c_dirname p = (take (last_slash p) p, 0)"

definition c_basename :: "string \<Rightarrow> string \<times> nat" where
  "c_basename p = (drop (Suc (last_slash p)) p, Suc (last_slash p))"

text \<open>\<open>free\<close> is only defined for the start of a block.\<close>

definition free_at :: "nat \<Rightarrow> ('m, unit) prog" where
  "free_at off = bind (require (if off = 0 then Some () else None) ''free of a pointer into a block'') (\<lambda>_. skip)"

definition list_entries :: "int \<Rightarrow> ('m, unit) prog" where
  "list_entries dir_stream =
     loop (\<lambda>u.
       seq (set_errno 0)
       (bind (sys (Sys ''readdir'' [N dir_stream])) (\<lambda>e.
       if ret e = NULL then leave ()
       else if out_str e 0 = ''.'' \<or> out_str e 0 = ''..'' then again u
       else seq (printf (''[%ld] %s'' @ [NL]) [N (out_int e 0), T (out_str e 0)]) (again u)))) ()"

definition link_demo :: "('m, unit) prog" where
  "link_demo =
     for_each
       [(''link'', [T ''test'', T ''test_link''], ''link()''), (''unlink'', [T ''test_link''], ''unlink()''),
        (''rename'', [T ''test'', T ''test_new''], ''rename()''),
        (''symlink'', [T ''test_new'', T ''test_slink''], ''symlink()'')]
       (\<lambda>(c, as, msg). bind (sys (Sys c as)) (\<lambda>r. only_if (ret r = -1) (errMsg msg [])))"

definition directory_link :: "('m, unit) prog" where
  "directory_link =
     seq (or_errExit (Open ''test'' (O_RDWR OR O_CREAT) None) ''open()'' [])
     (seq link_demo
     (bind (sys (Sys ''readlink'' [T ''test_slink'', N (int PATH_MAX - 1)])) (\<lambda>l.
     bind (if ret l = -1 then seq (errMsg ''readlink()'' []) (return (uninit PATH_MAX))
           else store (uninit PATH_MAX) 0 (rdata l)) (\<lambda>buf.
     bind (sys (Sys ''realpath'' [T ''test_slink''])) (\<lambda>p.
     bind (if ret p = NULL then seq (errMsg ''readpath()'' []) (return buf)
           else store buf 0 (out_str p 0 @ [NUL])) (\<lambda>buf.
     bind (load_string buf) (\<lambda>str.
     seq (printf (''Path of link: %s'' @ [NL]) [T str])
     (bind (sys (Sys ''getcwd'' [N NULL, N (int PATH_MAX)])) (\<lambda>d.
     seq (only_if (ret d = NULL) (errMsg ''getcwd()'' []))
     (bind (require (if ret d = NULL then None else Some (out_str d 0)) ''null string'') (\<lambda>currentdir.
     seq (printf (''current directory = %s'' @ [NL]) [T currentdir])
     (bind (sys (Sys ''mkdir'' [T ''dtest'', N 493])) (\<lambda>r.
     seq (only_if (ret r = -1) (errMsg ''mkdir()'' []))
     (seq (sys (Sys ''system'' [T ''touch dtest/file1 dtest/file2 dtest/file3'']))
     (bind (sys (Sys ''opendir'' [T ''dtest''])) (\<lambda>ds.
     if ret ds = NULL then errMsg ''opendir()'' []
     else
     seq (list_entries (ret ds))
     (bind (sys (Sys ''closedir'' [N (ret ds)])) (\<lambda>r.
     seq (only_if (ret r = -1) (errMsg ''closedir()'' []))
     (bind (sys (Sys ''nftw'' [T ''dtest'', N 10, N 0])) (\<lambda>w.
     seq (for_each [0..<length (rstrs w)] (\<lambda>i.
       bind (dirfunc (out_str w i) (word_of_int (out_int w (3 * i))) (out_int w (3 * i + 1))
               (nat (out_int w (3 * i + 2)))) (\<lambda>_. skip)))
     (seq (only_if (ret w = -1) (errMsg ''nftw()'' []))
     (bind (or_errExit (Open ''dtest'' O_RDONLY None) ''open()'' []) (\<lambda>d.
     seq (or_errExit (Sys ''openat'' [N (ret d), T ''file1'', N O_RDONLY]) ''openat()'' [])
     (seq (or_errExit (Sys ''openat'' [N AT_FDCWD, T ''file4'', N O_RDONLY]) ''openat()'' [])
     (let fullpath = ''/usr/include/glib-2.0/glib.h''; path = c_dirname fullpath; name = c_basename fullpath in
     seq (printf (''Path: %s'' @ [NL]) [T (fst path)])
     (seq (printf (''Name: %s'' @ [NL]) [T (fst name)])
     (seq (free_at (snd path))
     (free_at (snd name)))))))))))))))))))))))))))))"

subsection \<open>Decoding the events of the kernel\<close>

text \<open>The bytes of an event as the kernel packs them: a name with at least one NUL behind it, or no
  name at all.\<close>

record kernel_event =
  k_wd :: int
  k_mask :: int
  k_cookie :: int
  k_name :: string
  k_pad :: nat

definition proper_event :: "kernel_event \<Rightarrow> bool" where
  "proper_event e \<longleftrightarrow> - (2 ^ 31) \<le> k_wd e \<and> k_wd e < 2 ^ 31 \<and> 0 \<le> k_mask e \<and> k_mask e < 2 ^ 32 \<and>
     0 \<le> k_cookie e \<and> k_cookie e < 2 ^ 32 \<and> c_string (k_name e) \<and>
     int (length (k_name e) + k_pad e) < 2 ^ 32 \<and> (k_pad e = 0 \<longrightarrow> k_name e = [])"

definition pack_event :: "kernel_event \<Rightarrow> string" where
  "pack_event e = le_bytes 4 (k_wd e) @ le_bytes 4 (k_mask e) @ le_bytes 4 (k_cookie e) @
     le_bytes 4 (int (length (k_name e) + k_pad e)) @ k_name e @ replicate (k_pad e) NUL"

definition mask_lines :: "int \<Rightarrow> event list" where
  "mask_lines m = concat (map (\<lambda>x. if int_has m (fst x) then [Out ([TAB] @ ''event: '' @ snd x @ [NL]) []] else [])
     mask_names)"

definition event_lines :: "kernel_event \<Rightarrow> event list" where
  "event_lines e =
     [Out ''watch descriptor: %d, '' [N (k_wd e)], Out (''mask = %d'' @ [NL]) [N (to_int32 (k_mask e))],
      Out (''dir = %d'' @ [NL]) [N (to_int32 (k_mask e AND IN_ISDIR))]] @
     (if k_pad e \<noteq> 0 then [Out (''file name = %s'' @ [NL]) [T (k_name e)]] else []) @
     mask_lines (k_mask e)"

lemma prints_print_mask [prints_rules]: "prints (print_mask m) (mask_lines m)"
  unfolding print_mask_def mask_lines_def case_prod_beta by (intro prints_rules)

lemma length_pack_event: "length (pack_event e) = 16 + (length (k_name e) + k_pad e)"
  by (simp add: pack_event_def)

lemma known_bytes_lit: "known_bytes (lit bs) = Some bs"
  by (auto simp: known_bytes_def lit_def comp_def)

lemma event_at_pack:
  assumes "proper_event e"
  shows "event_at (lit (pre @ pack_event e @ post) @ rest) (length pre) =
    Some \<lparr>ev_wd = k_wd e, ev_mask = k_mask e, ev_cookie = k_cookie e,
      ev_len = length (k_name e) + k_pad e,
      ev_name = lit (k_name e @ replicate (k_pad e) NUL @ post) @ rest\<rparr>"
proof -
  let ?h = "le_bytes 4 (k_wd e) @ le_bytes 4 (k_mask e) @ le_bytes 4 (k_cookie e) @
     le_bytes 4 (int (length (k_name e) + k_pad e))"
  let ?t = "k_name e @ replicate (k_pad e) NUL @ post"
  have b: "lit (pre @ pack_event e @ post) @ rest = lit pre @ lit ?h @ lit ?t @ rest"
    by (simp add: pack_event_def)
  have p: "peek (lit pre @ lit ?h @ lit ?t @ rest) (length pre) 16 = Some (lit ?h)"
    by (simp add: peek_def)
  have d: "drop (length pre + 16) (lit pre @ lit ?h @ lit ?t @ rest) = lit ?t @ rest"
    by simp
  show ?thesis
    unfolding b event_at_def p d option.case known_bytes_lit
    using assms by (simp add: le_int_le_bytes le_uint_le_bytes proper_event_def)
qed

lemma prints_event_func:
  assumes "k_pad e = 0 \<longrightarrow> k_name e = []" "c_string (k_name e)"
  shows "prints (event_func \<lparr>ev_wd = k_wd e, ev_mask = k_mask e, ev_cookie = k_cookie e,
      ev_len = length (k_name e) + k_pad e,
      ev_name = lit (k_name e @ replicate (k_pad e) NUL @ post) @ rest\<rparr> :: ('m, unit) prog) (event_lines e)"
proof -
  have "prints (only_if (length (k_name e) + k_pad e \<noteq> 0)
      (bind (load_string (lit (k_name e @ replicate (k_pad e) NUL @ post) @ rest))
        (\<lambda>name. printf (''file name = %s'' @ [NL]) [T name])) :: ('m, unit) prog)
      (if k_pad e \<noteq> 0 then [Out (''file name = %s'' @ [NL]) [T (k_name e)]] else [])"
  proof (cases "k_pad e")
    case 0
    with assms show ?thesis by (simp add: only_if_def prints_skip)
  next
    case (Suc n)
    have "cstr (lit (k_name e @ replicate (k_pad e) NUL @ post) @ rest) = Some (k_name e)"
      using cstr_append_NUL [OF assms(2), of "lit (replicate n NUL @ post) @ rest"] Suc
      by (simp add: lit_def)
    with Suc show ?thesis
      by (simp add: only_if_def load_string_def prints_require prints_printf del: lit_simps)
  qed
  note file_name = this
  have lines: "event_lines e = [Out ''watch descriptor: %d, '' [N (k_wd e)]] @
      [Out (''mask = %d'' @ [NL]) [N (to_int32 (k_mask e))]] @
      [Out (''dir = %d'' @ [NL]) [N (to_int32 (k_mask e AND IN_ISDIR))]] @
      (if k_pad e \<noteq> 0 then [Out (''file name = %s'' @ [NL]) [T (k_name e)]] else []) @
      mask_lines (k_mask e)"
    by (simp add: event_lines_def)
  show ?thesis
    unfolding event_func_def lines inotify_event.simps
    by (intro prints_seq prints_printf prints_print_mask file_name)
qed

lemma events_loop_decodes:
  assumes "list_all proper_event evs"
  shows "prints (events_loop (event_func :: _ \<Rightarrow> ('m, unit) prog) (lit (pre @ concat (map pack_event evs)) @ rest)
     (length pre + length (concat (map pack_event evs))) (length pre)) (concat (map event_lines evs))"
  using assms
proof (induction evs arbitrary: pre)
  case Nil
  then show ?case by (simp add: events_loop.simps prints_skip)
next
  case (Cons e evs)
  let ?post = "concat (map pack_event evs)"
  let ?buf = "lit (pre @ pack_event e @ ?post) @ rest"
  have ev: "proper_event e" and evs: "list_all proper_event evs" using Cons.prems by simp_all
  have ih: "prints (events_loop (event_func :: _ \<Rightarrow> ('m, unit) prog) ?buf (length pre + (length (pack_event e) + length ?post))
      (length pre + (16 + (length (k_name e) + k_pad e)))) (concat (map event_lines evs))"
    using Cons.IH [OF evs, of "pre @ pack_event e"] by (simp add: length_pack_event add.assoc)
  let ?n = "length pre + length (concat (map pack_event (e # evs)))"
  have step: "events_loop (event_func :: _ \<Rightarrow> ('m, unit) prog) ?buf ?n (length pre) =
      bind (require (event_at ?buf (length pre)) ''unreadable event'') (\<lambda>event.
        seq (event_func event) (events_loop event_func ?buf ?n (length pre + (16 + ev_len event))))"
    by (subst events_loop.simps, rule if_P) (simp add: length_pack_event)
  have "prints (events_loop (event_func :: _ \<Rightarrow> ('m, unit) prog) ?buf ?n (length pre))
      (event_lines e @ concat (map event_lines evs))"
    unfolding step
    by (rule prints_require [OF event_at_pack [OF ev]], rule prints_seq, rule prints_event_func)
      (use ev ih in \<open>simp_all add: proper_event_def\<close>)
  then show ?case by simp
qed

lemma events_loop_decodes_all:
  "list_all proper_event evs \<Longrightarrow>
    prints (events_loop event_func (lit (concat (map pack_event evs)) @ rest)
      (length (concat (map pack_event evs))) 0) (concat (map event_lines evs))"
  using events_loop_decodes [of evs "[]" rest] by simp

text \<open>C11. When the kernel delivers the packed bytes of a list of events (any number that fits the
  buffer, with and without names), \<open>inotify_example\<close> prints each event once, in order, with its
  watch descriptor, mask, name and flags, and makes no other system call meanwhile.\<close>

theorem inotify_decodes_events:
  assumes "inotify_example argv s = (Ok u, s')" "trace s' = trace s @ es"
    and "replies s = r0 # r1 # r # rs" "rdata r = concat (map pack_event evs)"
    and "legal (Did (Read (ret r0) 8192) r)" "list_all proper_event evs" "ret r \<noteq> -1"
  shows "\<exists>r2 r3. es =
    [Did (Sys ''inotify_init1'' [N 0]) r0,
     Did (Sys ''inotify_add_watch'' [N (ret r0), T (argv ! 1), N IN_ALL_EVENTS]) r1,
     Did (Read (ret r0) 8192) r] @
    concat (map event_lines evs) @
    [Did (Sys ''inotify_rm_watch'' [N (ret r0), N (ret r1)]) r2, Did (Close (ret r0)) r3]"
proof -
  let ?bs = "concat (map pack_event evs)"
  have len: "ret r = int (length ?bs)" "length ?bs \<le> 8192" using assms(4,5,7) by auto
  have p: "poke (uninit 8192) 0 ?bs = Some (lit ?bs @ uninit (8192 - length ?bs))"
    using len(2) by (simp add: poke_def lit_def uninit_def)
  let ?s1 = "after (Read (ret r0) 8192) r rs (after (Sys ''inotify_add_watch''
      [N (ret r0), T (argv ! 1), N IN_ALL_EVENTS]) r1 (r # rs) (after (Sys ''inotify_init1'' [N 0]) r0 (r1 # r # rs) s))"
  from assms(1,3,7) obtain s2 r2 r3 rs' where
    ev: "events_loop event_func (lit ?bs @ uninit (8192 - length ?bs)) (length ?bs) 0 ?s1 = (Ok (), s2)"
    and s2: "s' = after (Close (ret r0)) r3 rs' (after (Sys ''inotify_rm_watch'' [N (ret r0), N (ret r1)]) r2 (r3 # rs') s2)"
    unfolding inotify_example_def read_into_def BUFSIZ_def
    by (auto simp: ok_simps assms(4) p len(1))
  from printsD [OF events_loop_decodes_all [OF assms(6)] ev]
  have "trace s2 = trace ?s1 @ concat (map event_lines evs)" by simp
  with s2 assms(2) show ?thesis by auto
qed

lemma inotify_example_runs:
  assumes "replies s = [r0, r1, r_got (concat (map pack_event evs)), r2, r3]" "ret r0 \<noteq> -1" "ret r1 \<noteq> -1" "ret r2 \<noteq> -1"
    "length (concat (map pack_event evs)) \<le> 8192" "list_all proper_event evs" "1 < length argv"
  shows "\<exists>s'. inotify_example argv s = (Ok (), s')"
proof -
  let ?bs = "concat (map pack_event evs)"
  have p: "poke (uninit 8192) 0 ?bs = Some (lit ?bs @ uninit (8192 - length ?bs))"
    using assms(5) by (simp add: poke_def lit_def uninit_def)
  have "wp (inotify_example argv) (\<lambda>out _. out = Ok ()) s"
    unfolding inotify_example_def BUFSIZ_def
    using assms(1-4,7)
    by (simp add: wp_rules wp_read_into r_got_def p cong: wp_cong)
      (unfold nat_int, rule prints_wp [OF events_loop_decodes_all [OF assms(6)]], simp add: wp_rules cong: wp_cong)
  then show ?thesis by (auto simp: wp_def split: prod.splits)
qed

definition two_events :: "kernel_event list" where
  "two_events = [\<lparr>k_wd = 1, k_mask = 256, k_cookie = 0, k_name = ''a.txt'', k_pad = 11\<rparr>,
     \<lparr>k_wd = 2, k_mask = 2, k_cookie = 0, k_name = [], k_pad = 0\<rparr>]"

definition inotify_script :: "reply list" where
  "inotify_script = [r_ok 3, r_ok 1, r_got (concat (map pack_event two_events)), r_ok 0, r_ok 0]"

theorem inotify_decodes_events_witness:
  "Out (''file name = %s'' @ [NL]) [T ''a.txt''] \<in>
     set (trace (snd (inotify_example [''prog'', ''dir''] (boot inotify_script))))"
proof -
  let ?run = "inotify_example [''prog'', ''dir''] (boot inotify_script)"
  have w: "list_all proper_event two_events" by code_simp
  have "length (concat (map pack_event two_events)) = 48" by code_simp
  then obtain s' where s': "?run = (Ok (), s')"
    using inotify_example_runs [of "boot inotify_script" "r_ok 3" "r_ok 1" two_events "r_ok 0" "r_ok 0"
        "[''prog'', ''dir'']"] w
    by (auto simp: boot_def inotify_script_def r_ok_def)
  have e: "trace (snd ?run) = trace (boot inotify_script) @ trace (snd ?run)" by (simp add: boot_def)
  have m: "?run = (Ok (), snd ?run)" using s' by simp
  have r: "replies (boot inotify_script) = r_ok 3 # r_ok 1 # r_got (concat (map pack_event two_events)) #
      drop 3 inotify_script"
    by (simp add: boot_def inotify_script_def)
  have d: "rdata (r_got (concat (map pack_event two_events))) = concat (map pack_event two_events)"
    by (simp add: r_got_def)
  have l: "legal (Did (Read (ret (r_ok 3)) 8192) (r_got (concat (map pack_event two_events))))"
    by (simp add: r_got_def two_events_def length_pack_event)
  have n: "ret (r_got (concat (map pack_event two_events))) \<noteq> -1" by (simp add: r_got_def)
  from inotify_decodes_events [OF m e r d l w n] obtain pre post where
    "trace (snd ?run) = pre @ concat (map event_lines two_events) @ post" by blast
  moreover have "Out (''file name = %s'' @ [NL]) [T ''a.txt''] \<in> set (concat (map event_lines two_events))"
    by code_simp
  ultimately show ?thesis by (metis UnCI set_append)
qed

subsection \<open>Permissions, searches, links\<close>

text \<open>C12. \<open>chn_access\<close> gives the file the mode it had with write permission taken from the owner and
  given to the others, and leaves every other bit alone.\<close>

theorem chn_access_mode:
  assumes "chn_access argv s = (Ok u, s')" "trace s' = trace s @ es" "replies s = st # rs" "ret st = 0"
  shows "\<exists>r (m :: mode_t). es = [Did (Sys ''stat'' [T (argv ! 1)]) st, Did (Sys ''chmod'' [T (argv ! 1), N (uint m)]) r] \<and>
    (\<forall>i < 32. bit m i = (if i = 1 then True else if i = 7 then False
       else bit (word_of_int (out_int st 2) :: mode_t) i))"
proof -
  have m: "bit (chn_mode w) i = (if i = 1 then True else if i = 7 then False else bit w i)" if "i < 32" for w i
  proof -
    have o: "bit (2 :: mode_t) i \<longleftrightarrow> i = 1" "bit (128 :: mode_t) i \<longleftrightarrow> i = 7"
      using that bit_exp_iff [where ?'a = "32 word", of 1 i] bit_exp_iff [where ?'a = "32 word", of 7 i]
      by auto
    show ?thesis
      using that unfolding chn_mode_def S_IWOTH_def S_IWUSR_def bit_and_iff bit_or_iff bit_not_iff o
      by auto
  qed
  from assms(1-4) have "es = [Did (Sys ''stat'' [T (argv ! 1)]) st,
      Did (Sys ''chmod'' [T (argv ! 1), N (uint (chn_mode (word_of_int (out_int st 2))))]) (hd rs)]"
    unfolding chn_access_def by (auto simp: ok_simps stat_of_def)
  with m show ?thesis
    by (intro exI [where x = "hd rs"], intro exI [where x = "chn_mode (word_of_int (out_int st 2))"]) simp
qed

definition status_664 :: reply where
  "status_664 = (r_ok 0)\<lparr>rints := [0, 0, 33204]\<rparr>"

theorem chn_access_mode_witness:
  "\<exists>m :: mode_t. Did (Sys ''chmod'' [T ''f'', N (uint m)]) (r_ok 0) \<in>
     set (trace (snd (chn_access [''prog'', ''f''] (boot [status_664, r_ok 0])))) \<and> bit m 1 \<and> \<not> bit m 7"
proof -
  let ?run = "chn_access [''prog'', ''f''] (boot [status_664, r_ok 0])"
  have f: "fst ?run = Ok ()" by code_simp
  have e: "trace (snd ?run) = trace (boot [status_664, r_ok 0]) @ trace (snd ?run)" by (simp add: boot_def)
  have m: "?run = (Ok (), snd ?run)" using f by (metis prod.collapse)
  have r: "replies (boot [status_664, r_ok 0]) = status_664 # [r_ok 0]" "ret status_664 = 0"
    by (simp_all add: boot_def status_664_def r_ok_def)
  have l: "last (trace (snd ?run)) = Did (Sys ''chmod'' [T ''f'', N 33078]) (r_ok 0)" by code_simp
  from chn_access_mode [OF m e r] obtain a m where
    t: "trace (snd ?run) = [Did (Sys ''stat'' [T ''f'']) status_664, Did (Sys ''chmod'' [T ''f'', N (uint m)]) a]"
    and b: "\<forall>i < 32. bit (m :: mode_t) i = (if i = 1 then True else if i = 7 then False
       else bit (word_of_int (out_int status_664 2) :: mode_t) i)" by auto
  from t l have "a = r_ok 0" by simp
  with t b show ?thesis by (intro exI [of _ m]) auto
qed

definition passed_over :: "int \<Rightarrow> string \<Rightarrow> event \<Rightarrow> bool" where
  "passed_over dir name e \<longleftrightarrow> (\<exists>r. e = Did (Sys ''readdir'' [N dir]) r \<and> ret r \<noteq> NULL \<and> out_str r 0 \<noteq> name)"

lemma tame_find_entry [tame_rules]: "tame (find_entry dir name)"
  unfolding find_entry_def by (intro tame_rules)

lemma traced_find_entry:
  "traced K (find_entry dir name) (\<lambda>out es. \<forall>v. out = Ok v \<longrightarrow> (\<exists>fs r. list_all (passed_over dir name) fs \<and>
     (v = (0, True) \<and> es = fs @ [Did (Sys ''readdir'' [N dir]) r] \<and> ret r = NULL \<or>
      v = (1, False) \<and> es = fs @ [Did (Sys ''readdir'' [N dir]) r, Out (''found: %s'' @ [NL]) [T name]] \<and>
        ret r \<noteq> NULL \<and> out_str r 0 = name)))"
  unfolding find_entry_def
proof (rule traced_loop [where I = "\<lambda>_ es. list_all (passed_over dir name) es"], goal_cases)
  case (1 u es)
  show ?case
    unfolding traced_def
  proof (intro allI impI, goal_cases)
    case run: (1 s out s' fs)
    show ?case
    proof (cases "replies s")
      case Nil
      with run show ?thesis by (auto simp: bind_def sys_def)
    next
      case (Cons r rs)
      with run 1 show ?thesis
        by (cases "ret r = NULL"; cases "out_str r 0 = name")
          (auto simp: bind_def sys_def seq_def leave_def again_def return_def printf_def emit_def logged_def passed_over_def)
    qed
  qed
qed (auto intro!: tame_rules progress_rules)

text \<open>C13. \<open>traversal_directory\<close> reports the name as found exactly when it is the name of an entry the
  directory stream delivered, and as not found exactly when the stream ended without it.\<close>

theorem traversal_reports:
  assumes "traversal_directory argv s = (Ok u, s')" "trace s' = trace s @ es"
  shows "(Out (''found: %s'' @ [NL]) [T (argv ! 1)] \<in> set es \<longleftrightarrow>
      (\<exists>d r. Did (Sys ''readdir'' [N d]) r \<in> set es \<and> ret r \<noteq> NULL \<and> out_str r 0 = argv ! 1)) \<and>
    (Out (''not found: %s'' @ [NL]) [T (argv ! 1)] \<in> set es \<longleftrightarrow>
      Out (''found: %s'' @ [NL]) [T (argv ! 1)] \<notin> set es)"
proof -
  let ?name = "argv ! 1"
  from assms(1) obtain d rs res null s2 c rs' where
    find: "find_entry (ret d) ?name ((after (Sys ''opendir'' [T ''.'']) d rs s)\<lparr>errno := 0\<rparr>) = (Ok (res, null), s2)"
    and s': "res = 0 \<and> s' = after (Sys ''closedir'' [N (ret d)]) c rs' (logged (Out (''not found: %s'' @ [NL]) [T ?name]) s2) \<or>
      res \<noteq> 0 \<and> s' = after (Sys ''closedir'' [N (ret d)]) c rs' s2"
    unfolding traversal_directory_def by (auto simp: ok_simps split: if_splits)
  obtain es1 where es1: "trace s2 = trace ((after (Sys ''opendir'' [T ''.'']) d rs s)\<lparr>errno := 0\<rparr>) @ es1"
    using tameD(1) [OF tame_find_entry find] by blast
  from tracedD [OF traced_find_entry find es1, of "\<lambda>_. True"] obtain fs r where
    fs: "list_all (passed_over (ret d) ?name) fs"
    and v: "res = 0 \<and> es1 = fs @ [Did (Sys ''readdir'' [N (ret d)]) r] \<and> ret r = NULL \<or>
      res = 1 \<and> es1 = fs @ [Did (Sys ''readdir'' [N (ret d)]) r, Out (''found: %s'' @ [NL]) [T ?name]] \<and>
        ret r \<noteq> NULL \<and> out_str r 0 = ?name"
    by (auto simp: list_all_iff)
  have q: "Out f as \<notin> set fs" "Did (Sys ''readdir'' [N x]) y \<in> set fs \<Longrightarrow> out_str y 0 \<noteq> ?name" for f as x y
    using fs by (auto simp: list_all_iff passed_over_def)
  have es: "es = [Did (Sys ''opendir'' [T ''.'']) d] @ es1 @
      (if res = 0 then [Out (''not found: %s'' @ [NL]) [T ?name]] else []) @ [Did (Sys ''closedir'' [N (ret d)]) c]"
    using assms(2) s' es1 by (cases "res = 0") simp_all
  have dec: "Did (Sys ''readdir'' [N (ret d)]) r \<in> set es"
    using v unfolding es by auto
  show ?thesis
  proof (cases "res = 0")
    case True
    with v q show ?thesis unfolding es by auto
  next
    case False
    with v have "Out (''found: %s'' @ [NL]) [T ?name] \<in> set es" "ret r \<noteq> NULL" "out_str r 0 = ?name"
      unfolding es by auto
    moreover have "Out (''not found: %s'' @ [NL]) [T ?name] \<notin> set es"
      using False v q unfolding es by auto
    ultimately show ?thesis using dec by blast
  qed
qed

theorem traversal_reports_witness:
  "Out (''found: %s'' @ [NL]) [T ''b''] \<in> set (trace (snd (traversal_directory [''prog'', ''b'']
     (boot [r_ok 5, (r_ok 1)\<lparr>rstrs := [''a'']\<rparr>, (r_ok 1)\<lparr>rstrs := [''b'']\<rparr>, r_ok 0]))))"
proof -
  let ?b = "boot [r_ok 5, (r_ok 1)\<lparr>rstrs := [''a'']\<rparr>, (r_ok 1)\<lparr>rstrs := [''b'']\<rparr>, r_ok 0]"
  let ?run = "traversal_directory [''prog'', ''b''] ?b"
  have f: "fst ?run = Ok ()" by code_simp
  have e: "trace (snd ?run) = trace ?b @ trace (snd ?run)" by (simp add: boot_def)
  have m: "?run = (Ok (), snd ?run)" using f by (metis prod.collapse)
  have "Out (''not found: %s'' @ [NL]) [T ''b''] \<notin> set (trace (snd ?run))" by code_simp
  with traversal_reports [OF m e] show ?thesis by simp
qed

text \<open>When \<open>directory_link\<close> gets as far as opening the directory, it does not return: \<open>basename\<close>
  answers a pointer into the copied path, and freeing it is undefined.\<close>

theorem directory_link_bad_free:
  assumes "directory_link s = (Ok u, s')"
  shows "\<exists>d. Did (Sys ''opendir'' [T ''dtest'']) d \<in> set (trace s') \<and> ret d = NULL"
proof -
  have off: "snd (c_basename ''/usr/include/glib-2.0/glib.h'') \<noteq> 0" by code_simp
  show ?thesis
    using assms unfolding directory_link_def by (auto simp: ok_simps off free_at_def)
qed

definition link_script :: "reply list" where
  "link_script = [r_ok 3, r_ok 0, r_ok 0, r_ok 0, r_ok 0, r_got ''test_new'', (r_ok 1)\<lparr>rstrs := [''/t'']\<rparr>,
     (r_ok 1)\<lparr>rstrs := [''/'']\<rparr>, r_ok 0, r_ok 0, r_ok 0]"

theorem directory_link_bad_free_witness:
  "\<exists>d s'. directory_link (boot link_script) = (Ok (), s') \<and>
     Did (Sys ''opendir'' [T ''dtest'']) d \<in> set (trace s') \<and> ret d = NULL"
proof -
  have "fst (directory_link (boot link_script)) = Ok ()"
    unfolding fst_eq_wp directory_link_def link_demo_def link_script_def
    by (simp add: wp_rules wp_errMsg boot_def r_ok_def r_got_def poke_def PATH_MAX_def out_str_def NULL_def cong: wp_cong)
  then obtain s' where r: "directory_link (boot link_script) = (Ok (), s')" by (metis prod.collapse)
  from directory_link_bad_free [OF this] r show ?thesis by blast
qed

end
