(* ===== verification/Threads.thy ===== *)
theory Threads
  imports ErrorFns
begin

text \<open>
  Threads that add to a shared variable under a lock: \<open>LinuxAPI2/pthread_sync.c\<close>,
  \<open>LinuxAPI2/ipc_posix_unnamed_sem.c\<close> and the first part of \<open>api3/pthread_lock.c\<close>. The statement
  \<open>gsum += i\<close> is two steps, a load and a store, and any thread may run between them; the steps of
  all threads interleave. What the code relies on is the interface of the lock (locale \<open>lock\<close>),
  which the mutex and the semaphore provide.
\<close>

subsection \<open>The interface of a lock\<close>

text \<open>\<open>holds l h\<close>: the lock value \<open>l\<close> is held by the thread \<open>h\<close>, or by nobody.\<close>

locale lock =
  fixes acquire :: "nat \<Rightarrow> 'l \<Rightarrow> 'l option"
    and release :: "nat \<Rightarrow> 'l \<Rightarrow> 'l"
    and holds :: "'l \<Rightarrow> nat option \<Rightarrow> bool"
  assumes acquire_free: "holds l None \<Longrightarrow> \<exists>l'. acquire t l = Some l' \<and> holds l' (Some t)"
    and acquire_held: "holds l (Some u) \<Longrightarrow> acquire t l = None"
    and release_held: "holds l (Some t) \<Longrightarrow> holds (release t l) None"

text \<open>\<open>pthread_mutex_lock\<close> and \<open>pthread_mutex_unlock\<close>: a mutex knows its owner.\<close>

definition mutex_lock :: "nat \<Rightarrow> nat option \<Rightarrow> nat option option" where
  "mutex_lock t m = (if m = None then Some (Some t) else None)"

definition mutex_unlock :: "nat \<Rightarrow> nat option \<Rightarrow> nat option" where
  "mutex_unlock t m = None"

text \<open>\<open>sem_wait\<close> and \<open>sem_post\<close>: a semaphore is a counter.\<close>

definition sem_wait :: "nat \<Rightarrow> nat \<Rightarrow> nat option" where
  "sem_wait t n = (if n > 0 then Some (n - 1) else None)"

definition sem_post :: "nat \<Rightarrow> nat \<Rightarrow> nat" where
  "sem_post t n = n + 1"

definition sem_holds :: "nat \<Rightarrow> nat option \<Rightarrow> bool" where
  "sem_holds n h \<longleftrightarrow> n = (case h of None \<Rightarrow> 1 | Some _ \<Rightarrow> 0)"

subsection \<open>The threads\<close>

text \<open>A thread runs critical sections, each a list of numbers to add. It is outside, or inside with
  numbers left to add, or inside having loaded a value of the variable.\<close>

datatype phase = Outside | Inside "int list" | Loaded int "int list"

record thread =
  todo :: "int list list"
  phase :: phase

record 'l adder =
  lck :: 'l
  gsum :: int
  threads :: "thread list"

definition put :: "nat \<Rightarrow> thread \<Rightarrow> 'l adder \<Rightarrow> 'l adder" where
  "put t th S = S\<lparr>threads := (threads S)[t := th]\<rparr>"

inductive adder_step :: "(nat \<Rightarrow> 'l \<Rightarrow> 'l option) \<Rightarrow> (nat \<Rightarrow> 'l \<Rightarrow> 'l) \<Rightarrow> 'l adder \<Rightarrow> 'l adder \<Rightarrow> bool"
  for acq :: "nat \<Rightarrow> 'l \<Rightarrow> 'l option" and rel :: "nat \<Rightarrow> 'l \<Rightarrow> 'l" where
  enter: "t < length (threads S) \<Longrightarrow> threads S ! t = \<lparr>todo = xs # rest, phase = Outside\<rparr> \<Longrightarrow>
      acq t (lck S) = Some l \<Longrightarrow>
      adder_step acq rel S (put t \<lparr>todo = rest, phase = Inside xs\<rparr> (S\<lparr>lck := l\<rparr>))"
| load: "t < length (threads S) \<Longrightarrow> threads S ! t = \<lparr>todo = rest, phase = Inside (x # xs)\<rparr> \<Longrightarrow>
      adder_step acq rel S (put t \<lparr>todo = rest, phase = Loaded (gsum S) (x # xs)\<rparr> S)"
| store: "t < length (threads S) \<Longrightarrow> threads S ! t = \<lparr>todo = rest, phase = Loaded v (x # xs)\<rparr> \<Longrightarrow>
      adder_step acq rel S (put t \<lparr>todo = rest, phase = Inside xs\<rparr> (S\<lparr>gsum := to_int32 (v + x)\<rparr>))"
| exit: "t < length (threads S) \<Longrightarrow> threads S ! t = \<lparr>todo = rest, phase = Inside []\<rparr> \<Longrightarrow>
      adder_step acq rel S (put t \<lparr>todo = rest, phase = Outside\<rparr> (S\<lparr>lck := rel t (lck S)\<rparr>))"

definition thread_done :: "thread \<Rightarrow> bool" where
  "thread_done th \<longleftrightarrow> th = \<lparr>todo = [], phase = Outside\<rparr>"

definition all_done :: "'l adder \<Rightarrow> bool" where
  "all_done S \<longleftrightarrow> list_all thread_done (threads S)"

definition start :: "'l \<Rightarrow> int list list list \<Rightarrow> 'l adder" where
  "start l work = \<lparr>lck = l, gsum = 0, threads = map (\<lambda>w. \<lparr>todo = w, phase = Outside\<rparr>) work\<rparr>"

subsection \<open>The invariant\<close>

fun phase_rest :: "phase \<Rightarrow> int list" where
  "phase_rest Outside = []"
| "phase_rest (Inside xs) = xs"
| "phase_rest (Loaded v xs) = xs"

definition pending :: "thread \<Rightarrow> int" where
  "pending th = sum_list (concat (todo th)) + sum_list (phase_rest (phase th))"

definition nonneg :: "thread \<Rightarrow> bool" where
  "nonneg th \<longleftrightarrow> (\<forall>x \<in> set (concat (todo th)) \<union> set (phase_rest (phase th)). 0 \<le> x)"

text \<open>The variable and what the threads still have to add make up the total; only the holder of the
  lock is inside, and a loaded value is the current one.\<close>

definition adder_inv :: "('l \<Rightarrow> nat option \<Rightarrow> bool) \<Rightarrow> int \<Rightarrow> 'l adder \<Rightarrow> bool" where
  "adder_inv holds tot S \<longleftrightarrow>
     0 \<le> gsum S \<and> gsum S + sum_list (map pending (threads S)) = tot \<and>
     list_all nonneg (threads S) \<and>
     (\<exists>h. holds (lck S) h \<and> (\<forall>t. h = Some t \<longleftrightarrow> t < length (threads S) \<and> phase (threads S ! t) \<noteq> Outside)) \<and>
     (\<forall>t < length (threads S). \<forall>v xs. phase (threads S ! t) = Loaded v xs \<longrightarrow> v = gsum S \<and> xs \<noteq> [])"

text \<open>Steps left: entering and leaving a section, loading and storing for each number.\<close>

definition sections_size :: "int list list \<Rightarrow> nat" where
  "sections_size w = sum_list (map (\<lambda>xs. 2 * length xs + 2) w)"

fun phase_size :: "phase \<Rightarrow> nat" where
  "phase_size Outside = 0"
| "phase_size (Inside xs) = 2 * length xs + 1"
| "phase_size (Loaded v xs) = 2 * length xs"

definition steps_left :: "'l adder \<Rightarrow> nat" where
  "steps_left S = sum_list (map (\<lambda>th. sections_size (todo th) + phase_size (phase th)) (threads S))"

lemma sum_list_update_int:
  "t < length xs \<Longrightarrow> sum_list (map (f :: 'a \<Rightarrow> int) (xs[t := x])) = sum_list (map f xs) + f x - f (xs ! t)"
  by (induction xs arbitrary: t) (auto split: nat.splits)

lemma sum_list_update_nat:
  "t < length xs \<Longrightarrow> f x < f (xs ! t) \<Longrightarrow> sum_list (map (f :: 'a \<Rightarrow> nat) (xs[t := x])) < sum_list (map f xs)"
  by (induction xs arbitrary: t) (auto split: nat.splits)

lemma pending_nonneg: "nonneg th \<Longrightarrow> 0 \<le> pending th"
  by (auto simp: nonneg_def pending_def intro!: add_nonneg_nonneg sum_list_nonneg)

lemma put_simps [simp]:
  "lck (put t th S) = lck S" "gsum (put t th S) = gsum S"
  "threads (put t th S) = (threads S)[t := th]"
  by (simp_all add: put_def)

lemma steps_left_decreases: "adder_step acq rel S S' \<Longrightarrow> steps_left S' < steps_left S"
  by (induction rule: adder_step.induct)
    (auto simp: steps_left_def sections_size_def intro!: sum_list_update_nat)

lemma others_pending_nonneg:
  "list_all nonneg ths \<Longrightarrow> t < length ths \<Longrightarrow> 0 \<le> sum_list (map pending ths) - pending (ths ! t)"
proof (induction ths arbitrary: t)
  case (Cons a ths)
  have "0 \<le> sum_list (map pending ths)"
    using Cons.prems(1) by (intro sum_list_nonneg) (auto simp: list_all_iff pending_nonneg)
  moreover have "0 \<le> pending a" using Cons.prems(1) by (simp add: pending_nonneg)
  ultimately show ?case using Cons by (cases t) (fastforce simp: algebra_simps)+
qed simp

lemma list_all_update: "list_all P xs \<Longrightarrow> P x \<Longrightarrow> list_all P (xs[i := x])"
  by (auto simp: list_all_iff dest: set_update_subset_insert [THEN subsetD])

text \<open>How one thread may change the state: what it adds to the variable it owes no longer, it becomes
  the holder or gives the lock up, and it changes the variable only when nobody else is inside.\<close>

lemma adder_inv_put:
  assumes inv: "0 \<le> gsum S" "gsum S + sum_list (map pending (threads S)) = tot" "list_all nonneg (threads S)"
    and h: "\<forall>u. h = Some u \<longleftrightarrow> u < length (threads S) \<and> phase (threads S ! u) \<noteq> Outside"
    and ld: "\<forall>u < length (threads S). \<forall>v xs. phase (threads S ! u) = Loaded v xs \<longrightarrow> v = gsum S \<and> xs \<noteq> []"
    and t: "t < length (threads S)"
    and new: "0 \<le> g'" "g' + pending th = gsum S + pending (threads S ! t)" "nonneg th"
    and h': "holds l' h'" "h' = Some t \<longleftrightarrow> phase th \<noteq> Outside" "\<forall>u. u \<noteq> t \<longrightarrow> (h' = Some u \<longleftrightarrow> h = Some u)"
    and ld': "\<forall>v xs. phase th = Loaded v xs \<longrightarrow> v = g' \<and> xs \<noteq> []"
    and g': "g' = gsum S \<or> h = Some t"
  shows "adder_inv holds tot (put t th (S\<lparr>lck := l', gsum := g'\<rparr>))"
proof -
  let ?ths = "(threads S)[t := th]"
  have "g' + sum_list (map pending ?ths) = tot"
    using sum_list_update_int [OF t, of pending th] new(2) inv(2) by simp
  moreover have "list_all nonneg ?ths" using inv(3) new(3) by (rule list_all_update)
  moreover have "h' = Some u \<longleftrightarrow> u < length ?ths \<and> phase (?ths ! u) \<noteq> Outside" for u
    using h h'(2,3) t by (cases "u = t") (auto simp: nth_list_update)
  moreover have "v = g' \<and> xs \<noteq> []" if "u < length ?ths" "phase (?ths ! u) = Loaded v xs" for u v xs
  proof (cases "u = t")
    case True
    with that t ld' show ?thesis by (auto simp: nth_list_update)
  next
    case False
    with that have p: "phase (threads S ! u) = Loaded v xs" "u < length (threads S)" by simp_all
    then have "h = Some u" using h by simp
    with False g' have "g' = gsum S" by simp
    with ld p show ?thesis by blast
  qed
  ultimately show ?thesis
    unfolding adder_inv_def using new(1) h'(1) by simp blast
qed

context lock
begin

lemma adder_inv_step:
  assumes "adder_step acquire release S S'" "adder_inv holds tot S" "tot \<le> INT_MAX"
  shows "adder_inv holds tot S'"
proof -
  note inv = assms(2) [unfolded adder_inv_def]
  from inv have g: "0 \<le> gsum S" "gsum S + sum_list (map pending (threads S)) = tot"
      "list_all nonneg (threads S)" by simp_all
  from inv obtain h where h: "holds (lck S) h"
    and ph: "\<forall>t. h = Some t \<longleftrightarrow> t < length (threads S) \<and> phase (threads S ! t) \<noteq> Outside"
    by (elim conjE exE)
  from inv have ld: "\<forall>t < length (threads S). \<forall>v xs. phase (threads S ! t) = Loaded v xs \<longrightarrow>
      v = gsum S \<and> xs \<noteq> []" by (elim conjE)
  have nn: "nonneg (threads S ! t)" if "t < length (threads S)" for t
    using g(3) that by (simp add: list_all_length)
  note put = adder_inv_put [where S = S and h = h and holds = holds, OF g ph ld]
  from assms(1) show ?thesis
  proof cases
    case (enter t xs rest l)
    have "h = None"
    proof (cases h)
      case (Some u)
      with h acquire_held enter(4) show ?thesis by (metis option.distinct(1))
    qed simp
    with acquire_free h enter(4) have "holds l (Some t)" by (metis option.inject)
    from put [OF enter(2) g(1) _ _ this, of "\<lparr>todo = rest, phase = Inside xs\<rparr>"] show ?thesis
      using enter(1,3) nn [OF enter(2)] \<open>h = None\<close> by (auto simp: pending_def nonneg_def)
  next
    case (load t rest x xs)
    have ht: "h = Some t" using ph load(2,3) by auto
    from put [OF load(2) g(1) _ _ h, of "\<lparr>todo = rest, phase = Loaded (gsum S) (x # xs)\<rparr>"] show ?thesis
      using load(1,3) nn [OF load(2)] ht by (auto simp: pending_def nonneg_def)
  next
    case (store t rest v x xs)
    have ht: "h = Some t" using ph store(2,3) by auto
    have v: "v = gsum S" using ld store(2,3) by auto
    have x: "0 \<le> x" using nn [OF store(2)] store(3) by (simp add: nonneg_def)
    have "0 \<le> sum_list (concat rest) + sum_list xs"
      using nn [OF store(2)] store(3) by (intro add_nonneg_nonneg sum_list_nonneg) (auto simp: nonneg_def)
    with others_pending_nonneg [OF g(3) store(2)] store(3) g(2) have "gsum S + x \<le> tot"
      by (simp add: pending_def)
    with x g(1) assms(3) v have w: "to_int32 (v + x) = gsum S + x"
      by (intro to_int32_id [THEN trans]) (auto simp: INT_MIN_def)
    from put [OF store(2) _ _ _ h, of "gsum S + x" "\<lparr>todo = rest, phase = Inside xs\<rparr>"] show ?thesis
      using store(1,3) nn [OF store(2)] ht x g(1) w by (auto simp: pending_def nonneg_def)
  next
    case (exit t rest)
    have ht: "h = Some t" using ph exit(2,3) by auto
    with h release_held have "holds (release t (lck S)) None" by blast
    from put [OF exit(2) g(1) _ _ this, of "\<lparr>todo = rest, phase = Outside\<rparr>"] show ?thesis
      using exit(1,3) nn [OF exit(2)] ht by (auto simp: pending_def nonneg_def)
  qed
qed

lemma adder_inv_start:
  assumes "holds l None" "\<forall>x \<in> set (concat (concat work)). 0 \<le> x"
  shows "adder_inv holds (sum_list (concat (concat work))) (start l work)"
proof -
  have "sum_list (map pending (threads (start l work))) = sum_list (concat (concat work))"
    by (induction work) (simp_all add: start_def pending_def)
  moreover have "list_all nonneg (threads (start l work))"
    using assms(2) by (auto simp: list_all_iff start_def nonneg_def)
  moreover have "phase (threads (start l work) ! t) = Outside" if "t < length (threads (start l work))" for t
    using that by (simp add: start_def)
  ultimately show ?thesis
    unfolding adder_inv_def using assms(1)
    by (auto simp: start_def intro!: exI [of _ None])
qed

lemma adder_inv_reachable:
  assumes "(adder_step acquire release)\<^sup>*\<^sup>* S S'" "adder_inv holds tot S" "tot \<le> INT_MAX"
  shows "adder_inv holds tot S'"
  using assms by (induction rule: rtranclp_induct) (auto intro: adder_inv_step)

lemma adder_result:
  assumes "adder_inv holds tot S" "all_done S"
  shows "gsum S = tot"
proof -
  have "list_all thread_done ths \<Longrightarrow> sum_list (map pending ths) = 0" for ths
    by (induction ths) (simp_all add: thread_done_def pending_def)
  with assms(2) have "sum_list (map pending (threads S)) = 0" by (simp add: all_done_def)
  with assms(1) show ?thesis by (simp add: adder_inv_def)
qed

text \<open>The holder of the lock can always go on; when nobody holds it, any thread that is not done can.\<close>

lemma adder_progress:
  assumes "adder_inv holds tot S" "\<not> all_done S"
  shows "\<exists>S'. adder_step acquire release S S'"
proof -
  from assms(1) [unfolded adder_inv_def] obtain h where h: "holds (lck S) h"
    and ph: "\<forall>t. h = Some t \<longleftrightarrow> t < length (threads S) \<and> phase (threads S ! t) \<noteq> Outside"
    by (elim conjE exE)
  from assms(1) [unfolded adder_inv_def] have ld: "\<forall>t < length (threads S). \<forall>v xs.
      phase (threads S ! t) = Loaded v xs \<longrightarrow> v = gsum S \<and> xs \<noteq> []" by (elim conjE)
  from assms(2) obtain t where t: "t < length (threads S)" "\<not> thread_done (threads S ! t)"
    by (auto simp: all_done_def list_all_length)
  show ?thesis
  proof (cases "\<exists>u < length (threads S). phase (threads S ! u) \<noteq> Outside")
    case True
    then obtain u where u: "u < length (threads S)" "phase (threads S ! u) \<noteq> Outside" by blast
    obtain w p where th: "threads S ! u = \<lparr>todo = w, phase = p\<rparr>" by (cases "threads S ! u") simp
    show ?thesis
    proof (cases p)
      case Outside
      with u th show ?thesis by simp
    next
      case (Inside xs)
      with u th show ?thesis
        by (cases xs) (auto intro: adder_step.load adder_step.exit)
    next
      case (Loaded v xs)
      with ld u th have "xs \<noteq> []" by auto
      with u th Loaded show ?thesis
        by (cases xs) (auto intro: adder_step.store)
    qed
  next
    case False
    then have out: "phase (threads S ! t) = Outside" using t by blast
    obtain w where th: "threads S ! t = \<lparr>todo = w, phase = Outside\<rparr>"
      using out by (cases "threads S ! t") simp
    with t(2) obtain xs rest where w: "w = xs # rest" by (cases w) (auto simp: thread_done_def)
    have "h = None" using ph False by (cases h) auto
    with h acquire_free obtain l where "acquire t (lck S) = Some l" by blast
    with t(1) th w show ?thesis by (blast intro: adder_step.enter)
  qed
qed

text \<open>Every run can be continued to one in which all threads are done.\<close>

lemma adder_finishes:
  assumes "adder_inv holds tot S" "tot \<le> INT_MAX"
  shows "\<exists>S'. (adder_step acquire release)\<^sup>*\<^sup>* S S' \<and> all_done S'"
  using assms(1)
proof (induction "steps_left S" arbitrary: S rule: less_induct)
  case less
  show ?case
  proof (cases "all_done S")
    case False
    with adder_progress less.prems obtain S1 where s: "adder_step acquire release S S1" by blast
    from less.hyps [OF steps_left_decreases [OF s] adder_inv_step [OF s less.prems assms(2)]]
    obtain S' where "(adder_step acquire release)\<^sup>*\<^sup>* S1 S'" "all_done S'" by blast
    with s show ?thesis by (meson converse_rtranclp_into_rtranclp)
  qed blast
qed

text \<open>What a client may rely on: mutual exclusion, no deadlock, and the sum.\<close>

lemma exclusion:
  assumes "adder_inv holds tot S" "t < length (threads S)" "u < length (threads S)"
    and "phase (threads S ! t) \<noteq> Outside" "phase (threads S ! u) \<noteq> Outside"
  shows "t = u"
proof -
  from assms(1) [unfolded adder_inv_def] obtain h where
    "\<forall>t. h = Some t \<longleftrightarrow> t < length (threads S) \<and> phase (threads S ! t) \<noteq> Outside" by (elim conjE exE)
  with assms(2-5) have "h = Some t" "h = Some u" by blast+
  then show ?thesis by simp
qed

lemma adder_sound:
  assumes l: "holds l None" and w: "\<forall>x \<in> set (concat (concat work)). 0 \<le> x"
    and m: "sum_list (concat (concat work)) \<le> INT_MAX"
    and r: "(adder_step acquire release)\<^sup>*\<^sup>* (start l work) S"
  shows "(all_done S \<longrightarrow> gsum S = sum_list (concat (concat work))) \<and>
    (\<not> all_done S \<longrightarrow> (\<exists>S'. adder_step acquire release S S')) \<and>
    (\<forall>t u. t < length (threads S) \<longrightarrow> u < length (threads S) \<longrightarrow> phase (threads S ! t) \<noteq> Outside \<longrightarrow>
       phase (threads S ! u) \<noteq> Outside \<longrightarrow> t = u)"
proof -
  from adder_inv_reachable [OF r adder_inv_start [OF l w] m]
  have inv: "adder_inv holds (sum_list (concat (concat work))) S" .
  from adder_result [OF inv] adder_progress [OF inv] exclusion [OF inv] show ?thesis by blast
qed

lemma adder_completes:
  assumes "holds l None" "\<forall>x \<in> set (concat (concat work)). 0 \<le> x" "sum_list (concat (concat work)) \<le> INT_MAX"
  shows "\<exists>S. (adder_step acquire release)\<^sup>*\<^sup>* (start l work) S \<and> all_done S"
  by (rule adder_finishes [OF adder_inv_start [OF assms(1,2)] assms(3)])

end

interpretation mutex: lock mutex_lock mutex_unlock "\<lambda>l h. l = h"
  by unfold_locales (simp_all add: mutex_lock_def mutex_unlock_def)

interpretation semaphore: lock sem_wait sem_post sem_holds
  by unfold_locales (simp_all add: sem_wait_def sem_post_def sem_holds_def)

text \<open>The error checking mutex answers an error number to the owner that locks again and to a thread
  that unlocks what it does not own.\<close>

definition EPERM_code :: int where "EPERM_code = 1"
definition EDEADLK_code :: int where "EDEADLK_code = 35"

definition ec_lock :: "nat \<Rightarrow> nat option \<Rightarrow> (int \<times> nat option) option" where
  "ec_lock t m = (if m = None then Some (0, Some t) else if m = Some t then Some (EDEADLK_code, m) else None)"

definition ec_unlock :: "nat \<Rightarrow> nat option \<Rightarrow> int \<times> nat option" where
  "ec_unlock t m = (if m = Some t then (0, None) else (EPERM_code, m))"

text \<open>The thread goes on only with the answer 0; any other answer is handed to \<open>errExitEN\<close>.\<close>

definition ec_acquire :: "nat \<Rightarrow> nat option \<Rightarrow> nat option option" where
  "ec_acquire t m = (case ec_lock t m of Some (s, m') \<Rightarrow> if s = 0 then Some m' else None | None \<Rightarrow> None)"

definition ec_release :: "nat \<Rightarrow> nat option \<Rightarrow> nat option" where
  "ec_release t m = snd (ec_unlock t m)"

interpretation error_checking: lock ec_acquire ec_release "\<lambda>l h. l = h"
  by unfold_locales (auto simp: ec_acquire_def ec_release_def ec_lock_def ec_unlock_def EDEADLK_code_def)

subsection \<open>The programs\<close>

text \<open>The bodies of the threads. \<open>pthread_sync.c\<close> and \<open>ipc_posix_unnamed_sem.c\<close>: one section per
  number of \<open>*start .. *start + 99\<close>. \<open>pthread_lock.c\<close>: one section for all of \<open>0 .. 9999\<close>.\<close>

definition thread_func :: "int \<Rightarrow> int list list" where
  "thread_func st = map (\<lambda>i. [i]) [st..st + 99]"

definition start_routine_lock :: "int list list" where
  "start_routine_lock = [[0..9999]]"

definition two_workers :: "int list list list" where
  "two_workers = [thread_func 0, thread_func 100]"

text \<open>The main functions; the value of the shared variable after both joins is their parameter.\<close>

definition create_or_die :: "string \<Rightarrow> int \<Rightarrow> ('m, int) prog" where
  "create_or_die f a =
     bind (sys (Sys ''pthread_create'' [T f, N a])) (\<lambda>r.
     seq (only_if (ret r \<noteq> 0) (errExitEN (ret r) ''pthread_create'' []))
     (return (out_int r 0)))"

definition pthread_sync :: "int \<Rightarrow> ('m, unit) prog" where
  "pthread_sync v =
     bind (create_or_die ''thread_func'' 0) (\<lambda>t1.
     bind (create_or_die ''thread_func'' 100) (\<lambda>t2.
     seq (sys (Sys ''pthread_join'' [N t1]))
     (seq (sys (Sys ''pthread_join'' [N t2]))
     (printf (''result = %d'' @ [NL]) [N v]))))"

definition pthread_sync_error_checking_mutex :: "int \<Rightarrow> ('m, unit) prog" where
  "pthread_sync_error_checking_mutex v =
     seq (sys (Sys ''pthread_mutexattr_init'' []))
     (seq (sys (Sys ''pthread_mutexattr_settype'' [N 2]))
     (seq (sys (Sys ''pthread_mutex_init'' []))
     (bind (create_or_die ''thread_func_error_checking_mutex'' 0) (\<lambda>t1.
     bind (create_or_die ''thread_func_error_checking_mutex'' 100) (\<lambda>t2.
     seq (sys (Sys ''pthread_join'' [N t1]))
     (seq (sys (Sys ''pthread_join'' [N t2]))
     (seq (sys (Sys ''pthread_mutexattr_destroy'' []))
     (seq (sys (Sys ''pthread_mutex_destroy'' []))
     (printf (''result = %d'' @ [NL]) [N v])))))))))"

text \<open>\<open>errExit (s, "sem_init")\<close> hands an uninitialised integer over as the format.\<close>

definition ipc_posix_unnamed_sem :: "int \<Rightarrow> ('m, unit) prog" where
  "ipc_posix_unnamed_sem v =
     bind (sys (Sys ''sem_init'' [N 0, N 1])) (\<lambda>r.
     seq (only_if (ret r = -1) (undef ''integer as a format''))
     (bind (create_or_die ''thread_func'' 0) (\<lambda>t1.
     bind (create_or_die ''thread_func'' 100) (\<lambda>t2.
     seq (sys (Sys ''pthread_join'' [N t1]))
     (seq (sys (Sys ''pthread_join'' [N t2]))
     (printf (''result = %d'' @ [NL]) [N v]))))))"

definition mutex_example :: "int \<Rightarrow> int \<Rightarrow> ('m, unit) prog" where
  "mutex_example v1 v2 =
     (let create = (\<lambda>a. bind (sys (Sys ''pthread_create'' [T ''start_routine_lock'', N a])) (\<lambda>r.
        seq (only_if (ret r \<noteq> 0) (errexit ''pthread_create'')) (return (out_int r 0)))) in
     bind (create 1) (\<lambda>t1. bind (create 2) (\<lambda>t2. bind (create 2) (\<lambda>t3.
     seq (sys (Sys ''pthread_join'' [N t1]))
     (seq (sys (Sys ''pthread_join'' [N t2]))
     (seq (sys (Sys ''pthread_join'' [N t3]))
     (seq (printf (''data1.value = %d'' @ [NL]) [N v1])
     (printf (''data2.value = %d'' @ [NL]) [N v2]))))))))"

subsection \<open>Properties\<close>

lemma adder_wf: "wfP (\<lambda>Z Y. adder_step acq rel Y Z)"
  by (rule wfp_if_convertible_to_nat [of _ steps_left]) (rule steps_left_decreases)

lemma two_workers_facts:
  "sum_list (concat (concat two_workers)) = 19900" "\<forall>x \<in> set (concat (concat two_workers)). 0 \<le> x"
  by code_simp+

lemma lock_workers_facts:
  "sum_list (concat (concat [start_routine_lock])) = 49995000"
  "sum_list (concat (concat [start_routine_lock, start_routine_lock])) = 99990000"
  "\<forall>x \<in> set (concat (concat [start_routine_lock])). 0 \<le> x"
  "\<forall>x \<in> set (concat (concat [start_routine_lock, start_routine_lock])). 0 \<le> x"
  using sum_list_upto [of 9999] by (simp_all add: start_routine_lock_def)

text \<open>C14. However the two threads of \<open>pthread_sync\<close>, of its error checking variant and of
  \<open>ipc_posix_unnamed_sem\<close> are interleaved, load by load and store by store, the variable is 19900
  when both are done; the threads of \<open>mutex_example\<close> leave 49995000 and 99990000. No addition
  overflows an \<open>int\<close>.\<close>

theorem threads_sum:
  "((adder_step mutex_lock mutex_unlock)\<^sup>*\<^sup>* (start None two_workers) S1 \<and> all_done S1 \<longrightarrow> gsum S1 = 19900) \<and>
   ((adder_step ec_acquire ec_release)\<^sup>*\<^sup>* (start None two_workers) S2 \<and> all_done S2 \<longrightarrow> gsum S2 = 19900) \<and>
   ((adder_step sem_wait sem_post)\<^sup>*\<^sup>* (start 1 two_workers) S3 \<and> all_done S3 \<longrightarrow> gsum S3 = 19900) \<and>
   ((adder_step mutex_lock mutex_unlock)\<^sup>*\<^sup>* (start None [start_routine_lock]) S4 \<and> all_done S4 \<longrightarrow>
      gsum S4 = 49995000) \<and>
   ((adder_step mutex_lock mutex_unlock)\<^sup>*\<^sup>* (start None [start_routine_lock, start_routine_lock]) S5 \<and> all_done S5 \<longrightarrow>
      gsum S5 = 99990000)"
  using mutex.adder_sound [of None two_workers S1] error_checking.adder_sound [of None two_workers S2]
    semaphore.adder_sound [of 1 two_workers S3] mutex.adder_sound [of None "[start_routine_lock]" S4]
    mutex.adder_sound [of None "[start_routine_lock, start_routine_lock]" S5]
    two_workers_facts lock_workers_facts
  by (simp add: INT_MAX_def sem_holds_def)

theorem threads_sum_witness:
  "\<exists>S. (adder_step mutex_lock mutex_unlock)\<^sup>*\<^sup>* (start None two_workers) S \<and> all_done S \<and> gsum S = 19900"
proof -
  obtain S where "(adder_step mutex_lock mutex_unlock)\<^sup>*\<^sup>* (start None two_workers) S" "all_done S"
    using mutex.adder_completes [of None two_workers] two_workers_facts by (auto simp: INT_MAX_def)
  with threads_sum [of S] show ?thesis by blast
qed

text \<open>C16. In every reachable state of the two-thread programs at most one thread is between lock and
  unlock, some thread can run unless both are done, the runs cannot go on for ever, and the calls
  of the error checking mutex never answer an error.\<close>

theorem threads_exclusive_and_live:
  assumes "(adder_step mutex_lock mutex_unlock)\<^sup>*\<^sup>* (start None two_workers) S"
    and "(adder_step sem_wait sem_post)\<^sup>*\<^sup>* (start 1 two_workers) S'"
    and "(adder_step ec_acquire ec_release)\<^sup>*\<^sup>* (start None two_workers) S''"
  shows "(\<forall>t u. t < length (threads S) \<longrightarrow> u < length (threads S) \<longrightarrow> phase (threads S ! t) \<noteq> Outside \<longrightarrow>
       phase (threads S ! u) \<noteq> Outside \<longrightarrow> t = u) \<and>
    (\<forall>t u. t < length (threads S') \<longrightarrow> u < length (threads S') \<longrightarrow> phase (threads S' ! t) \<noteq> Outside \<longrightarrow>
       phase (threads S' ! u) \<noteq> Outside \<longrightarrow> t = u) \<and>
    (all_done S \<or> (\<exists>Z. adder_step mutex_lock mutex_unlock S Z)) \<and>
    (all_done S' \<or> (\<exists>Z. adder_step sem_wait sem_post S' Z)) \<and>
    wfP (\<lambda>Z Y. adder_step mutex_lock mutex_unlock Y Z) \<and> wfP (\<lambda>Z Y. adder_step sem_wait sem_post Y Z) \<and>
    (\<forall>t < length (threads S''). (phase (threads S'' ! t) = Outside \<longrightarrow>
        (\<forall>c m. ec_lock t (lck S'') = Some (c, m) \<longrightarrow> c = 0)) \<and>
      (phase (threads S'' ! t) \<noteq> Outside \<longrightarrow> fst (ec_unlock t (lck S'')) = 0))"
proof -
  have m: "sum_list (concat (concat two_workers)) \<le> INT_MAX"
    by (simp add: two_workers_facts(1) INT_MAX_def)
  have sh: "sem_holds 1 None" by (simp add: sem_holds_def)
  note A = mutex.adder_sound [OF refl two_workers_facts(2) m assms(1)]
  note B = semaphore.adder_sound [OF sh two_workers_facts(2) m assms(2)]
  from error_checking.adder_inv_reachable [OF assms(3) error_checking.adder_inv_start [OF refl two_workers_facts(2)] m]
  have "\<forall>t. lck S'' = Some t \<longleftrightarrow> t < length (threads S'') \<and> phase (threads S'' ! t) \<noteq> Outside"
    by (simp add: adder_inv_def)
  then have C: "\<forall>t < length (threads S''). (phase (threads S'' ! t) = Outside \<longrightarrow>
        (\<forall>c m. ec_lock t (lck S'') = Some (c, m) \<longrightarrow> c = 0)) \<and>
      (phase (threads S'' ! t) \<noteq> Outside \<longrightarrow> fst (ec_unlock t (lck S'')) = 0)"
    by (auto simp: ec_lock_def ec_unlock_def)
  show ?thesis by (intro conjI adder_wf C) (use A B in blast)+
qed

theorem threads_exclusive_and_live_witness:
  "\<exists>Z. adder_step mutex_lock mutex_unlock (start None two_workers) Z"
proof -
  have "\<not> all_done (start None two_workers :: nat option adder)" by code_simp
  with threads_exclusive_and_live [OF rtranclp.rtrancl_refl rtranclp.rtrancl_refl rtranclp.rtrancl_refl]
  show ?thesis by blast
qed

end
