(* ===== verification/CondVar.thy ===== *)
theory CondVar
  imports Threads
begin

text \<open>
  Producers and a consumer that meet at a condition variable: \<open>LinuxAPI2/pthread_condition_variable.c\<close>
  and the second part of \<open>api3/pthread_lock.c\<close>; the waiting loop of \<open>LinuxAPI/timer_advanced_thread.c\<close>.
  The threads are step relations over the mutex, the counter and the program counters.
\<close>

subsection \<open>The protocol\<close>

datatype owner = Nobody | Consumer | Producer nat

text \<open>The consumer: before its first lock; holding the mutex and testing the counter; inside
  \<open>pthread_cond_wait\<close>, waiting or woken and about to take the mutex again; taking jobs.\<close>

datatype con_pc = C_lock | C_test | C_wait | C_relock | C_use

text \<open>A producer: sleeping or about to lock; holding the mutex before and after \<open>job++\<close>; about to
  signal, with the mutex released.\<close>

datatype prod_pc = P_lock | P_inc | P_unlock | P_signal

record producer =
  rounds :: nat
  ppc :: prod_pc

record cv =
  owner :: owner
  job :: int
  con :: con_pc
  prods :: "producer list"
  made :: nat
  used :: nat

definition set_prod :: "nat \<Rightarrow> producer \<Rightarrow> cv \<Rightarrow> cv" where
  "set_prod t p S = S\<lparr>prods := (prods S)[t := p]\<rparr>"

text \<open>\<open>pthread_cond_signal\<close> wakes the consumer when it waits, and is lost otherwise.\<close>

definition signal :: "cv \<Rightarrow> cv" where
  "signal S = (if con S = C_wait then S\<lparr>con := C_relock\<rparr> else S)"

inductive cv_step :: "cv \<Rightarrow> cv \<Rightarrow> bool" where
  p_lock: "t < length (prods S) \<Longrightarrow> prods S ! t = \<lparr>rounds = Suc n, ppc = P_lock\<rparr> \<Longrightarrow> owner S = Nobody \<Longrightarrow>
    cv_step S (set_prod t \<lparr>rounds = Suc n, ppc = P_inc\<rparr> (S\<lparr>owner := Producer t\<rparr>))"
| p_inc: "t < length (prods S) \<Longrightarrow> prods S ! t = \<lparr>rounds = n, ppc = P_inc\<rparr> \<Longrightarrow>
    cv_step S (set_prod t \<lparr>rounds = n, ppc = P_unlock\<rparr> (S\<lparr>job := job S + 1, made := made S + 1\<rparr>))"
| p_unlock: "t < length (prods S) \<Longrightarrow> prods S ! t = \<lparr>rounds = n, ppc = P_unlock\<rparr> \<Longrightarrow>
    cv_step S (set_prod t \<lparr>rounds = n, ppc = P_signal\<rparr> (S\<lparr>owner := Nobody\<rparr>))"
| p_signal: "t < length (prods S) \<Longrightarrow> prods S ! t = \<lparr>rounds = n, ppc = P_signal\<rparr> \<Longrightarrow>
    cv_step S (set_prod t \<lparr>rounds = n - 1, ppc = P_lock\<rparr> (signal S))"
| c_lock: "con S = C_lock \<or> con S = C_relock \<Longrightarrow> owner S = Nobody \<Longrightarrow>
    cv_step S (S\<lparr>owner := Consumer, con := C_test\<rparr>)"
| c_wait: "con S = C_test \<Longrightarrow> job S = 0 \<Longrightarrow> cv_step S (S\<lparr>owner := Nobody, con := C_wait\<rparr>)"
| c_go: "con S = C_test \<Longrightarrow> job S \<noteq> 0 \<Longrightarrow> cv_step S (S\<lparr>con := C_use\<rparr>)"
| c_take: "con S = C_use \<Longrightarrow> job S > 0 \<Longrightarrow> cv_step S (S\<lparr>job := job S - 1, used := used S + 1\<rparr>)"
| c_again: "con S = C_use \<Longrightarrow> \<not> job S > 0 \<Longrightarrow> cv_step S (S\<lparr>con := C_test\<rparr>)"

text \<open>A wait may also end without a signal.\<close>

inductive cv_spurious :: "cv \<Rightarrow> cv \<Rightarrow> bool" where
  "con S = C_wait \<Longrightarrow> cv_spurious S (S\<lparr>con := C_relock\<rparr>)"

definition cv_run :: "cv \<Rightarrow> cv \<Rightarrow> bool" where
  "cv_run = (\<lambda>S S'. cv_step S S' \<or> cv_spurious S S')\<^sup>*\<^sup>*"

definition cv_start :: "nat list \<Rightarrow> cv" where
  "cv_start ns = \<lparr>owner = Nobody, job = 0, con = C_lock,
     prods = map (\<lambda>n. \<lparr>rounds = n, ppc = P_lock\<rparr>) ns, made = 0, used = 0\<rparr>"

text \<open>The two producers of \<open>pthread_cond_var\<close> and of \<open>mutex_cond_example\<close>.\<close>

definition pthread_cond_var_start :: cv where "pthread_cond_var_start = cv_start [1000, 1000]"
definition mutex_cond_example_start :: cv where "mutex_cond_example_start = cv_start [10, 10]"

inductive_cases cv_spurious_elim: "cv_spurious S S'"

subsection \<open>No wake-up is lost\<close>

definition to_make :: "producer \<Rightarrow> nat" where
  "to_make p = (if ppc p = P_lock \<or> ppc p = P_inc then rounds p else rounds p - 1)"

definition announced :: "producer list \<Rightarrow> bool" where
  "announced ps \<longleftrightarrow> (\<exists>t < length ps. ppc (ps ! t) = P_unlock \<or> ppc (ps ! t) = P_signal)"

definition cv_inv :: "nat \<Rightarrow> cv \<Rightarrow> bool" where
  "cv_inv n S \<longleftrightarrow>
     (owner S = Consumer \<longleftrightarrow> con S = C_test \<or> con S = C_use) \<and>
     (\<forall>t. owner S = Producer t \<longleftrightarrow> t < length (prods S) \<and>
        (ppc (prods S ! t) = P_inc \<or> ppc (prods S ! t) = P_unlock)) \<and>
     (\<forall>t < length (prods S). ppc (prods S ! t) \<noteq> P_lock \<longrightarrow> 0 < rounds (prods S ! t)) \<and>
     0 \<le> job S \<and> int (made S) = job S + int (used S) \<and>
     made S + sum_list (map to_make (prods S)) = n \<and>
     (con S = C_wait \<longrightarrow> job S > 0 \<longrightarrow> announced (prods S))"

lemma sum_list_put_nat:
  "t < length xs \<Longrightarrow> sum_list (map (f :: 'a \<Rightarrow> nat) (xs[t := x])) + f (xs ! t) = sum_list (map f xs) + f x"
  by (induction xs arbitrary: t) (auto split: nat.splits)

lemma set_prod_simps [simp]:
  "owner (set_prod t p S) = owner S" "job (set_prod t p S) = job S" "con (set_prod t p S) = con S"
  "made (set_prod t p S) = made S" "used (set_prod t p S) = used S"
  "prods (set_prod t p S) = (prods S)[t := p]"
  by (simp_all add: set_prod_def)

lemma signal_simps [simp]:
  "owner (signal S) = owner S" "job (signal S) = job S" "made (signal S) = made S"
  "used (signal S) = used S" "prods (signal S) = prods S"
  "con (signal S) = (if con S = C_wait then C_relock else con S)"
  by (simp_all add: signal_def)

lemma announced_new: "t < length ps \<Longrightarrow> ppc p = P_unlock \<or> ppc p = P_signal \<Longrightarrow> announced (ps[t := p])"
  by (auto simp: announced_def intro!: exI [of _ t])

lemma announced_kept:
  assumes "announced ps" "t < length ps" "ppc (ps ! t) = P_lock \<or> ppc (ps ! t) = P_inc"
  shows "announced (ps[t := p])"
proof -
  from assms(1) obtain u where u: "u < length ps" "ppc (ps ! u) = P_unlock \<or> ppc (ps ! u) = P_signal"
    unfolding announced_def by blast
  with assms(3) have "u \<noteq> t" by auto
  with u show ?thesis unfolding announced_def by (intro exI [of _ u]) simp
qed

lemma holder_iff:
  assumes "cv_inv n S" "t < length (prods S)"
  shows "owner S = Producer t \<longleftrightarrow> ppc (prods S ! t) = P_inc \<or> ppc (prods S ! t) = P_unlock"
  using assms unfolding cv_inv_def by blast

lemma holder_bound: "cv_inv n S \<Longrightarrow> owner S = Producer t \<Longrightarrow> t < length (prods S)"
  unfolding cv_inv_def by blast

lemma rounds_left: "cv_inv n S \<Longrightarrow> t < length (prods S) \<Longrightarrow> ppc (prods S ! t) \<noteq> P_lock \<Longrightarrow> 0 < rounds (prods S ! t)"
  unfolding cv_inv_def by blast

lemma cv_invI:
  assumes "owner S = Consumer \<longleftrightarrow> con S = C_test \<or> con S = C_use"
    and "\<And>t. t < length (prods S) \<Longrightarrow>
      owner S = Producer t \<longleftrightarrow> ppc (prods S ! t) = P_inc \<or> ppc (prods S ! t) = P_unlock"
    and "\<And>t. owner S = Producer t \<Longrightarrow> t < length (prods S)"
    and "\<And>t. t < length (prods S) \<Longrightarrow> ppc (prods S ! t) \<noteq> P_lock \<Longrightarrow> 0 < rounds (prods S ! t)"
    and "0 \<le> job S" "int (made S) = job S + int (used S)"
    and "made S + sum_list (map to_make (prods S)) = n"
    and "con S = C_wait \<Longrightarrow> job S > 0 \<Longrightarrow> announced (prods S)"
  shows "cv_inv n S"
  using assms unfolding cv_inv_def by blast

lemma cv_inv_facts:
  assumes "cv_inv n S"
  shows "owner S = Consumer \<longleftrightarrow> con S = C_test \<or> con S = C_use" "0 \<le> job S"
    "int (made S) = job S + int (used S)" "made S + sum_list (map to_make (prods S)) = n"
    "con S = C_wait \<Longrightarrow> job S > 0 \<Longrightarrow> announced (prods S)"
  using assms unfolding cv_inv_def by blast+

lemma cv_inv_step: "cv_step S S' \<Longrightarrow> cv_inv n S \<Longrightarrow> cv_inv n S'"
proof (induction rule: cv_step.induct)
  case (p_lock t S m)
  note f = cv_inv_facts [OF p_lock(4)] and h = holder_iff [OF p_lock(4)]
  show ?case
    using p_lock(1-3) f h rounds_left [OF p_lock(4)]
      sum_list_put_nat [OF p_lock(1), of to_make "\<lparr>rounds = Suc m, ppc = P_inc\<rparr>"]
    by (intro cv_invI) (auto simp: nth_list_update to_make_def intro: announced_kept)
next
  case (p_inc t S m)
  note f = cv_inv_facts [OF p_inc(3)] and h = holder_iff [OF p_inc(3)]
  have o: "owner S = Producer t" "0 < m" using h [OF p_inc(1)] rounds_left [OF p_inc(3,1)] p_inc(2) by simp_all
  have "ppc (prods S ! u) \<noteq> P_inc \<and> ppc (prods S ! u) \<noteq> P_unlock" if "u < length (prods S)" "u \<noteq> t" for u
    using h [OF that(1)] o that(2) by auto
  then show ?case
    using p_inc(1-2) f o rounds_left [OF p_inc(3)]
      sum_list_put_nat [OF p_inc(1), of to_make "\<lparr>rounds = m, ppc = P_unlock\<rparr>"]
    by (intro cv_invI) (auto simp: nth_list_update to_make_def intro: announced_new)
next
  case (p_unlock t S m)
  note f = cv_inv_facts [OF p_unlock(3)] and h = holder_iff [OF p_unlock(3)]
  have o: "owner S = Producer t" "0 < m" using h [OF p_unlock(1)] rounds_left [OF p_unlock(3,1)] p_unlock(2) by simp_all
  have "ppc (prods S ! u) \<noteq> P_inc \<and> ppc (prods S ! u) \<noteq> P_unlock" if "u < length (prods S)" "u \<noteq> t" for u
    using h [OF that(1)] o that(2) by auto
  then show ?case
    using p_unlock(1-2) f o rounds_left [OF p_unlock(3)]
      sum_list_put_nat [OF p_unlock(1), of to_make "\<lparr>rounds = m, ppc = P_signal\<rparr>"]
    by (intro cv_invI) (auto simp: nth_list_update to_make_def intro: announced_new)
next
  case (p_signal t S m)
  note f = cv_inv_facts [OF p_signal(3)] and h = holder_iff [OF p_signal(3)]
  show ?case
    using p_signal(1-2) f h rounds_left [OF p_signal(3)] holder_bound [OF p_signal(3)]
      sum_list_put_nat [OF p_signal(1), of to_make "\<lparr>rounds = m - 1, ppc = P_lock\<rparr>"]
    by (intro cv_invI) (auto simp: nth_list_update to_make_def split: if_splits)
qed (auto simp: cv_inv_def)

lemma cv_inv_spurious: "cv_spurious S S' \<Longrightarrow> cv_inv n S \<Longrightarrow> cv_inv n S'"
  by (erule cv_spurious_elim) (auto simp: cv_inv_def)

lemma cv_inv_start: "cv_inv (sum_list ns) (cv_start ns)"
proof -
  have "sum_list (map to_make (map (\<lambda>n. \<lparr>rounds = n, ppc = P_lock\<rparr>) ns)) = sum_list ns"
    by (induction ns) (simp_all add: to_make_def)
  then show ?thesis by (auto simp: cv_inv_def cv_start_def)
qed

lemma cv_inv_run: "cv_run S S' \<Longrightarrow> cv_inv n S \<Longrightarrow> cv_inv n S'"
  unfolding cv_run_def
  by (induction rule: rtranclp_induct) (auto dest: cv_inv_step cv_inv_spurious)

text \<open>A state without a step: all producers are done and the consumer waits for nothing.\<close>

lemma cv_stuck:
  assumes inv: "cv_inv n S" and stuck: "\<And>S'. \<not> cv_step S S'"
  shows "job S = 0 \<and> used S = n \<and> con S = C_wait \<and> list_all (\<lambda>p. rounds p = 0) (prods S)"
proof -
  have p: "rounds (prods S ! t) = 0 \<and> ppc (prods S ! t) = P_lock \<or> ppc (prods S ! t) = P_lock \<and> owner S \<noteq> Nobody"
    if t: "t < length (prods S)" for t
  proof -
    obtain k pc where k: "prods S ! t = \<lparr>rounds = k, ppc = pc\<rparr>" by (cases "prods S ! t") simp
    show ?thesis
    proof (cases pc)
      case P_lock
      with stuck cv_step.p_lock [OF t] k show ?thesis by (cases k) auto
    next
      case P_inc
      with stuck cv_step.p_inc [OF t] k show ?thesis by auto
    next
      case P_unlock
      with stuck cv_step.p_unlock [OF t] k show ?thesis by auto
    next
      case P_signal
      with stuck cv_step.p_signal [OF t] k show ?thesis by auto
    qed
  qed
  have c: "con S \<noteq> C_test" "con S \<noteq> C_use"
    using stuck cv_step.c_wait cv_step.c_go cv_step.c_take cv_step.c_again by blast+
  have "owner S = Nobody"
  proof (cases "owner S")
    case Consumer
    with inv c show ?thesis by (simp add: cv_inv_def)
  next
    case (Producer t)
    with inv have "t < length (prods S)" "ppc (prods S ! t) = P_inc \<or> ppc (prods S ! t) = P_unlock"
      unfolding cv_inv_def by blast+
    with p show ?thesis by fastforce
  qed simp
  with stuck c cv_step.c_lock have w: "con S = C_wait" by (cases "con S") auto
  have all: "rounds (prods S ! t) = 0 \<and> ppc (prods S ! t) = P_lock" if "t < length (prods S)" for t
    using p [OF that] \<open>owner S = Nobody\<close> by blast
  then have "\<not> announced (prods S)" by (auto simp: announced_def)
  with inv w have j: "job S = 0" "int (made S) = int (used S)"
    unfolding cv_inv_def by auto
  have "sum_list (map to_make (prods S)) = 0"
    using all by (auto simp: to_make_def sum_list_eq_0_iff in_set_conv_nth)
  with inv j have "used S = n" by (simp add: cv_inv_def)
  with j w all show ?thesis by (simp add: list_all_length)
qed

text \<open>The steps a state can still make.\<close>

fun con_weight :: "cv \<Rightarrow> nat" where
  "con_weight S = (case con S of C_lock \<Rightarrow> 4 | C_relock \<Rightarrow> 4 | C_wait \<Rightarrow> 0 | C_use \<Rightarrow> 2
     | C_test \<Rightarrow> (if job S \<noteq> 0 then 3 else 1))"

definition prod_weight :: "producer \<Rightarrow> nat" where
  "prod_weight p = 10 * (4 * rounds p - (case ppc p of P_lock \<Rightarrow> 0 | P_inc \<Rightarrow> 1 | P_unlock \<Rightarrow> 2 | P_signal \<Rightarrow> 3))"

definition cv_weight :: "cv \<Rightarrow> nat" where
  "cv_weight S = sum_list (map prod_weight (prods S)) + 3 * nat (job S) + con_weight S"

lemma cv_weight_decreases:
  assumes "cv_step S S'" "cv_inv n S"
  shows "cv_weight S' < cv_weight S"
  using assms
proof (induction rule: cv_step.induct)
  case (p_lock t S m)
  then show ?case
    using sum_list_put_nat [OF p_lock(1), of prod_weight "\<lparr>rounds = Suc m, ppc = P_inc\<rparr>"]
    by (simp add: cv_weight_def prod_weight_def)
next
  case (p_inc t S m)
  then have "0 \<le> job S" and "\<exists>k. m = Suc k"
    using rounds_left [OF p_inc(3,1)] by (auto simp: cv_inv_def gr0_conv_Suc)
  with p_inc(1,2) show ?case
    using sum_list_put_nat [OF p_inc(1), of prod_weight "\<lparr>rounds = m, ppc = P_unlock\<rparr>"]
    by (auto simp: cv_weight_def prod_weight_def nat_add_distrib split: con_pc.splits)
next
  case (p_unlock t S m)
  then obtain k where "m = Suc k"
    using rounds_left [OF p_unlock(3,1)] by (auto simp: gr0_conv_Suc)
  with p_unlock(1,2) show ?case
    using sum_list_put_nat [OF p_unlock(1), of prod_weight "\<lparr>rounds = m, ppc = P_signal\<rparr>"]
    by (simp add: cv_weight_def prod_weight_def)
next
  case (p_signal t S m)
  then obtain k where "m = Suc k"
    using rounds_left [OF p_signal(3,1)] by (auto simp: gr0_conv_Suc)
  with p_signal(1,2) show ?case
    using sum_list_put_nat [OF p_signal(1), of prod_weight "\<lparr>rounds = m - 1, ppc = P_lock\<rparr>"]
    by (auto simp: cv_weight_def prod_weight_def split: con_pc.splits)
qed (auto simp: cv_weight_def cv_inv_def split: con_pc.splits)

subsection \<open>Waiting without the mutex: \<open>LinuxAPI/timer_advanced_thread.c\<close>\<close>

text \<open>The function that runs in a new thread at each expiry; \<open>expire_cnt\<close> is shared.\<close>

definition thread_func :: "int \<Rightarrow> ('m, unit) prog" where
  "thread_func tid =
     seq (printf (''tid: %ld'' @ [NL]) [N tid])
     (seq (sys (Sys ''pthread_mutex_lock'' [T ''mtx'']))
     (seq (sys (Sys ''++'' [T ''expire_cnt'']))
     (seq (sys (Sys ''pthread_mutex_unlock'' [T ''mtx'']))
     (seq (sys (Sys ''pthread_cond_signal'' [T ''con''])) skip))))"

definition CLOCK_REALTIME :: int where "CLOCK_REALTIME = 0"
definition SIGEV_THREAD :: int where "SIGEV_THREAD = 2"

text \<open>The variable \<open>held\<close> says whether the thread owns \<open>mtx\<close>; POSIX requires it of a thread that
  waits. A load of \<open>expire_cnt\<close> is answered by the other threads.\<close>

definition cond_wait :: "bool \<Rightarrow> ('m, unit) prog" where
  "cond_wait held =
     (if held then seq (sys (Sys ''pthread_cond_wait'' [T ''con'', T ''mtx''])) skip
      else undef ''pthread_cond_wait without the mutex'')"

definition wait_loop :: "('m, unit) prog" where
  "wait_loop =
     loop (\<lambda>held.
       seq (cond_wait held)
       (bind (sys (Sys ''load'' [T ''expire_cnt''])) (\<lambda>r.
       seq (printf (''Expire count: %d'' @ [NL]) [N (ret r)])
       (seq (sys (Sys ''pthread_mutex_unlock'' [T ''mtx'']))
       (again False))))) True"

definition timer_advanced_thread :: "('m, unit) prog" where
  "timer_advanced_thread =
     bind (fold_each [0, 1] (\<lambda>i tid.
         bind (or_errExit (Sys ''timer_create'' [N CLOCK_REALTIME, N SIGEV_THREAD, T ''thread_func'', N i])
                 ''timer_create()'' []) (\<lambda>r.
         seq (printf (''TImer Id: %ld'' @ [NL]) [N (out_int r 0)])
         (return (tid @ [out_int r 0])))) []) (\<lambda>tid.
     seq (or_errExit (Sys ''timer_settime'' [N (tid ! 0), N 0, N 2, N 0, N 3, N 0])
            ''timer_settime(): %ld'' [N (tid ! 0)])
     (seq (or_errExit (Sys ''timer_settime'' [N (tid ! 1), N 0, N 3, N 0, N 5, N 0])
            ''timer_settime(): %ld'' [N (tid ! 1)])
     (seq (sys (Sys ''pthread_mutex_lock'' [T ''mtx'']))
     wait_loop)))"

lemma wp_wait_loop:
  "wp wait_loop (\<lambda>out s'. out = (if length (replies s) < 3 then Stop Blocked
     else Stop (Undefined ''pthread_cond_wait without the mutex''))) s"
  unfolding wait_loop_def wp_def
  by (subst loop.simps, cases "replies s"; cases "tl (replies s)"; cases "tl (tl (replies s))")
    (simp_all add: loop.simps cond_wait_def seq_def bind_def sys_def skip_def return_def printf_def emit_def
      again_def undef_def stop_def logged_def)

text \<open>C17. Producers and a consumer that meet at a condition variable, in any interleaving and with
  spurious wake-ups: the counter is the number of jobs made and not yet consumed and never negative,
  and no wake-up is lost. A state from which no thread can go on is one in which all jobs of all
  producers have been consumed and the consumer waits; in every other state some thread can make a
  step, and only finitely many steps remain between two spurious wake-ups.\<close>

theorem no_lost_wakeup:
  assumes "cv_run (cv_start ns) S"
  shows "0 \<le> job S \<and> int (made S) = job S + int (used S) \<and> made S \<le> sum_list ns \<and>
    (\<forall>S'. cv_step S S' \<longrightarrow> cv_weight S' < cv_weight S) \<and>
    ((\<exists>S'. cv_step S S') \<or>
     con S = C_wait \<and> job S = 0 \<and> used S = sum_list ns \<and> list_all (\<lambda>p. rounds p = 0) (prods S))"
proof -
  note inv = cv_inv_run [OF assms cv_inv_start]
  from inv have "0 \<le> job S \<and> int (made S) = job S + int (used S) \<and> made S \<le> sum_list ns"
    by (auto simp: cv_inv_def)
  with cv_stuck [OF inv] cv_weight_decreases [OF _ inv] show ?thesis by blast
qed

theorem no_lost_wakeup_witness:
  "\<exists>S'. cv_step (cv_start [2, 1]) S' \<and> cv_weight S' < cv_weight (cv_start [2, 1])"
  using no_lost_wakeup [of "[2, 1]" "cv_start [2, 1]"]
  by (auto simp: cv_run_def cv_start_def)

text \<open>The thread that waits for timer expiries gives the mutex back at the end of each round and
  waits again without it: whatever the system answers, \<open>timer_advanced_thread\<close> never returns, and once
  its calls were answered up to the end of the first round, the second wait is undefined.\<close>

theorem timer_waits_unowned:
  assumes "length (replies s) \<ge> 8" "\<forall>r \<in> set (take 4 (replies s)). ret r \<noteq> -1"
  shows "fst (timer_advanced_thread s) = Stop (Undefined ''pthread_cond_wait without the mutex'')"
proof -
  obtain a b c d e rs where r: "replies s = a # b # c # d # e # rs" "length rs \<ge> 3"
    using assms(1) by (auto simp: Suc_le_length_iff numeral_eq_Suc)
  show ?thesis
    unfolding fst_eq_wp timer_advanced_thread_def
    using assms(2) r by (simp add: wp_rules cong: wp_cong) (auto intro: wp_mono [OF wp_wait_loop])
qed

theorem timer_waits_unowned_witness:
  "fst (timer_advanced_thread (boot (replicate 8 (r_ok 0)))) =
     Stop (Undefined ''pthread_cond_wait without the mutex'')"
  by (rule timer_waits_unowned) (simp_all add: boot_def r_ok_def)

end
