(* ===== verification/Pipes.thy ===== *)
theory Pipes
  imports FdIO
begin

text \<open>
  Pipes, FIFOs and connected pairs of sockets: \<open>LinuxAPI2/ipc_pipe.c\<close>, \<open>LinuxAPI2/ipc_fifo_server.c\<close>,
  \<open>LinuxAPI2/ipc_fifo/ipc_fifo_client.c\<close> and \<open>socket_pair_sample\<close> of
  \<open>LinuxAPI2/socket_unix_domain.c\<close>. After \<open>fork\<close> the reply decides which branch a process runs; the
  branches of parent and child are programs of their own, so that runs of both can be put
  together.
\<close>

subsection \<open>A parent sends its argument to its child\<close>

definition BUFFER_SIZE :: nat where "BUFFER_SIZE = 4096"

text \<open>\<open>case 0\<close>: the child closes the write end, copies what arrives to its standard output, ends the
  line and closes the read end. (\<open>copy_loop\<close> leaves at the first \<open>numread <= 0\<close>; the test for -1 then
  comes behind the loop.)\<close>

definition child_prints :: "nat \<Rightarrow> int \<Rightarrow> int \<Rightarrow> ('m, unit) prog" where
  "child_prints sz rfd wfd =
     seq (or_errExit (Close wfd) ''close() - child'' [])
     (bind (copy_loop rfd sz STDOUT_FILENO (\<lambda>m. fatal (fst m) (snd m)) (''parent - partial / failed write'', [])) (\<lambda>numread.
     seq (only_if (numread = -1) (errExit ''read() - child'' []))
     (seq (sys (Write STDOUT_FILENO (lit [NL])))
     (seq (or_errExit (Close rfd) ''close'' [])
     skip))))"

text \<open>\<open>default\<close>: the parent closes the read end, writes \<open>argv[1]\<close>, closes the write end and waits.\<close>

definition parent_sends :: "int \<Rightarrow> int \<Rightarrow> string list \<Rightarrow> ('m, unit) prog" where
  "parent_sends rfd wfd argv =
     seq (or_errExit (Close rfd) ''close() - parent'' [])
     (bind (argv_nth argv 1) (\<lambda>text.
     let len = int (length text) in
     bind (sys (Write wfd (lit text))) (\<lambda>w.
     seq (only_if (ret w \<noteq> len) (fatal ''parent - partial / failed write'' []))
     (seq (or_errExit (Close wfd) ''close'' [])
     (seq (sys (Sys ''wait'' [N NULL]))
     skip)))))"

definition fork_and_send :: "call \<Rightarrow> string \<Rightarrow> nat \<Rightarrow> string list \<Rightarrow> ('m, unit) prog" where
  "fork_and_send create msg sz argv =
     bind (or_errExit create msg []) (\<lambda>p.
     let rfd = out_int p 0; wfd = out_int p 1 in
     bind (sys Fork) (\<lambda>child.
     if ret child = -1 then errExit ''fork()'' []
     else if ret child = 0 then child_prints sz rfd wfd
     else parent_sends rfd wfd argv))"

definition ipc_pipe :: "string list \<Rightarrow> ('m, unit) prog" where
  "ipc_pipe argv = seq (fork_and_send Pipe ''pipe()'' BUFFER_SIZE argv) (stop (Exited EXIT_SUCCESS))"

definition AF_UNIX :: int where "AF_UNIX = 1"
definition SOCK_STREAM :: int where "SOCK_STREAM = 1"
definition SP_BUF_SIZE :: nat where "SP_BUF_SIZE = 100"

definition socket_pair_sample :: "string list \<Rightarrow> ('m, unit) prog" where
  "socket_pair_sample argv =
     seq (fork_and_send (Sys ''socketpair'' [N AF_UNIX, N SOCK_STREAM, N 0]) ''socketpair()'' SP_BUF_SIZE argv)
       (stop (Exited EXIT_SUCCESS))"

subsection \<open>Standard output through a pipe\<close>

text \<open>The child reads until end of file, each time into the start of \<open>buf\<close>, and prints \<open>buf\<close> as a
  string.\<close>

definition stdinout_child :: "int \<Rightarrow> int \<Rightarrow> ('m, unit) prog" where
  "stdinout_child rfd wfd =
     seq (or_errExit (Close wfd) ''close() - child'' [])
     (bind (loop (\<lambda>buf.
        bind (read_into rfd buf 0 BUFFER_SIZE) (\<lambda>(numread, buf).
        if numread = -1 then errExit ''read() - child'' []
        else if numread = 0 then leave buf else again buf)) (uninit BUFFER_SIZE)) (\<lambda>buf.
     bind (load_string buf) (\<lambda>text.
     seq (printf (''child buf = %s'' @ [NL]) [T text])
     (seq (or_errExit (Close rfd) ''close'' [])
     skip))))"

definition stdinout_parent :: "int \<Rightarrow> int \<Rightarrow> ('m, unit) prog" where
  "stdinout_parent rfd wfd =
     seq (or_errExit (Close rfd) ''close() - parent'' [])
     (seq (or_errExit (Dup2 wfd STDOUT_FILENO) ''dup2 - parent'' [])
     (seq (or_errExit (Close wfd) ''close'' [])
     (seq (sys (Sys ''setbuf'' [T ''stdout'', N NULL]))
     (seq (printf ''%s'' [T ''1234567890''])
     (seq (or_errExit (Close STDOUT_FILENO) ''close'' [])
     (seq (sys (Sys ''wait'' [N NULL]))
     skip))))))"

definition ipc_pipe_stdinout :: "('m, unit) prog" where
  "ipc_pipe_stdinout =
     seq (bind (or_errExit Pipe ''pipe()'' []) (\<lambda>p.
       let rfd = out_int p 0; wfd = out_int p 1 in
       bind (sys Fork) (\<lambda>child.
       if ret child = -1 then errExit ''fork()'' []
       else if ret child = 0 then stdinout_child rfd wfd else stdinout_parent rfd wfd)))
     (stop (Exited EXIT_SUCCESS))"

text \<open>\<open>popen\<close> and \<open>fgets\<close>: a reply with value 0 is a null pointer; a line comes as the reply's text.\<close>

definition PATH_MAX :: int where "PATH_MAX = 4096"

definition ipc_pipe_popen :: "('m, unit) prog" where
  "ipc_pipe_popen =
     seq (bind (sys (Sys ''popen'' [T ''ls -l'', T ''r''])) (\<lambda>fp.
       seq (only_if (ret fp = NULL) (errExit ''popen()'' []))
       (bind (loop (\<lambda>filecnt.
          bind (sys (Sys ''fgets'' [N PATH_MAX, N (ret fp)])) (\<lambda>l.
          if ret l = NULL then leave filecnt
          else seq (printf ''%s'' [T (out_str l 0)]) (again (filecnt + 1)))) (0::int)) (\<lambda>filecnt.
       bind (sys (Sys ''pclose'' [N (ret fp)])) (\<lambda>st.
       seq (printf (''list count = %d'' @ [NL]) [N filecnt])
       (printf (''close status = %d'' @ [NL]) [N (ret st)]))))))
     (stop (Exited EXIT_SUCCESS))"

subsection \<open>FIFOs\<close>

text \<open>\<open>struct request\<close>: two integers and 100 bytes of text.\<close>

definition SERVER_FIFO :: string where "SERVER_FIFO = ''/tmp/fifo_server''"
definition MSG_SIZE :: nat where "MSG_SIZE = 100"
definition REQUEST_SIZE :: nat where "REQUEST_SIZE = 4 + 4 + MSG_SIZE"

definition pack_request :: "int \<Rightarrow> int \<Rightarrow> cbuf \<Rightarrow> cbuf" where
  "pack_request pid seqLen msg = lit (le_bytes 4 pid) @ lit (le_bytes 4 seqLen) @ msg"

definition ipc_fifo_client :: "('m, unit) prog" where
  "ipc_fifo_client =
     bind (or_errExit (Open SERVER_FIFO O_WRONLY None) ''client-open()'' []) (\<lambda>fd.
     bind (sys (Sys ''getpid'' [])) (\<lambda>p.
     bind (require (c_strcpy (uninit MSG_SIZE) ''Hello! Server!'') ''strcpy'') (\<lambda>msg.
     bind (sys (Write (ret fd) (pack_request (ret p) 5 msg))) (\<lambda>w.
     if ret w \<noteq> int REQUEST_SIZE then errExit ''client-write'' []
     else printf (''message was sent to server.'' @ [NL]) []))))"

definition serve_request :: "int \<Rightarrow> cbuf \<Rightarrow> ('m, cbuf + unit) prog" where
  "serve_request serverfd req =
     bind (read_into serverfd req 0 REQUEST_SIZE) (\<lambda>(n, req).
     seq (if n \<noteq> int REQUEST_SIZE then eprintf (''Error reading request.'' @ [NL]) []
          else bind (require (cbuf_int (take 4 req)) ''uninitialised pid'') (\<lambda>pid.
               bind (load_string (drop 8 req)) (\<lambda>msg.
               printf (''reqeust pid = %d, msg = %s'' @ [NL]) [N pid, T msg])))
     (again req))"

definition ipc_fifo_server :: "('m, unit) prog" where
  "ipc_fifo_server =
     bind (sys (Sys ''mkfifo'' [T SERVER_FIFO, N 400])) (\<lambda>r.
     bind (gets errno) (\<lambda>e.
     seq (only_if (ret r = -1 \<and> e \<noteq> EEXIST) (errExit ''server-mkfifo()'' []))
     (bind (or_errExit (Open SERVER_FIFO O_RDONLY None) ''server-open()'' []) (\<lambda>serverfd.
     seq (or_errExit (Open SERVER_FIFO O_WRONLY None) ''server-open()'' [])
     (loop (serve_request (ret serverfd)) (uninit REQUEST_SIZE))))))"

subsection \<open>The child prints what the parent sent\<close>

lemma no_success_copy_loop [no_success_rules]:
  assumes "no_success (die msg)"
  shows "no_success (copy_loop src sz dst die msg)"
  unfolding copy_loop_def read_into_def write_from_def by (intro no_success_rules assms)

lemma child_prints_ok:
  assumes "child_prints sz rfd wfd s = (Ok u, s')" "trace s' = trace s @ es" "legal_trace es"
  obtains c1 mid nl c2 where "es = Did (Close wfd) c1 # mid @ [Did (Write STDOUT_FILENO (lit [NL])) nl, Did (Close rfd) c2]"
    "list_all (transfer rfd sz STDOUT_FILENO) mid" "copied rfd sz STDOUT_FILENO mid (Ok 0)"
proof -
  from assms(1) obtain c1 rs n s1 nl c2 rs' where r: "replies s = c1 # rs"
    and loop: "copy_loop rfd sz STDOUT_FILENO (\<lambda>m. fatal (fst m) (snd m)) (''parent - partial / failed write'', [])
        (after (Close wfd) c1 rs s) = (Ok n, s1)"
    and n: "n \<noteq> -1" and s': "replies s1 = nl # c2 # rs'"
      "s' = after (Close rfd) c2 rs' (after (Write STDOUT_FILENO (lit [NL])) nl (c2 # rs') s1)"
    unfolding child_prints_def by (auto simp: ok_simps)
  from fatal_copy_ok [OF _ loop] obtain mid where mid: "trace s1 = trace s @ [Did (Close wfd) c1] @ mid"
    "list_all (transfer rfd sz STDOUT_FILENO) mid" "legal_trace mid \<Longrightarrow> copied rfd sz STDOUT_FILENO mid (Ok n)"
    by (auto simp: fits_format_def)
  with s' assms(2) have es: "es = Did (Close wfd) c1 # mid @ [Did (Write STDOUT_FILENO (lit [NL])) nl, Did (Close rfd) c2]"
    by simp
  with assms(3) mid(3) have "copied rfd sz STDOUT_FILENO mid (Ok n)" "legal_trace mid" by simp_all
  with copied_legal_end n that es mid(2) show ?thesis by blast
qed

lemma child_prints_served:
  assumes "child_prints sz rfd wfd s = (Ok u, s')" "trace s' = trace s @ es" "legal_trace es"
    and "serves rfd c 0 es" "sz \<noteq> 0"
  shows "bytes_written STDOUT_FILENO es = lit c \<or> bytes_written STDOUT_FILENO es = lit (c @ [NL])"
proof -
  from assms(1-3) obtain c1 mid nl c2 where
    es: "es = Did (Close wfd) c1 # mid @ [Did (Write STDOUT_FILENO (lit [NL])) nl, Did (Close rfd) c2]"
    and mid: "list_all (transfer rfd sz STDOUT_FILENO) mid" "copied rfd sz STDOUT_FILENO mid (Ok 0)"
    by (rule child_prints_ok)
  from es assms(4) have "serves rfd c 0 (mid @ [Did (Write STDOUT_FILENO (lit [NL])) nl, Did (Close rfd) c2])" by simp
  from copied_file [OF mid(2,1) this refl assms(5)] es show ?thesis
    by (cases "nat (ret nl)") (simp_all add: lit_def)
qed

lemma parent_sends_ok:
  assumes "parent_sends rfd wfd argv s = (Ok u, s')" "trace s' = trace s @ es"
  shows "1 < length argv \<and> bytes_written wfd es = lit (argv ! 1)"
  using assms unfolding parent_sends_def by (auto simp: ok_simps)

lemma no_success_parts [no_success_rules]:
  "no_success (child_prints sz rfd wfd)" "no_success (parent_sends rfd wfd argv)"
  "no_success (fork_and_send create msg sz argv)"
  unfolding fork_and_send_def child_prints_def parent_sends_def by (intro no_success_rules)+

lemma fork_and_send_ok:
  assumes "fork_and_send create msg sz argv s = (Ok u, s')" "replies s = p # f # rs" "trace s' = trace s @ es"
  shows "\<exists>es'. es = Did create p # Did Fork f # es' \<and> (\<exists>s1. trace s' = trace s1 @ es' \<and>
     (if ret f = 0 then child_prints sz (out_int p 0) (out_int p 1) s1 = (Ok u, s')
      else parent_sends (out_int p 0) (out_int p 1) argv s1 = (Ok u, s')))"
proof -
  let ?s1 = "after Fork f rs (after create p (f # rs) s)"
  from assms(1,2) have run: "if ret f = 0 then child_prints sz (out_int p 0) (out_int p 1) ?s1 = (Ok u, s')
      else parent_sends (out_int p 0) (out_int p 1) argv ?s1 = (Ok u, s')"
    unfolding fork_and_send_def by (auto simp: ok_simps split: if_splits)
  have "tame (child_prints sz (out_int p 0) (out_int p 1))" "tame (parent_sends (out_int p 0) (out_int p 1) argv)"
    unfolding child_prints_def parent_sends_def by (intro tame_rules)+
  with run obtain es' where "trace s' = trace ?s1 @ es'" by (metis tameD(1))
  with run assms(3) show ?thesis by (intro exI [of _ es'] conjI exI [of _ ?s1]) simp_all
qed

lemma pipe_transfer:
  assumes parent: "fork_and_send create msg sz argv s1 = (Ok u1, s1')" "trace s1' = trace s1 @ es1"
      "replies s1 = p # f1 # rs1" "ret f1 > 0"
    and child: "fork_and_send create msg sz argv s2 = (Ok u2, s2')" "trace s2' = trace s2 @ es2"
      "replies s2 = p # f2 # rs2" "ret f2 = 0" "legal_trace es2"
    and create: "\<And>r d. create \<noteq> Read r d" "\<And>r d. create \<noteq> Write r d" "\<And>f d w. create \<noteq> Lseek f d w" and sz: "sz \<noteq> 0"
    and pipe: "\<And>c. bytes_written (out_int p 1) es1 = lit c \<Longrightarrow> serves (out_int p 0) c 0 es2"
  shows "bytes_written STDOUT_FILENO es2 = lit (argv ! 1) \<or> bytes_written STDOUT_FILENO es2 = lit (argv ! 1 @ [NL])"
proof -
  have quiet: "written_by fd (Did create r) = []" "serves fd c k (Did create r # es) = serves fd c k es" for fd c k r es
    using create by (cases create; auto)+
  from fork_and_send_ok [OF parent(1,3,2)] parent(4) obtain ps t where
    ps: "es1 = Did create p # Did Fork f1 # ps" "trace s1' = trace t @ ps"
    "parent_sends (out_int p 0) (out_int p 1) argv t = (Ok u1, s1')" by auto
  from parent_sends_ok [OF ps(3,2)] ps(1) quiet have w: "bytes_written (out_int p 1) es1 = lit (argv ! 1)" by simp
  from fork_and_send_ok [OF child(1,3,2)] child(4) obtain cs t' where
    cs: "es2 = Did create p # Did Fork f2 # cs" "trace s2' = trace t' @ cs"
    "child_prints sz (out_int p 0) (out_int p 1) t' = (Ok u2, s2')" by auto
  from pipe [OF w] cs(1) quiet have "serves (out_int p 0) (argv ! 1) 0 cs" by simp
  from child_prints_served [OF cs(3,2) _ this sz] child(5) cs(1) quiet show ?thesis by simp
qed

text \<open>C20. A run of the parent and a run of the child of \<open>ipc_pipe\<close> (or of \<open>socket_pair_sample\<close>) that both
  end with success, over a pipe that delivers what was written to it: the child has printed exactly
  the argument of the parent, with a newline unless the last \<open>write\<close>, whose result is not tested,
  failed.\<close>

theorem pipe_passes_argument:
  assumes prog: "prog = ipc_pipe \<or> prog = socket_pair_sample"
    and parent: "prog argv s1 = (Stop (Exited 0), s1')" "trace s1' = trace s1 @ es1"
      "replies s1 = p # f1 # rs1" "ret f1 > 0"
    and child: "prog argv s2 = (Stop (Exited 0), s2')" "trace s2' = trace s2 @ es2"
      "replies s2 = p # f2 # rs2" "ret f2 = 0" "legal_trace es2"
    and pipe: "\<And>c. bytes_written (out_int p 1) es1 = lit c \<Longrightarrow> serves (out_int p 0) c 0 es2"
  shows "bytes_written STDOUT_FILENO es2 = lit (argv ! 1) \<or> bytes_written STDOUT_FILENO es2 = lit (argv ! 1 @ [NL])"
proof -
  from prog obtain create msg sz where pr: "prog = (\<lambda>argv. seq (fork_and_send create msg sz argv) (stop (Exited 0)))"
    and cr: "\<And>r d. create \<noteq> Read r d" "\<And>r d. create \<noteq> Write r d" "\<And>f d w. create \<noteq> Lseek f d w" and sz: "sz \<noteq> 0"
  proof
    assume "prog = ipc_pipe"
    then show thesis
      by (intro that [of Pipe "''pipe()''" BUFFER_SIZE]) (auto simp: ipc_pipe_def BUFFER_SIZE_def EXIT_SUCCESS_def)
  next
    assume "prog = socket_pair_sample"
    then show thesis
      by (intro that [of "Sys ''socketpair'' [N AF_UNIX, N SOCK_STREAM, N 0]" "''socketpair()''" SP_BUF_SIZE])
        (auto simp: socket_pair_sample_def SP_BUF_SIZE_def EXIT_SUCCESS_def)
  qed
  from parent(1) obtain u1 where p1: "fork_and_send create msg sz argv s1 = (Ok u1, s1')"
    unfolding pr by (auto elim: success_body [OF no_success_parts(3)])
  from child(1) obtain u2 where p2: "fork_and_send create msg sz argv s2 = (Ok u2, s2')"
    unfolding pr by (auto elim: success_body [OF no_success_parts(3)])
  from pipe_transfer [OF p1 parent(2-4) p2 child(2-5) cr sz pipe] show ?thesis .
qed

definition pipe_reply :: reply where
  "pipe_reply = (r_ok 0)\<lparr>rints := [3, 4]\<rparr>"

definition parent_script :: "reply list" where
  "parent_script = [pipe_reply, r_ok 77, r_ok 0, r_ok 2, r_ok 0, r_ok 77]"

definition child_script :: "reply list" where
  "child_script = [pipe_reply, r_ok 0, r_ok 0, r_got ''hi'', r_ok 2, r_ok 0, r_ok 1, r_ok 0]"

theorem pipe_passes_argument_witness:
  "bytes_written STDOUT_FILENO (trace (snd (socket_pair_sample [''p'', ''hi''] (boot child_script)))) = lit (''hi'' @ [NL])"
proof -
  let ?r1 = "socket_pair_sample [''p'', ''hi''] (boot parent_script)"
  let ?r2 = "socket_pair_sample [''p'', ''hi''] (boot child_script)"
  have f: "fst ?r1 = Stop (Exited 0)" "fst ?r2 = Stop (Exited 0)" by code_simp+
  have m: "?r1 = (Stop (Exited 0), snd ?r1)" "?r2 = (Stop (Exited 0), snd ?r2)" using f by (metis prod.collapse)+
  have e: "trace (snd ?r1) = trace (boot parent_script) @ trace (snd ?r1)"
    "trace (snd ?r2) = trace (boot child_script) @ trace (snd ?r2)" by (simp_all add: boot_def)
  have l: "legal_trace (trace (snd ?r2))" by code_simp
  have r: "replies (boot parent_script) = pipe_reply # r_ok 77 # drop 2 parent_script"
    "replies (boot child_script) = pipe_reply # r_ok 0 # drop 2 child_script"
    by (simp_all add: boot_def parent_script_def child_script_def)
  have w: "bytes_written (out_int pipe_reply 1) (trace (snd ?r1)) = lit ''hi''" by code_simp
  have sv: "serves (out_int pipe_reply 0) ''hi'' 0 (trace (snd ?r2))" by code_simp
  have pipe: "serves (out_int pipe_reply 0) c 0 (trace (snd ?r2))"
    if "bytes_written (out_int pipe_reply 1) (trace (snd ?r1)) = lit c" for c
  proof -
    from that w have "c = ''hi''" by (auto simp: lit_def map_eq_Cons_conv)
    with sv show ?thesis by simp
  qed
  have o: "bytes_written STDOUT_FILENO (trace (snd ?r2)) \<noteq> lit ''hi''" by code_simp
  from pipe_passes_argument [OF disjI2 [OF refl] m(1) e(1) r(1) _ m(2) e(2) r(2) _ l pipe] o
  show ?thesis by (simp add: r_ok_def)
qed

lemma stdinout_loop:
  fixes rfd :: int
  defines "noeof \<equiv> \<lambda>es. \<forall>n r. Did (Read rfd n) r \<in> set es \<longrightarrow> ret r \<noteq> 0"
  shows "traced (\<lambda>e. legal e \<and> (\<forall>n r. e = Did (Read rfd n) r \<longrightarrow> NUL \<notin> set (rdata r)))
    (loop (\<lambda>buf. bind (read_into rfd buf 0 BUFFER_SIZE) (\<lambda>(numread, buf).
        if numread = -1 then errExit ''read() - child'' []
        else if numread = 0 then leave buf else again buf)) (uninit BUFFER_SIZE))
    (\<lambda>out es. case out of Ok buf \<Rightarrow> Some NUL \<notin> set buf | Stop x \<Rightarrow> noeof es)"
    (is "traced ?K (loop ?body _) _")
proof (rule traced_loop [where I = "\<lambda>buf es. length buf = BUFFER_SIZE \<and> Some NUL \<notin> set buf \<and> noeof es"], goal_cases)
  case (1 buf es)
  have h: "honest ?K" by simp
  have give: "traced ?K (errExit ''read() - child'' [] :: ('m, cbuf + cbuf) prog) gives_up"
    by (rule traced_errExit) (simp add: cformat_plain)
  show ?case
  proof (rule traced_bind [OF traced_read_into [OF h]], goal_cases)
    case (4 v fs)
    then obtain r where r: "fs = [Did (Read rfd BUFFER_SIZE) r]" "?K (Did (Read rfd BUFFER_SIZE) r)"
      and v: "ret r = -1 \<and> v = (-1, buf) \<or>
        (\<exists>b'. 0 \<le> ret r \<and> poke buf 0 (rdata r) = Some b' \<and> v = (ret r, b'))" by auto
    consider "v = (-1, buf)" "ret r = -1" | b' where "v = (ret r, b')" "0 \<le> ret r" "poke buf 0 (rdata r) = Some b'"
      using v by auto
    then show ?case
    proof cases
      case 1
      then show ?thesis
        using \<open>length buf = BUFFER_SIZE \<and> _\<close> r
        by (auto intro!: traced_mono [OF give] simp: gives_up_def noeof_def diagnostics_no_call)
    next
      case (2 b')
      from set_poke [OF 2(3)] r(2) \<open>length buf = BUFFER_SIZE \<and> _\<close>
      have "Some NUL \<notin> set b'" "length b' = BUFFER_SIZE" using length_poke [OF 2(3)] by auto
      with 2 r \<open>length buf = BUFFER_SIZE \<and> _\<close> show ?thesis
        by (auto intro!: traced_if traced_again simp: noeof_def)
    qed
  qed (use 1 in \<open>auto intro!: tame_rules simp: noeof_def\<close>)
qed (use assms in \<open>auto simp: uninit_def intro!: tame_rules progress_rules\<close>)

text \<open>The child of \<open>ipc_pipe_stdinout\<close> never gets past printing its buffer: as long as the pipe
  delivers no NUL byte, the run does not return, and when the end of the pipe was read the string
  it prints has no end inside the buffer.\<close>

theorem stdinout_child_unterminated:
  assumes "stdinout_child rfd wfd s = (out, s')" "trace s' = trace s @ es" "legal_trace es"
    and "\<And>n r. Did (Read rfd n) r \<in> set es \<Longrightarrow> NUL \<notin> set (rdata r)"
  shows "(\<forall>u. out \<noteq> Ok u) \<and>
    (\<forall>n r. Did (Read rfd n) r \<in> set es \<longrightarrow> ret r = 0 \<longrightarrow> out = Stop (Undefined ''string without terminating NUL''))"
proof -
  let ?K = "\<lambda>e. legal e \<and> (\<forall>n r. e = Did (Read rfd n) r \<longrightarrow> NUL \<notin> set (rdata r))"
  let ?P = "\<lambda>e. \<forall>n r. e \<noteq> Did (Read rfd n) r"
  have close: "traced ?K (or_errExit (Close wfd) ''close() - child'' [] :: ('m, reply) prog) (\<lambda>out es. list_all ?P es)"
    by (intro emits_traced emits_checks) (auto simp: is_diagnostic_def)
  have "traced ?K (stdinout_child rfd wfd :: ('m, unit) prog) (\<lambda>out es. (\<forall>u. out \<noteq> Ok u) \<and>
    ((\<forall>n r. Did (Read rfd n) r \<in> set es \<longrightarrow> ret r \<noteq> 0) \<or> out = Stop (Undefined ''string without terminating NUL'')))"
    unfolding stdinout_child_def
  proof (rule traced_seq [OF close], goal_cases)
    case (3 a es)
    show ?case
    proof (rule traced_bind [OF stdinout_loop], goal_cases)
      case (3 buf fs)
      then have "cstr buf = None" by (simp add: cstr_None)
      then show ?case
        unfolding load_string_def
        by (intro traced_bind [OF traced_require] tame_rules) auto
    qed (use 3 in \<open>auto simp: list_all_iff intro!: tame_rules\<close>)
  qed (auto simp: list_all_iff intro!: tame_rules)
  from tracedD [OF this assms(1,2)] assms(3,4) show ?thesis
    by (auto simp: legal_trace_def list_all_iff)
qed

theorem stdinout_child_unterminated_witness:
  "fst (stdinout_child 3 4 (boot [r_ok 0, r_ok 0])) = Stop (Undefined ''string without terminating NUL'')"
proof -
  let ?run = "stdinout_child 3 4 (boot [r_ok 0, r_ok 0])"
  have t: "trace (snd ?run) = [Did (Close 4) (r_ok 0), Did (Read 3 BUFFER_SIZE) (r_ok 0)]"
    using cstr_uninit [of "[]" BUFFER_SIZE]
    by (simp add: stdinout_child_def or_errExit_def checked_def only_if_def seq_def bind_def skip_def return_def
        sys_def boot_def r_ok_def loop.simps read_into_def store_def require_def leave_def undef_def stop_def
        load_string_def lit_def c_string_def)
  have e: "trace (snd ?run) = trace (boot [r_ok 0, r_ok 0]) @ trace (snd ?run)" by (simp add: boot_def)
  have m: "?run = (fst ?run, snd ?run)" by simp
  from stdinout_child_unterminated [OF m e] t show ?thesis by (simp add: r_ok_def)
qed

subsection \<open>Requests through the FIFO\<close>

text \<open>The bytes that arrive are the bytes written, where those were initialised.\<close>

definition agrees :: "cbuf \<Rightarrow> string \<Rightarrow> bool" where
  "agrees b d \<longleftrightarrow> list_all2 (\<lambda>x c. x = None \<or> x = Some c) b d"

lemma agrees_lit: "agrees (lit xs @ b) d \<Longrightarrow> \<exists>d'. d = xs @ d' \<and> agrees b d'"
  unfolding agrees_def
  by (induction xs arbitrary: d) (auto simp: lit_def list_all2_Cons1)

lemma agrees_length: "agrees b d \<Longrightarrow> length d = length b"
  unfolding agrees_def by (simp add: list_all2_lengthD)

definition hello :: string where "hello = ''Hello! Server!''"

lemma hello_facts: "c_string hello" "length hello = 14"
  by (simp_all add: hello_def c_string_def)

definition hello_buf :: cbuf where
  "hello_buf = lit (hello @ [NUL]) @ uninit 85"

lemma strcpy_hello: "c_strcpy (uninit MSG_SIZE) hello = Some hello_buf"
  by (simp add: c_strcpy_def poke_def hello_facts MSG_SIZE_def hello_buf_def lit_def uninit_def)

lemma serve_request_prints:
  assumes "agrees (pack_request pid 5 hello_buf) d" "- 2147483648 \<le> pid" "pid \<le> 2147483647"
    and "replies s = r_got d # rs" "length req = REQUEST_SIZE"
  shows "\<exists>req' s'. serve_request fd req s = (Ok (Inl req'), s') \<and> length req' = REQUEST_SIZE \<and>
    trace s' = trace s @ [Did (Read fd REQUEST_SIZE) (r_got d), Out (''reqeust pid = %d, msg = %s'' @ [NL]) [N pid, T hello]]"
proof -
  let ?h = "le_bytes 4 pid @ le_bytes 4 5 @ hello @ [NUL]"
  from assms(1) have "agrees (lit ?h @ uninit 85) d" by (simp add: pack_request_def hello_buf_def)
  from agrees_lit [OF this] obtain d' where d: "d = ?h @ d'" by blast
  have l: "length d = REQUEST_SIZE"
    using agrees_length [OF assms(1)] by (simp add: pack_request_def hello_buf_def hello_facts REQUEST_SIZE_def MSG_SIZE_def)
  have p: "poke req 0 d = Some (lit d)" using l assms(5) by (simp add: poke_def lit_def)
  have i: "cbuf_int (take 4 (lit d)) = Some pid"
    using le_int_le_bytes [of pid] assms(2,3) by (simp add: d)
  have c: "cstr (drop 8 (lit d)) = Some hello"
    using cstr_append_NUL [OF hello_facts(1), of "lit d'"] by (simp add: d lit_def)
  have w: "wp (serve_request fd req) (\<lambda>out s'. \<exists>req'. out = Ok (Inl req') \<and> length req' = REQUEST_SIZE \<and>
      trace s' = trace s @ [Did (Read fd REQUEST_SIZE) (r_got d), Out (''reqeust pid = %d, msg = %s'' @ [NL]) [N pid, T hello]]) s"
    unfolding serve_request_def using assms(4) l p i c
    by (simp add: wp_rules wp_read_into r_got_def cong: wp_cong)
  obtain out s' where "serve_request fd req s = (out, s')" by fastforce
  with wpD [OF w this] show ?thesis by auto
qed

text \<open>C21. A request reaches the server: what the client writes to the FIFO is a record of 108 bytes, and
  when the server's \<open>read\<close> delivers such a record (its unwritten bytes may be anything) the server
  prints the client's process number and its message, and is ready for the next request.\<close>

theorem fifo_request_roundtrip:
  assumes client: "ipc_fifo_client s1 = (Ok u, s1')" "trace s1' = trace s1 @ es" "replies s1 = f # p # w # rs1"
      "INT_MIN \<le> ret p" "ret p \<le> INT_MAX"
    and server: "replies s = r_got d # rs" "length req = REQUEST_SIZE"
    and fifo: "\<And>b. Did (Write (ret f) b) w \<in> set es \<Longrightarrow> agrees b d"
  shows "\<exists>req' s'. serve_request fd req s = (Ok (Inl req'), s') \<and> length req' = REQUEST_SIZE \<and>
    trace s' = trace s @ [Did (Read fd REQUEST_SIZE) (r_got d),
      Out (''reqeust pid = %d, msg = %s'' @ [NL]) [N (ret p), T ''Hello! Server!'']]"
proof -
  from client(1,3) have "Did (Write (ret f) (pack_request (ret p) 5 hello_buf)) w \<in> set (drop (length (trace s1)) (trace s1'))"
    unfolding ipc_fifo_client_def hello_def [symmetric] by (auto simp: ok_simps strcpy_hello)
  with client(2) have "agrees (pack_request (ret p) 5 hello_buf) d" by (intro fifo) simp
  from serve_request_prints [OF this _ _ server, of fd] client(4,5) show ?thesis
    by (simp add: INT_MIN_def INT_MAX_def hello_def)
qed

definition any_bytes :: "cbuf \<Rightarrow> string" where
  "any_bytes b = map (\<lambda>x. case x of Some c \<Rightarrow> c | None \<Rightarrow> CHR ''x'') b"

lemma agrees_any_bytes: "agrees b (any_bytes b)"
  by (induction b) (auto simp: agrees_def any_bytes_def split: option.splits)

theorem fifo_request_roundtrip_witness:
  "\<exists>req' s'. serve_request 5 (uninit REQUEST_SIZE) (boot [r_got (any_bytes (pack_request 99 5 hello_buf))]) =
       (Ok (Inl req'), s') \<and> length req' = REQUEST_SIZE \<and>
     last (trace s') = Out (''reqeust pid = %d, msg = %s'' @ [NL]) [N 99, T ''Hello! Server!'']"
proof -
  let ?s = "[r_ok 3, r_ok 99, r_ok 108]"
  let ?run = "ipc_fifo_client (boot ?s)"
  have t: "fst ?run = Ok ()" "trace (snd ?run) = [Did (Open SERVER_FIFO O_WRONLY None) (r_ok 3), Did (Sys ''getpid'' []) (r_ok 99),
      Did (Write 3 (pack_request 99 5 hello_buf)) (r_ok 108), Out (''message was sent to server.'' @ [NL]) []]"
    by code_simp+
  have e: "trace (snd ?run) = trace (boot ?s) @ trace (snd ?run)" by (simp add: boot_def)
  have m: "?run = (Ok (), snd ?run)" using t(1) by (metis prod.collapse)
  have r: "replies (boot ?s) = r_ok 3 # r_ok 99 # r_ok 108 # []" by (simp add: boot_def)
  have f: "agrees b (any_bytes (pack_request 99 5 hello_buf))"
    if "Did (Write (ret (r_ok 3)) b) (r_ok 108) \<in> set (trace (snd ?run))" for b
    using that agrees_any_bytes unfolding t(2) by (auto simp: r_ok_def)
  have b: "replies (boot [r_got (any_bytes (pack_request 99 5 hello_buf))]) = r_got (any_bytes (pack_request 99 5 hello_buf)) # []"
    by (simp add: boot_def)
  have n: "INT_MIN \<le> ret (r_ok 99)" "ret (r_ok 99) \<le> INT_MAX" by (simp_all add: r_ok_def INT_MIN_def INT_MAX_def)
  from fifo_request_roundtrip [OF m e r n b _ f, of "uninit REQUEST_SIZE" 5] show ?thesis
    by (auto simp: r_ok_def)
qed

end
