(* ===== verification/Sockets.thy ===== *)
theory Sockets
  imports Pipes
begin

text \<open>
  Stream and datagram sockets: \<open>LinuxAPI2/socket_inet_domain.c\<close> and
  \<open>LinuxAPI2/socket_unix_domain.c\<close>. The name and address functions of the C library
  (\<open>getaddrinfo\<close>, \<open>inet_ntop\<close> and others) answer like system calls.
\<close>

subsection \<open>Constants and addresses\<close>

definition AF_INET :: int where "AF_INET = 2"
definition AF_UNSPEC :: int where "AF_UNSPEC = 0"
definition SOCK_DGRAM :: int where "SOCK_DGRAM = 2"
definition AI_PASSIVE :: int where "AI_PASSIVE = 1"
definition AI_NUMERICSERV :: int where "AI_NUMERICSERV = 1024"
definition BACKLOG :: int where "BACKLOG = 5"
definition BUF_SIZE :: nat where "BUF_SIZE = 100"
definition PORT_NUMBER :: int where "PORT_NUMBER = 50002"
definition CH_PORT_NUMBER :: string where "CH_PORT_NUMBER = ''50002''"
definition SOCKET_PATH :: string where "SOCKET_PATH = ''/tmp/unix_domain_socket''"
definition SUN_PATH_SIZE :: nat where "SUN_PATH_SIZE = 108"

text \<open>\<open>recvfrom\<close> into the start of a buffer; \<open>sendto\<close> of its first \<open>n\<close> bytes. The peer is named by
  a text, empty for a null pointer.\<close>

definition recv_into :: "int \<Rightarrow> cbuf \<Rightarrow> nat \<Rightarrow> ('m, reply \<times> cbuf) prog" where
  "recv_into fd buf n =
     bind (sys (Sys ''recvfrom'' [N fd, N (int n)])) (\<lambda>r.
     if ret r < 0 then return (r, buf)
     else bind (store buf 0 (rdata r)) (\<lambda>buf'. return (r, buf')))"

definition send_from :: "int \<Rightarrow> cbuf \<Rightarrow> int \<Rightarrow> string \<Rightarrow> ('m, int) prog" where
  "send_from fd buf n peer =
     bind (require (peek buf 0 (nat n)) ''read past the end of a buffer'') (\<lambda>d.
     bind (sys (Sys ''sendto'' [N fd, T (any_bytes d), T peer])) (\<lambda>r. return (ret r)))"

text \<open>\<open>recvfrom\<close> answers -1 or the number of bytes it stored, at most as many as were asked for.\<close>

fun legal_recv :: "event \<Rightarrow> bool" where
  "legal_recv (Did (Sys f (N fd # N n # _)) r) =
     (f = ''recvfrom'' \<longrightarrow> ret r = -1 \<or> 0 \<le> ret r \<and> ret r \<le> n \<and> int (length (rdata r)) = ret r)"
| "legal_recv _ = True"

text \<open>The read loop of all stream programs: \<open>while ((numread = read (...)) > 0) if (write (...) !=
  numread) fatal (msg); if (numread == -1) errExit ("read()");\<close>\<close>

definition pump :: "int \<Rightarrow> int \<Rightarrow> string \<Rightarrow> ('m, unit) prog" where
  "pump src dst msg =
     bind (copy_loop src BUF_SIZE dst (\<lambda>m. fatal (fst m) (snd m)) (msg, [])) (\<lambda>numread.
     only_if (numread = -1) (errExit ''read()'' []))"

subsection \<open>\<open>socket_inet_domain.c\<close>: fixed addresses\<close>

definition serve_inet_client :: "int \<Rightarrow> unit \<Rightarrow> ('m, unit + unit) prog" where
  "serve_inet_client server_fd u =
     bind (sys (Accept server_fd)) (\<lambda>c.
     seq (only_if (ret c = -1) (errExit ''accept()'' []))
     (bind (sys (Sys ''inet_ntop'' [N AF_INET, T (out_str c 0)])) (\<lambda>a.
     seq (only_if (ret a = NULL) (fatal ''inet_ntop()'' []))
     (seq (printf (''client address = %s, port = %d'' @ [NL]) [T (out_str a 0), N (out_int c 0)])
     (seq (pump (ret c) STDOUT_FILENO ''failed write'')
     (seq (sys (Close (ret c)))
     (again ())))))))"

definition socket_inet_domain_stream_server :: "('m, unit) prog" where
  "socket_inet_domain_stream_server =
     bind (or_errExit (Socket AF_INET SOCK_STREAM 0) ''socket()'' []) (\<lambda>r.
     let server_fd = ret r in
     seq (or_errExit (Sys ''bind'' [N server_fd, T ''INADDR_ANY'', N PORT_NUMBER]) ''bind()'' [])
     (seq (or_errExit (Sys ''listen'' [N server_fd, N BACKLOG]) ''listen()'' [])
     (loop (serve_inet_client server_fd) ())))"

definition socket_inet_domain_stream_client :: "('m, unit) prog" where
  "socket_inet_domain_stream_client =
     bind (sys (Socket AF_INET SOCK_STREAM 0)) (\<lambda>r.
     let socket_fd = ret r in
     bind (sys (Sys ''inet_pton'' [N AF_INET, T ''127.0.0.1''])) (\<lambda>a.
     seq (only_if (ret a \<le> 0) (fatal ''inet_pton()'' []))
     (seq (or_errExit (Sys ''connect'' [N socket_fd, T ''127.0.0.1'', N PORT_NUMBER]) ''connect()'' [])
     (seq (pump STDIN_FILENO socket_fd ''write()'')
     (seq (sys (Close socket_fd)) skip)))))"

definition echo_datagram :: "int \<Rightarrow> cbuf \<Rightarrow> ('m, cbuf + unit) prog" where
  "echo_datagram server_fd buf =
     bind (recv_into server_fd buf BUF_SIZE) (\<lambda>(r, buf).
     let numbytes = ret r in
     seq (only_if (numbytes = -1) (errExit ''recvfrom()'' []))
     (bind (sys (Sys ''inet_ntop'' [N AF_INET, T (out_str r 0)])) (\<lambda>a.
     seq (only_if (ret a = NULL) (fatal ''inet_ntop()'' []))
     (seq (printf (''server recieved. sized = %ld, client address = %s, port = %d'' @ [NL])
             [N numbytes, T (out_str a 0), N (out_int r 0)])
     (bind (send_from server_fd buf numbytes (out_str r 0)) (\<lambda>n.
     seq (only_if (n \<noteq> numbytes) (errExit ''sendto()'' []))
     (again buf)))))))"

definition socket_inet_domain_datagram_server :: "('m, unit) prog" where
  "socket_inet_domain_datagram_server =
     bind (or_errExit (Socket AF_INET SOCK_DGRAM 0) ''socket()'' []) (\<lambda>r.
     seq (or_errExit (Sys ''bind'' [N (ret r), T ''INADDR_ANY'', N PORT_NUMBER]) ''bind()'' [])
     (loop (echo_datagram (ret r)) (uninit BUF_SIZE)))"

text \<open>One round of the datagram clients: a line of the standard input is sent, the answer received,
  terminated behind its last byte and printed.\<close>

definition datagram_round :: "int \<Rightarrow> string \<Rightarrow> cbuf \<Rightarrow> ('m, cbuf + unit) prog" where
  "datagram_round socket_fd server buf =
     bind (read_into STDIN_FILENO buf 0 BUF_SIZE) (\<lambda>(numbytes, buf).
     seq (only_if (numbytes = -1) (errExit ''read()'' []))
     (bind (send_from socket_fd buf numbytes server) (\<lambda>n.
     seq (only_if (n \<noteq> numbytes) (errExit ''sendto()'' []))
     (bind (recv_into socket_fd buf BUF_SIZE) (\<lambda>(r, buf).
     let numbytes = ret r in
     seq (only_if (numbytes = -1) (errExit ''recvfrom()'' []))
     (bind (store buf (nat numbytes) [NUL]) (\<lambda>buf.
     bind (load_string buf) (\<lambda>text.
     seq (printf (''loopback message from server: %s'' @ [NL]) [T text])
     (again buf)))))))))"

definition socket_inet_domain_datagram_client :: "('m, unit) prog" where
  "socket_inet_domain_datagram_client =
     bind (or_errExit (Socket AF_INET SOCK_DGRAM 0) ''socket()'' []) (\<lambda>r.
     bind (sys (Sys ''inet_pton'' [N AF_INET, T ''127.0.0.1''])) (\<lambda>a.
     seq (only_if (ret a \<le> 0) (fatal ''inet_pton()'' []))
     (loop (datagram_round (ret r) ''127.0.0.1'') (uninit BUF_SIZE))))"

subsection \<open>\<open>socket_inet_domain.c\<close>: addresses from \<open>getaddrinfo\<close>\<close>

text \<open>The list of addresses: family, type and protocol of each.\<close>

fun addrinfos :: "int list \<Rightarrow> (int \<times> int \<times> int) list" where
  "addrinfos (f # t # p # rest) = (f, t, p) # addrinfos rest"
| "addrinfos _ = []"

text \<open>The loop over the list: make a socket, try to use the address, close the socket when that fails.
  The variable that holds the descriptor may never be set.\<close>

fun try_addrs :: "(int \<Rightarrow> int \<Rightarrow> call) \<Rightarrow> (int \<Rightarrow> bool) \<Rightarrow> ('m, unit) prog \<Rightarrow> int \<Rightarrow> (int \<times> int \<times> int) list \<Rightarrow>
    int option \<Rightarrow> ('m, int option) prog" where
  "try_addrs use good complain i [] fd = return fd"
| "try_addrs use good complain i ((f, t, p) # rest) fd =
     bind (sys (Socket f t p)) (\<lambda>s.
     if ret s = -1 then try_addrs use good complain (i + 1) rest (Some (ret s))
     else bind (sys (use (ret s) i)) (\<lambda>r.
       if good (ret r) then return (Some (ret s))
       else seq complain (seq (sys (Close (ret s)))
              (try_addrs use good complain (i + 1) rest (Some (ret s))))))"

definition bind_to :: "int \<Rightarrow> int \<Rightarrow> call" where
  "bind_to fd i = Sys ''bind'' [N fd, N i]"

definition connect_to :: "int \<Rightarrow> int \<Rightarrow> call" where
  "connect_to fd i = Sys ''connect'' [N fd, N i]"

definition serve_named_client :: "int \<Rightarrow> unit \<Rightarrow> ('m, unit + unit) prog" where
  "serve_named_client server_fd u =
     bind (sys (Accept server_fd)) (\<lambda>c.
     seq (only_if (ret c = -1) (errExit ''accept()'' []))
     (bind (sys (Sys ''getnameinfo'' [T (out_str c 0)])) (\<lambda>a.
     seq (only_if (ret a = 0) (printf (''client address = %s, port = %s'' @ [NL]) [T (out_str a 0), T (out_str a 1)]))
     (seq (pump (ret c) STDOUT_FILENO ''failed write'')
     (seq (sys (Close (ret c)))
     (again ()))))))"

definition socket_inet_domain_stream_server_v2 :: "('m, unit) prog" where
  "socket_inet_domain_stream_server_v2 =
     bind (sys (Sys ''getaddrinfo'' [N NULL, T CH_PORT_NUMBER, N AF_UNSPEC, N SOCK_STREAM, N (AI_PASSIVE OR AI_NUMERICSERV)])) (\<lambda>g.
     seq (only_if (ret g \<noteq> 0) (errExit ''getaddrinfo()'' []))
     (bind (try_addrs bind_to (\<lambda>x. x = 0) skip 0 (addrinfos (rints g)) None) (\<lambda>fd.
     bind (require fd ''uninitialised descriptor'') (\<lambda>server_fd.
     seq (or_errExit (Sys ''listen'' [N server_fd, N BACKLOG]) ''listen()'' [])
     (seq (sys (Sys ''freeaddrinfo'' []))
     (loop (serve_named_client server_fd) ()))))))"

text \<open>The call of \<open>errExit\<close> behind \<open>if (numread == -1)\<close> is commented out: the condition guards \<open>close\<close>.\<close>

definition socket_inet_domain_stream_client_v2 :: "('m, unit) prog" where
  "socket_inet_domain_stream_client_v2 =
     bind (sys (Sys ''getaddrinfo'' [T ''localhost'', T CH_PORT_NUMBER, N AF_UNSPEC, N SOCK_STREAM, N AI_NUMERICSERV])) (\<lambda>g.
     seq (only_if (ret g \<noteq> 0) (errExit ''getaddrinfo()'' []))
     (bind (try_addrs connect_to (\<lambda>x. x \<noteq> -1) skip 0 (addrinfos (rints g)) None) (\<lambda>fd.
     seq (sys (Sys ''freeaddrinfo'' []))
     (bind (require fd ''uninitialised descriptor'') (\<lambda>socket_fd.
     bind (copy_loop STDIN_FILENO BUF_SIZE socket_fd (\<lambda>m. fatal (fst m) (snd m)) (''write()'', [])) (\<lambda>numread.
     only_if (numread = -1) (seq (sys (Close socket_fd)) skip)))))))"

subsection \<open>\<open>socket_inet_domain.c\<close>: the old name functions\<close>

definition gethostbyname_example :: "string list \<Rightarrow> ('m, unit) prog" where
  "gethostbyname_example argv =
     bind (argv_nth argv 1) (\<lambda>name.
     bind (sys (Sys ''gethostbyname'' [T name])) (\<lambda>h.
     seq (only_if (ret h = NULL)
            (seq (eprintf (''gethostbyname(): %s'' @ [NL]) [T (out_str h 0)]) (errExit ''gethostbyname()'' [])))
     (seq (printf (''canonical name = %s'' @ [NL]) [T (out_str h 0)])
     (seq (for_each (take (nat (out_int h 1)) (drop 1 (rstrs h))) (\<lambda>pa. printf (''alias = %s'' @ [NL]) [T pa]))
     (for_each (drop (1 + nat (out_int h 1)) (rstrs h)) (\<lambda>pp.
        bind (sys (Sys ''inet_ntop'' [N (out_int h 0), T pp])) (\<lambda>a.
        bind (require (if ret a = NULL then None else Some (out_str a 0)) ''null string'') (\<lambda>t.
        printf (''address = %s'' @ [NL]) [T t]))))))))"

definition getservbyname_example :: "string list \<Rightarrow> ('m, unit) prog" where
  "getservbyname_example argv =
     bind (argv_nth argv 1) (\<lambda>name.
     bind (sys (Sys ''getservbyname'' [T name, N NULL])) (\<lambda>sv.
     seq (only_if (ret sv = NULL)
            (seq (eprintf (''gethostbyname(): %s'' @ [NL]) [T (out_str sv 0)]) (errExit ''gethostbyname()'' [])))
     (seq (printf (''service name = %s'' @ [NL]) [T (out_str sv 0)])
     (seq (for_each (drop 2 (rstrs sv)) (\<lambda>pa. printf (''alias = %s'' @ [NL]) [T pa]))
     (seq (printf (''port number = %d'' @ [NL]) [N (out_int sv 0)])
     (printf (''protocol = %s'' @ [NL]) [T (out_str sv 1)]))))))"

subsection \<open>\<open>socket_unix_domain.c\<close>\<close>

text \<open>\<open>memset\<close> of the address to 0, then \<open>strncpy\<close> of the path into \<open>sun_path\<close> (one byte shorter than it).\<close>

definition unix_addr :: "('m, string) prog" where
  "unix_addr =
     bind (require (c_strncpy (lit (replicate SUN_PATH_SIZE NUL)) SOCKET_PATH (SUN_PATH_SIZE - 1)) ''strncpy'') (\<lambda>b.
     load_string b)"

definition remove_stale :: "('m, unit) prog" where
  "remove_stale =
     bind (sys (Sys ''remove'' [T SOCKET_PATH])) (\<lambda>r.
     bind (gets errno) (\<lambda>e.
     only_if (ret r = -1 \<and> e \<noteq> ENOENT) (errExit ''remove()'' [])))"

definition serve_unix_client :: "int \<Rightarrow> unit \<Rightarrow> ('m, unit + unit) prog" where
  "serve_unix_client server_fd u =
     bind (sys (Accept server_fd)) (\<lambda>c.
     seq (only_if (ret c = -1) (errExit ''accept()'' []))
     (seq (pump (ret c) STDOUT_FILENO ''failed write'')
     (seq (sys (Close (ret c)))
     (again ()))))"

definition socket_unix_domain_stream_server :: "('m, unit) prog" where
  "socket_unix_domain_stream_server =
     bind (sys (Socket AF_UNIX SOCK_STREAM 0)) (\<lambda>r.
     let server_fd = ret r in
     seq remove_stale
     (bind unix_addr (\<lambda>addr.
     seq (or_errExit (Sys ''bind'' [N server_fd, T addr]) ''bind()'' [])
     (seq (or_errExit (Sys ''listen'' [N server_fd, N BACKLOG]) ''listen()'' [])
     (loop (serve_unix_client server_fd) ())))))"

definition socket_unix_domain_stream_client :: "('m, unit) prog" where
  "socket_unix_domain_stream_client =
     bind (sys (Socket AF_UNIX SOCK_STREAM 0)) (\<lambda>r.
     let socket_fd = ret r in
     bind unix_addr (\<lambda>addr.
     seq (or_errExit (Sys ''connect'' [N socket_fd, T addr]) ''connect'' [])
     (pump STDIN_FILENO socket_fd ''failed write'')))"

definition echo_unix_datagram :: "int \<Rightarrow> cbuf \<Rightarrow> ('m, cbuf + unit) prog" where
  "echo_unix_datagram server_fd buf =
     bind (recv_into server_fd buf BUF_SIZE) (\<lambda>(r, buf).
     let numbytes = ret r in
     seq (only_if (numbytes = -1) (errExit ''recvfrom()'' []))
     (seq (printf (''server recieved. sized = %ld, client address = %s'' @ [NL]) [N numbytes, T (out_str r 0)])
     (bind (send_from server_fd buf numbytes (out_str r 0)) (\<lambda>n.
     seq (only_if (n \<noteq> numbytes) (errExit ''sendto()'' []))
     (again buf)))))"

definition socket_unix_domain_datagram_server :: "('m, unit) prog" where
  "socket_unix_domain_datagram_server =
     bind (or_errExit (Socket AF_UNIX SOCK_DGRAM 0) ''socket()'' []) (\<lambda>r.
     seq remove_stale
     (bind unix_addr (\<lambda>addr.
     seq (or_errExit (Sys ''bind'' [N (ret r), T addr]) ''bind()'' [])
     (loop (echo_unix_datagram (ret r)) (uninit BUF_SIZE)))))"

definition socket_unix_domain_datagram_client :: "('m, unit) prog" where
  "socket_unix_domain_datagram_client =
     bind (or_errExit (Socket AF_UNIX SOCK_DGRAM 0) ''socket()'' []) (\<lambda>r.
     bind (sys (Sys ''getpid'' [])) (\<lambda>p.
     bind (require (cformat ''%s_client.%d'' [T SOCKET_PATH, N (ret p)]) ''snprintf'') (\<lambda>path.
     bind (require (c_snprintf (lit (replicate SUN_PATH_SIZE NUL)) SUN_PATH_SIZE path) ''snprintf'') (\<lambda>b.
     bind (load_string b) (\<lambda>client_addr.
     seq (or_errExit (Sys ''bind'' [N (ret r), T client_addr]) ''bind()'' [])
     (bind unix_addr (\<lambda>server_addr.
     loop (datagram_round (ret r) server_addr) (uninit BUF_SIZE))))))))"

subsection \<open>One round of a datagram client\<close>

lemma wp_recv_into:
  "wp (recv_into fd buf n) Q s =
     (case replies s of
        [] \<Rightarrow> Q (Stop Blocked) s
      | r # rs \<Rightarrow>
          let s' = after (Sys ''recvfrom'' [N fd, N (int n)]) r rs s in
          if ret r < 0 then Q (Ok (r, buf)) s'
          else case poke buf 0 (rdata r) of
              Some b \<Rightarrow> Q (Ok (r, b)) s'
            | None \<Rightarrow> Q (Stop (Undefined ''write past the end of a buffer'')) s')"
  by (auto simp: recv_into_def wp_rules c_defs split: list.splits option.splits)

lemma wp_send_from:
  "wp (send_from fd buf n peer) Q s =
     (case peek buf 0 (nat n) of
        None \<Rightarrow> Q (Stop (Undefined ''read past the end of a buffer'')) s
      | Some d \<Rightarrow> (case replies s of
          [] \<Rightarrow> Q (Stop Blocked) s
        | r # rs \<Rightarrow> Q (Ok (ret r)) (after (Sys ''sendto'' [N fd, T (any_bytes d), T peer]) r rs s)))"
  by (auto simp: send_from_def wp_rules split: list.splits option.splits)

lemma any_bytes_lit [simp]: "any_bytes (lit bs) = bs"
  by (induction bs) (simp_all add: any_bytes_def lit_def)

text \<open>C22. A round of the datagram clients sends the line that was read, all of it and nothing else; an
  answer shorter than the buffer is printed up to its first NUL byte, and an answer that fills the
  buffer makes the client write its terminator behind the end of the buffer.\<close>

theorem datagram_round_result:
  assumes "length buf = BUF_SIZE" "replies s = r_got d1 # sent # r_got d2 # rs"
    and "length d1 \<le> BUF_SIZE" "ret sent = int (length d1)" "length d2 \<le> BUF_SIZE"
  shows "\<exists>s' out. datagram_round fd server buf s = (out, s') \<and>
    Did (Sys ''sendto'' [N fd, T d1, T server]) sent \<in> set (trace s') \<and>
    (if length d2 = BUF_SIZE then out = Stop (Undefined ''write past the end of a buffer'')
     else (\<exists>buf'. out = Ok (Inl buf') \<and> length buf' = BUF_SIZE) \<and>
       last (trace s') = Out (''loopback message from server: %s'' @ [NL]) [T (takeWhile (\<lambda>c. c \<noteq> NUL) d2)])"
proof -
  obtain b1 where b1: "poke buf 0 d1 = Some b1" "length b1 = BUF_SIZE"
    using poke_start [of d1 buf] assms(1,3) by auto
  then have k: "peek b1 0 (length d1) = Some (lit d1)"
    using peek_poke_start [of buf d1 b1 "length d1"] by (simp add: lit_def)
  obtain b2 where b2: "poke b1 0 d2 = Some b2" "length b2 = BUF_SIZE"
    using poke_start [of d2 b1] b1(2) assms(5) by auto
  let ?Q = "\<lambda>out s'. Did (Sys ''sendto'' [N fd, T d1, T server]) sent \<in> set (trace s') \<and>
    (if length d2 = BUF_SIZE then out = Stop (Undefined ''write past the end of a buffer'')
     else (\<exists>buf'. out = Ok (Inl buf') \<and> length buf' = BUF_SIZE) \<and>
       last (trace s') = Out (''loopback message from server: %s'' @ [NL]) [T (takeWhile (\<lambda>c. c \<noteq> NUL) d2)])"
  have "wp (datagram_round fd server buf) ?Q s"
  proof (cases "length d2 = BUF_SIZE")
    case True
    then have "poke b2 (length d2) [NUL] = None" using b2 by (simp add: poke_None_iff)
    with True show ?thesis
      unfolding datagram_round_def using assms b1 k b2
      by (simp add: wp_rules wp_read_into wp_recv_into wp_send_from r_got_def cong: wp_cong)
  next
    case False
    with assms(5) b2(2) obtain b3 where b3: "poke b2 (length d2) [NUL] = Some b3" by (auto simp: poke_def)
    from terminated_cstr [OF b2(1) b3] length_poke [OF b3] False show ?thesis
      unfolding datagram_round_def using assms b1 k b2 b3
      by (simp add: wp_rules wp_read_into wp_recv_into wp_send_from r_got_def cong: wp_cong)
  qed
  moreover obtain out s' where r: "datagram_round fd server buf s = (out, s')" by fastforce
  ultimately have "?Q out s'" by (rule wpD)
  with r show ?thesis by blast
qed

theorem datagram_round_result_witness:
  "\<exists>s'. datagram_round 3 ''peer'' (uninit BUF_SIZE)
     (boot [r_got ''hi'', r_ok 2, r_got (replicate BUF_SIZE CHR ''a'')]) =
       (Stop (Undefined ''write past the end of a buffer''), s')"
proof -
  let ?s = "boot [r_got ''hi'', r_ok 2, r_got (replicate BUF_SIZE CHR ''a'')]"
  have r: "replies ?s = r_got ''hi'' # r_ok 2 # r_got (replicate BUF_SIZE CHR ''a'') # []" by (simp add: boot_def)
  have l: "length (uninit BUF_SIZE) = BUF_SIZE" "length ''hi'' \<le> BUF_SIZE" "ret (r_ok 2) = int (length ''hi'')"
    "length (replicate BUF_SIZE CHR ''a'') \<le> BUF_SIZE" "length (replicate BUF_SIZE CHR ''a'') = BUF_SIZE"
    by (simp_all add: BUF_SIZE_def r_ok_def)
  from datagram_round_result [OF l(1) r l(2-4), of 3 "''peer''"] l(5) show ?thesis by auto
qed

end
