(* ===== verification/Echo.thy ===== *)
theory Echo
  imports Sockets
begin

text \<open>
  The echo service: \<open>LinuxAPI2/socket_echo_server_example.c\<close> and
  \<open>LinuxAPI2/socket_echo_client_example.c\<close>.
\<close>

subsection \<open>The server\<close>

definition WAIT_ANY :: int where "WAIT_ANY = -1"
definition WNOHANG :: int where "WNOHANG = 1"
definition SOL_SOCKET :: int where "SOL_SOCKET = 1"
definition SO_REUSEADDR :: int where "SO_REUSEADDR = 2"
definition SA_RESTART :: int where "SA_RESTART = 268435456"

definition signal_handler :: "('m, unit) prog" where
  "signal_handler =
     loop (\<lambda>_.
       bind (sys (Sys ''waitpid'' [N WAIT_ANY, N NULL, N WNOHANG])) (\<lambda>r.
       if ret r > 0 then again () else leave ())) ()"

definition listener :: "string \<Rightarrow> int \<Rightarrow> ('m, int) prog" where
  "listener service backlog =
     bind (sys (Sys ''getaddrinfo'' [N NULL, T service, N AF_UNSPEC, N SOCK_STREAM, N AI_PASSIVE])) (\<lambda>g.
     seq (only_if (ret g \<noteq> 0) (errExit ''getaddrinfo()'' []))
     (bind (try_addrs bind_to (\<lambda>x. x = 0) (errMsg ''bind()'' []) 0 (addrinfos (rints g)) (Some (-1))) (\<lambda>fd.
     bind (require fd ''uninitialised descriptor'') (\<lambda>lfd.
     seq (or_errExit (Sys ''setsockopt'' [N lfd, N SOL_SOCKET, N SO_REUSEADDR]) ''setsockopt()'' [])
     (seq (or_errExit (Sys ''listen'' [N lfd, N backlog]) ''listen()'' [])
     (seq (sys (Sys ''freeaddrinfo'' []))
     (return lfd)))))))"

definition echo :: "int \<Rightarrow> ('m, unit) prog" where
  "echo cfd =
     bind (copy_loop cfd BUF_SIZE cfd (\<lambda>m. errExit (fst m) (snd m)) (''write()'', [])) (\<lambda>numread.
     only_if (numread = -1) (errExit ''read()'' []))"

definition serve_echo_client :: "int \<Rightarrow> unit \<Rightarrow> ('m, unit + unit) prog" where
  "serve_echo_client listen_sock u =
     bind (sys (Accept listen_sock)) (\<lambda>c.
     let client_sock = ret c in
     seq (only_if (client_sock = -1) (errExit ''accept()'' []))
     (bind (sys Fork) (\<lambda>f.
     seq (if ret f = -1 then seq (sys (Close listen_sock)) (errExit ''fork()'' [])
          else if ret f = 0 then seq (sys (Close listen_sock)) (echo client_sock)
          else seq (sys (Close client_sock)) skip)
     (again ()))))"

definition socket_echo_server :: "('m, unit) prog" where
  "socket_echo_server =
     seq (or_errExit (Sys ''sigaction'' [N SIGCHLD, T ''signal_handler'', N SA_RESTART]) (''sigaction()'' @ [NL]) [])
     (bind (listener ''echo'' 5) (\<lambda>listen_sock.
     seq (only_if (listen_sock = -1) (errExit ''listener()'' []))
     (loop (serve_echo_client listen_sock) ())))"

subsection \<open>The client\<close>

definition SHUT_WR :: int where "SHUT_WR = 1"

definition connector :: "string \<Rightarrow> string \<Rightarrow> ('m, int) prog" where
  "connector host service =
     bind (sys (Sys ''getaddrinfo'' [T host, T service, N AF_UNSPEC, N SOCK_STREAM, N 0])) (\<lambda>g.
     seq (only_if (ret g \<noteq> 0) (errExit ''getaddrinfo()'' []))
     (bind (try_addrs connect_to (\<lambda>x. x \<noteq> -1) skip 0 (addrinfos (rints g)) (Some (-1))) (\<lambda>fd.
     bind (require fd ''uninitialised descriptor'') (\<lambda>cfd.
     seq (sys (Sys ''freeaddrinfo'' []))
     (return cfd)))))"

text \<open>The child prints what the server sends, each block terminated behind its last byte; the parent
  sends its standard input.\<close>

definition client_child :: "int \<Rightarrow> ('m, unit) prog" where
  "client_child client_sock =
     loop (\<lambda>buf.
       bind (read_into client_sock buf 0 BUF_SIZE) (\<lambda>(numread, buf).
       if numread \<le> 0 then leave ()
       else bind (store buf (nat numread) [NUL]) (\<lambda>buf.
            bind (load_string buf) (\<lambda>text.
            seq (printf ''read bytes = %ld, message = %s'' [N numread, T text])
            (again buf))))) (uninit BUF_SIZE)"

definition client_parent :: "int \<Rightarrow> ('m, unit) prog" where
  "client_parent client_sock =
     bind (copy_loop STDIN_FILENO BUF_SIZE client_sock (\<lambda>m. errExit (fst m) (snd m)) (''write()'', [])) (\<lambda>numread.
     seq (or_errExit (Sys ''shutdown'' [N client_sock, N SHUT_WR]) ''shutdown()'' []) skip)"

definition socket_echo_client :: "('m, unit) prog" where
  "socket_echo_client =
     bind (connector ''localhost'' ''echo'') (\<lambda>client_sock.
     seq (only_if (client_sock = -1) (errExit ''connector()'' []))
     (bind (sys Fork) (\<lambda>f.
     if ret f = -1 then skip
     else if ret f = 0 then client_child client_sock
     else client_parent client_sock)))"

subsection \<open>What comes in goes out\<close>

text \<open>C23. \<open>echo\<close> returns when its peer has ended the connection, and has then sent back every byte it
  received, in order; over a connection that delivers \<open>c\<close> it has sent exactly \<open>c\<close>.\<close>

theorem echo_returns_input:
  assumes "echo cfd s = (Ok u, s')" "trace s' = trace s @ es" "legal_trace es"
  shows "bytes_written cfd es = lit (bytes_read cfd es) \<and>
    (\<exists>r. last es = Did (Read cfd BUF_SIZE) r \<and> ret r = 0) \<and>
    (\<forall>c. serves cfd c 0 es \<longrightarrow> bytes_written cfd es = lit c)"
proof -
  from assms(1) obtain n where
    loop: "copy_loop cfd BUF_SIZE cfd (\<lambda>m. errExit (fst m) (snd m)) (''write()'', []) s = (Ok n, s')" and n: "n \<noteq> -1"
    unfolding echo_def by (auto simp: ok_simps)
  from errExit_copy_ok [OF _ loop] assms(2) have es: "list_all (transfer cfd BUF_SIZE cfd) es"
    "legal_trace es \<Longrightarrow> copied cfd BUF_SIZE cfd es (Ok n)"
    by (auto simp: fits_format_def)
  from es(2) assms(3) have c: "copied cfd BUF_SIZE cfd es (Ok n)" by simp
  from copied_legal_end [OF c assms(3) n] have n0: "n = 0" .
  have "bytes_written cfd es = lit cont" if "serves cfd cont 0 es" for cont
    using copied_file [OF c es(1), of cont 0 "[]"] that n0 by (simp add: BUF_SIZE_def)
  with c n0 show ?thesis by (auto simp: copied_def)
qed

definition echo_script :: "reply list" where
  "echo_script = [r_got ''hel'', r_ok 3, r_got ''lo'', r_ok 2, r_ok 0]"

theorem echo_returns_input_witness:
  "bytes_written 4 (trace (snd (echo 4 (boot echo_script)))) = lit ''hello''"
proof -
  let ?run = "echo 4 (boot echo_script)"
  have f: "fst ?run = Ok ()" by code_simp
  have l: "legal_trace (trace (snd ?run))" by code_simp
  have sv: "serves 4 ''hello'' 0 (trace (snd ?run))" by code_simp
  have e: "trace (snd ?run) = trace (boot echo_script) @ trace (snd ?run)" by (simp add: boot_def)
  have m: "?run = (Ok (), snd ?run)" using f by (metis prod.collapse)
  from echo_returns_input [OF m e l] sv show ?thesis by blast
qed

subsection \<open>The child of the server\<close>

lemma tame_echo [tame_rules]: "tame (echo cfd)" "tame (serve_echo_client lfd u)"
  unfolding echo_def serve_echo_client_def by (intro tame_rules)+

lemma serve_echo_client_uses:
  assumes "serve_echo_client lfd u s = (Ok (Inl v), s')"
  shows "length (replies s') < length (replies s)"
proof -
  have "consumes (serve_echo_client lfd u)"
    unfolding serve_echo_client_def Let_def by (intro progress_rules tame_rules)
  with assms show ?thesis unfolding consumes_def by blast
qed

text \<open>The process that serves a client does not end when the client is served: it goes back to
  \<open>accept\<close> on the listening socket it has closed, and ends as a failure when that is refused.\<close>

theorem echo_child_fails:
  assumes "serve_echo_client lfd () s = (Ok v, s')" "replies s = a # f # rs" "ret f = 0"
    and "replies s' = r # rs'" "ret r = -1"
  shows "v = Inl () \<and> (\<exists>c. Did (Close lfd) c \<in> set (trace s')) \<and>
    (\<exists>x s2. loop (serve_echo_client lfd) () s = (Stop x, s2) \<and> failing x \<and> Did (Accept lfd) r \<in> set (trace s2))"
proof -
  from assms(1-3) obtain c rs1 where c: "rs = c # rs1" "v = Inl ()"
    and run: "echo (ret a) (after (Close lfd) c rs1 (after Fork f rs (after (Accept lfd) a (f # rs) s))) = (Ok (), s')"
    unfolding serve_echo_client_def by (auto simp: ok_simps)
  from tameD(1) [OF tame_echo(1) run] have closed: "Did (Close lfd) c \<in> set (trace s')" by auto
  have "wp (serve_echo_client lfd ()) (\<lambda>out s2. \<exists>x. out = Stop x \<and> failing x \<and> Did (Accept lfd) r \<in> set (trace s2)) s'"
    unfolding serve_echo_client_def using assms(4,5)
    by (simp add: wp_rules wp_errExit [OF cformat_plain] cong: wp_cong)
  moreover obtain out s2 where b: "serve_echo_client lfd () s' = (out, s2)" by fastforce
  ultimately obtain x where x: "out = Stop x" "failing x" "Did (Accept lfd) r \<in> set (trace s2)" by (auto dest: wpD)
  have "loop (serve_echo_client lfd) () s = loop (serve_echo_client lfd) () s'"
    using assms(1) c(2) serve_echo_client_uses [of lfd "()" s "()" s'] by (subst loop.simps) simp
  also have "\<dots> = (Stop x, s2)"
    using b x(1) by (subst loop.simps) simp
  finally show ?thesis using c(2) closed x(2,3) by blast
qed

definition echo_child_script :: "reply list" where
  "echo_child_script = [r_ok 7, r_ok 0, r_ok 0, r_got ''x'', r_ok 1, r_ok 0, r_fail 9]"

theorem echo_child_fails_witness:
  "\<exists>x s2. loop (serve_echo_client 3) () (boot echo_child_script) = (Stop x, s2) \<and> failing x"
proof -
  let ?run = "serve_echo_client 3 () (boot echo_child_script)"
  have f: "fst ?run = Ok (Inl ())" by code_simp
  have r: "replies (snd ?run) = [r_fail 9]" by code_simp
  have m: "?run = (Ok (Inl ()), snd ?run)" using f by (metis prod.collapse)
  have b: "replies (boot echo_child_script) = r_ok 7 # r_ok 0 # drop 2 echo_child_script"
    by (simp add: boot_def echo_child_script_def)
  from echo_child_fails [OF m b _ r] show ?thesis by (auto simp: r_ok_def r_fail_def)
qed

subsection \<open>Choosing an address\<close>

text \<open>How the loop over the addresses ends: with an address in use; or with none, the variable being
  unchanged, -1, or the descriptor of the last socket, which was closed.\<close>

definition in_use :: "(int \<Rightarrow> int \<Rightarrow> call) \<Rightarrow> (int \<Rightarrow> bool) \<Rightarrow> event list \<Rightarrow> int option \<Rightarrow> bool" where
  "in_use use good es fd \<longleftrightarrow> (\<exists>pre d j r. es = pre @ [Did (use d j) r] \<and> good (ret r) \<and> fd = Some d)"

definition unused :: "event list \<Rightarrow> int option \<Rightarrow> int option \<Rightarrow> bool" where
  "unused es fd0 fd \<longleftrightarrow> es = [] \<and> fd = fd0 \<or> fd = Some (-1) \<or>
     (\<exists>pre d c. es = pre @ [Did (Close d) c] \<and> fd = Some d \<and> d \<noteq> -1)"

lemma try_addrs_result:
  assumes complain: "\<And>s1 u s2. complain s1 = (Ok u, s2) \<Longrightarrow> \<exists>ds. trace s2 = trace s1 @ ds \<and> list_all is_diagnostic ds"
    and use: "\<And>d j f t p. use d j \<noteq> Socket f t p" "\<And>d j e. use d j \<noteq> Close e"
    and "try_addrs use good complain i as fd0 s = (Ok fd, s')"
  shows "\<exists>es. trace s' = trace s @ es \<and> (in_use use good es fd \<or>
    unused es fd0 fd \<and> (\<forall>d j r. Did (use d j) r \<in> set es \<longrightarrow> \<not> good (ret r)))"
  using assms(4)
proof (induction as arbitrary: i fd0 s rule: list.induct)
  case Nil
  then show ?case by (auto simp: ok_simps unused_def)
next
  case (Cons a rest)
  obtain f t p where a: "a = (f, t, p)" by (cases a)
  from Cons.prems obtain so rs where so: "replies s = so # rs"
    by (auto simp: a ok_simps)
  let ?s1 = "after (Socket f t p) so rs s"
  let ?goal = "\<lambda>pre s1. \<exists>es. trace s' = trace s @ pre @ es \<and> (in_use use good (pre @ es) fd \<or>
    unused (pre @ es) fd0 fd \<and> (\<forall>d j r. Did (use d j) r \<in> set (pre @ es) \<longrightarrow> \<not> good (ret r)))"
  show ?case
  proof (cases "ret so = -1")
    case True
    with Cons.prems so have "try_addrs use good complain (i + 1) rest (Some (-1)) ?s1 = (Ok fd, s')"
      by (simp add: a bind_def sys_def after_def)
    from Cons.IH [OF this] obtain es where es: "trace s' = trace s @ Did (Socket f t p) so # es"
      "in_use use good es fd \<or> unused es (Some (-1)) fd \<and> (\<forall>d j r. Did (use d j) r \<in> set es \<longrightarrow> \<not> good (ret r))"
      by auto
    then have "in_use use good (Did (Socket f t p) so # es) fd \<or> unused (Did (Socket f t p) so # es) fd0 fd \<and>
        (\<forall>d j r. Did (use d j) r \<in> set (Did (Socket f t p) so # es) \<longrightarrow> \<not> good (ret r))"
      using use(1) unfolding in_use_def unused_def by (metis append_Cons set_ConsD event.inject(1))
    with es(1) show ?thesis by blast
  next
    case False
    with Cons.prems so obtain u rs2 where u: "rs = u # rs2"
      by (auto simp: a ok_simps)
    let ?s2 = "after (use (ret so) i) u rs2 ?s1"
    show ?thesis
    proof (cases "good (ret u)")
      case True
      with Cons.prems so u False have "fd = Some (ret so)" "s' = ?s2"
        by (auto simp: a ok_simps)
      with True show ?thesis
        by (intro exI [of _ "[Did (Socket f t p) so, Did (use (ret so) i) u]"])
          (auto simp: in_use_def intro!: exI [of _ "[Did (Socket f t p) so]"])
    next
      case bad: False
      with Cons.prems so u False obtain v s3 c rs3 where v: "complain ?s2 = (Ok v, s3)" "replies s3 = c # rs3"
        and run: "try_addrs use good complain (i + 1) rest (Some (ret so)) (after (Close (ret so)) c rs3 s3) = (Ok fd, s')"
        by (auto simp: a ok_simps)
      from complain [OF v(1)] obtain ds where ds: "trace s3 = trace ?s2 @ ds" "list_all is_diagnostic ds" by blast
      let ?pre = "[Did (Socket f t p) so, Did (use (ret so) i) u] @ ds @ [Did (Close (ret so)) c]"
      from Cons.IH [OF run] obtain es where es: "trace s' = trace s @ ?pre @ es"
        "in_use use good es fd \<or> unused es (Some (ret so)) fd \<and> (\<forall>d j r. Did (use d j) r \<in> set es \<longrightarrow> \<not> good (ret r))"
        using ds(1) by auto
      have n: "\<not> good (ret r)" if "Did (use d j) r \<in> set ?pre" for d j r
        using that bad use diagnostics_no_call [OF ds(2)] by auto
      have "in_use use good es fd \<Longrightarrow> in_use use good (?pre @ es) fd"
        unfolding in_use_def by (metis append.assoc)
      moreover have "unused es (Some (ret so)) fd \<Longrightarrow> unused (?pre @ es) fd0 fd"
        using False unfolding unused_def by (metis append.assoc append_Nil2)
      ultimately show ?thesis using es n by (intro exI [of _ "?pre @ es"]) (auto dest: n)
    qed
  qed
qed

text \<open>The descriptor \<open>connector\<close> returns is connected, or -1, or, when no address could be connected,
  the number of a socket that was closed just before: the caller's test for -1 does not see that.\<close>

theorem connector_result:
  assumes "connector host service s = (Ok fd, s')"
  shows "\<exists>g es f. trace s' = trace s @ [Did (Sys ''getaddrinfo'' [T host, T service, N AF_UNSPEC, N SOCK_STREAM, N 0]) g] @ es @
      [Did (Sys ''freeaddrinfo'' []) f] \<and>
    ((\<exists>pre j r. es = pre @ [Did (connect_to fd j) r] \<and> ret r \<noteq> -1) \<or>
     (\<forall>d j r. Did (connect_to d j) r \<in> set es \<longrightarrow> ret r = -1) \<and>
     (fd = -1 \<or> (\<exists>pre c. es = pre @ [Did (Close fd) c] \<and> fd \<noteq> -1)))"
proof -
  let ?ga = "Sys ''getaddrinfo'' [T host, T service, N AF_UNSPEC, N SOCK_STREAM, N 0]"
  from assms obtain g rs fo s1 f rs1 where g: "replies s = g # rs"
    and run: "try_addrs connect_to (\<lambda>x. x \<noteq> -1) skip 0 (addrinfos (rints g)) (Some (-1)) (after ?ga g rs s) = (Ok fo, s1)"
    and fd: "fo = Some fd" and s': "s' = after (Sys ''freeaddrinfo'' []) f rs1 s1"
    unfolding connector_def by (auto simp: ok_simps)
  have skip: "\<exists>ds. trace s2 = trace s1 @ ds \<and> list_all is_diagnostic ds" if "skip s1 = (Ok u, s2)"
    for s1 s2 :: "'a proc_scheme" and u
    using that by (auto simp: ok_simps)
  from try_addrs_result [OF skip _ _ run] obtain es where
    "trace s1 = trace s @ Did ?ga g # es" and
    "in_use connect_to (\<lambda>x. x \<noteq> -1) es (Some fd) \<or> unused es (Some (-1)) (Some fd) \<and>
      (\<forall>d j r. Did (connect_to d j) r \<in> set es \<longrightarrow> ret r = -1)"
    using fd by (auto simp: connect_to_def)
  with s' show ?thesis
    by (intro exI [of _ g] exI [of _ es] exI [of _ f]) (auto simp: in_use_def unused_def)
qed

definition refused_script :: "reply list" where
  "refused_script = [(r_ok 0)\<lparr>rints := [2, 1, 6]\<rparr>, r_ok 5, r_fail 111, r_ok 0, r_ok 0]"

theorem connector_result_witness:
  "\<exists>s'. connector ''localhost'' ''echo'' (boot refused_script) = (Ok 5, s') \<and>
     (\<forall>j r. Did (connect_to 5 j) r \<in> set (trace s') \<longrightarrow> ret r = -1) \<and> (\<exists>c. Did (Close 5) c \<in> set (trace s'))"
proof -
  let ?run = "connector ''localhost'' ''echo'' (boot refused_script)"
  have f: "fst ?run = Ok 5" by code_simp
  have t: "trace (snd ?run) = [Did (Sys ''getaddrinfo'' [T ''localhost'', T ''echo'', N 0, N 1, N 0]) ((r_ok 0)\<lparr>rints := [2, 1, 6]\<rparr>),
      Did (Socket 2 1 6) (r_ok 5), Did (connect_to 5 0) (r_fail 111), Did (Close 5) (r_ok 0), Did (Sys ''freeaddrinfo'' []) (r_ok 0)]"
    by code_simp
  have m: "?run = (Ok 5, snd ?run)" using f by (metis prod.collapse)
  have nb: "trace (boot refused_script) = []" by (simp add: boot_def)
  from connector_result [OF m, unfolded nb append_Nil] obtain g es fr where
    es: "trace (snd ?run) = [Did (Sys ''getaddrinfo'' [T ''localhost'', T ''echo'', N AF_UNSPEC, N SOCK_STREAM, N 0]) g] @ es @
      [Did (Sys ''freeaddrinfo'' []) fr]"
    and c: "(\<exists>pre j r. es = pre @ [Did (connect_to 5 j) r] \<and> ret r \<noteq> -1) \<or>
     (\<forall>d j r. Did (connect_to d j) r \<in> set es \<longrightarrow> ret r = -1)"
    by blast
  have "es = [Did (Socket 2 1 6) (r_ok 5), Did (connect_to 5 0) (r_fail 111), Did (Close 5) (r_ok 0)]"
    using es unfolding t by (cases es rule: rev_cases) auto
  with c t m show ?thesis by (intro exI [of _ "snd ?run"]) (auto simp: connect_to_def r_fail_def)
qed

text \<open>C24. On a system that refuses \<open>setsockopt\<close> for the descriptor -1 and for a descriptor that was
  closed just before, \<open>listener\<close> returns only a descriptor that is bound and listening.\<close>

theorem listener_is_bound:
  assumes "listener service backlog s = (Ok fd, s')" "trace s' = trace s @ es"
    and "\<And>as r. Did (Sys ''setsockopt'' (N (-1) # as)) r \<in> set es \<Longrightarrow> ret r = -1"
    and "\<And>pre d c as r post. es = pre @ [Did (Close d) c, Did (Sys ''setsockopt'' (N d # as)) r] @ post \<Longrightarrow> ret r = -1"
  shows "(\<exists>j b. Did (bind_to fd j) b \<in> set es \<and> ret b = 0) \<and>
    (\<exists>l. Did (Sys ''listen'' [N fd, N backlog]) l \<in> set es \<and> ret l \<noteq> -1)"
proof -
  let ?ga = "Sys ''getaddrinfo'' [N NULL, T service, N AF_UNSPEC, N SOCK_STREAM, N AI_PASSIVE]"
  let ?so = "Sys ''setsockopt'' [N fd, N SOL_SOCKET, N SO_REUSEADDR]" and ?li = "Sys ''listen'' [N fd, N backlog]"
  let ?fr = "Sys ''freeaddrinfo'' []"
  from assms(1) obtain g rs fo s1 o1 l1 f1 rs1 where g: "replies s = g # rs"
    and run: "try_addrs bind_to (\<lambda>x. x = 0) (errMsg ''bind()'' []) 0 (addrinfos (rints g)) (Some (-1)) (after ?ga g rs s) = (Ok fo, s1)"
    and fd: "fo = Some fd" and ok: "ret o1 \<noteq> -1" "ret l1 \<noteq> -1"
    and s': "s' = after ?fr f1 rs1 (after ?li l1 (f1 # rs1) (after ?so o1 (l1 # f1 # rs1) s1))"
    unfolding listener_def by (auto simp: ok_simps)
  have msg: "\<exists>ds. trace s2 = trace s1 @ ds \<and> list_all is_diagnostic ds" if "errMsg ''bind()'' [] s1 = (Ok u, s2)"
    for s1 s2 :: "'a proc_scheme" and u
    using that by (auto simp: errMsg_ok [OF cformat_plain] trace_reported is_diagnostic_def)
  from try_addrs_result [OF msg _ _ run] obtain mid where mid: "trace s1 = trace s @ Did ?ga g # mid" and
    u: "in_use bind_to (\<lambda>x. x = 0) mid (Some fd) \<or> unused mid (Some (-1)) (Some fd)"
    using fd by (auto simp: bind_to_def)
  have es: "es = Did ?ga g # mid @ [Did ?so o1, Did ?li l1, Did ?fr f1]"
    using assms(2) s' mid by simp
  have "fd \<noteq> -1" using assms(3) [of "[N SOL_SOCKET, N SO_REUSEADDR]" o1] ok(1) es by auto
  moreover have "mid \<noteq> pre @ [Did (Close fd) c]" for pre c
    using assms(4) [of "Did ?ga g # pre" fd c "[N SOL_SOCKET, N SO_REUSEADDR]" o1] ok(1) es by auto
  ultimately have "in_use bind_to (\<lambda>x. x = 0) mid (Some fd)" using u by (auto simp: unused_def)
  then obtain pre j b where "mid = pre @ [Did (bind_to fd j) b]" "ret b = 0" unfolding in_use_def by blast
  moreover from this have "Did (bind_to fd j) b \<in> set mid" by simp
  moreover have "set mid \<subseteq> set es" "Did ?li l1 \<in> set es" unfolding es by auto
  ultimately show ?thesis using ok(2) by blast
qed

definition listen_script :: "reply list" where
  "listen_script = [(r_ok 0)\<lparr>rints := [2, 1, 6]\<rparr>, r_ok 5, r_ok 0, r_ok 0, r_ok 0, r_ok 0]"

theorem listener_is_bound_witness:
  "\<exists>j b. Did (bind_to 5 j) b \<in> set (trace (snd (listener ''echo'' 5 (boot listen_script)))) \<and> ret b = 0"
proof -
  let ?run = "listener ''echo'' 5 (boot listen_script)"
  have f: "fst ?run = Ok 5" by code_simp
  have t: "trace (snd ?run) = [Did (Sys ''getaddrinfo'' [N 0, T ''echo'', N 0, N 1, N 1]) ((r_ok 0)\<lparr>rints := [2, 1, 6]\<rparr>),
      Did (Socket 2 1 6) (r_ok 5), Did (bind_to 5 0) (r_ok 0), Did (Sys ''setsockopt'' [N 5, N 1, N 2]) (r_ok 0),
      Did (Sys ''listen'' [N 5, N 5]) (r_ok 0), Did (Sys ''freeaddrinfo'' []) (r_ok 0)]"
    by code_simp
  have m: "?run = (Ok 5, snd ?run)" using f by (metis prod.collapse)
  have e: "trace (snd ?run) = trace (boot listen_script) @ trace (snd ?run)" by (simp add: boot_def)
  have nc: "Did (Close d) c \<notin> set (trace (snd ?run))" for d c unfolding t by (simp add: bind_to_def)
  have "ret r = -1" if "Did (Sys ''setsockopt'' (N (-1) # as)) r \<in> set (trace (snd ?run))" for as r
    using that unfolding t by (simp add: bind_to_def)
  moreover have "ret r = -1"
    if "trace (snd ?run) = pre @ [Did (Close d) c, Did (Sys ''setsockopt'' (N d # as)) r] @ post" for pre d c as r post
  proof -
    from that have "Did (Close d) c \<in> set (trace (snd ?run))" by simp
    with nc show ?thesis by blast
  qed
  ultimately show ?thesis using listener_is_bound [OF m e] by blast
qed

end
