(* ===== verification/IpcObjects.thy ===== *)
theory IpcObjects
  imports Pipes
begin

text \<open>
  System V and POSIX semaphores, message queues and shared memory, as the programs of
  \<open>LinuxAPI2/ipc_systemv_sem.c\<close>, \<open>ipc_systemv_msg_server.c\<close>, \<open>ipc_systemv_msg_client.c\<close>,
  \<open>ipc_posix_sem.c\<close>, \<open>ipc_posix_shm.c\<close> and \<open>ipc_posix_mq.c\<close>.
\<close>

subsection \<open>System V semaphore\<close>

definition IPC_CREAT :: int where "IPC_CREAT = 512"
definition IPC_EXCL :: int where "IPC_EXCL = 1024"
definition IPC_RMID :: int where "IPC_RMID = 0"
definition IPC_STAT :: int where "IPC_STAT = 2"
definition GETVAL :: int where "GETVAL = 12"
definition SETVAL :: int where "SETVAL = 16"
definition KEY_PATH :: string where "KEY_PATH = ''/tmp/LinuxAPI2''"
definition ID_PATH :: string where "ID_PATH = ''/tmp/id''"
definition MAX_MTEXT :: nat where "MAX_MTEXT = 1024"
definition sem_perms :: int where "sem_perms = 400"   \<comment> \<open>\<open>S_IRUSR | S_IWUSR | S_IWGRP\<close>\<close>

definition semop :: "int \<Rightarrow> int \<Rightarrow> int \<Rightarrow> ('m, reply) prog" where
  "semop semid num oper = or_errExit (Sys ''semop'' [N semid, N num, N oper, N 0]) ''semop()'' []"

definition semctl_set :: "int \<Rightarrow> int \<Rightarrow> int \<Rightarrow> ('m, reply) prog" where
  "semctl_set semid num v = or_errExit (Sys ''semctl'' [N semid, N num, N SETVAL, N v]) ''semctl()'' []"

definition MAX_TRIES :: nat where "MAX_TRIES = 10"

text \<open>The other processes wait until the creator has operated on the semaphore; the answer is what
  \<open>ds.sem_otime\<close> holds behind the loop.\<close>

definition wait_for_creator :: "int \<Rightarrow> ('m, int option) prog" where
  "wait_for_creator semid =
     loop (\<lambda>(j, otime).
       if j < MAX_TRIES then
         bind (or_errExit (Sys ''semctl'' [N semid, N 0, N IPC_STAT]) ''semctl()'' []) (\<lambda>r.
         if out_int r 0 \<noteq> 0 then leave (Some (out_int r 0))
         else seq (sys (Sys ''sleep'' [N 1])) (again (j + 1, Some (out_int r 0))))
       else leave otime) (0, None)"

definition ipc_systemv_sem :: "('m, unit) prog" where
  "ipc_systemv_sem =
     bind (sys (Sys ''ftok'' [T KEY_PATH, N 1])) (\<lambda>k.
     bind (sys (Sys ''semget'' [N (ret k), N 1, N (IPC_CREAT OR IPC_EXCL OR sem_perms)])) (\<lambda>g.
     bind (if ret g \<noteq> -1 then
             seq (semctl_set (ret g) 0 0)
             (seq (semop (ret g) 0 0)
             (seq (semctl_set (ret g) 0 2)
             (return (ret g, None))))
           else
             bind (or_errExit (Sys ''semget'' [N (ret k), N 1, N sem_perms]) ''semget()'' []) (\<lambda>g.
             bind (wait_for_creator (ret g)) (\<lambda>ot.
             return (ret g, ot)))) (\<lambda>(semid, otime).
     bind (require otime ''uninitialised sem_otime'') (\<lambda>ot.
     seq (only_if (ot = 0) (fatal ''Semaphore not initialized yet.'' []))
     (bind (sys (Sys ''semctl'' [N semid, N 0, N GETVAL])) (\<lambda>v.
     seq (printf (''val = %d'' @ [NL]) [N (ret v)])
     (seq (semop semid 0 (-1))
     (seq (printf (''job start..'' @ [NL]) [])
     (seq (sys (Sys ''sleep'' [N 5]))
     (seq (printf (''job end..'' @ [NL]) [])
     (seq (semop semid 0 1) skip)))))))))))"

subsection \<open>System V message queue\<close>

text \<open>The loop ends only with a queue: the test of \<open>msqid\<close> behind it never fails.\<close>

definition get_queue :: "int \<Rightarrow> ('m, int) prog" where
  "get_queue key =
     loop (\<lambda>_.
       bind (sys (Sys ''msgget'' [N key, N (IPC_CREAT OR IPC_EXCL OR sem_perms)])) (\<lambda>q.
       if ret q \<noteq> -1 then leave (ret q)
       else bind (gets errno) (\<lambda>e.
         seq (only_if (e = EEXIST)
                (bind (sys (Sys ''msgget'' [N key, N 0])) (\<lambda>old.
                 seq (or_errExit (Sys ''msgctl'' [N (ret old), N IPC_RMID, N NULL]) ''msgctl()'' [])
                 (printf (''remove old message queue. msqid = %d'' @ [NL]) [N (ret old)]))))
         (again ())))) ()"

text \<open>\<open>msgrcv\<close> stores the type and the text of a message; the array is not cleared between messages.\<close>

definition receive_message :: "int \<Rightarrow> cbuf \<Rightarrow> ('m, cbuf + unit) prog" where
  "receive_message msqid mtext =
     bind (sys (Sys ''msgrcv'' [N msqid, N (int MAX_MTEXT), N (-2), N 0])) (\<lambda>r.
     if ret r = -1 then leave ()
     else bind (store mtext 0 (rdata r)) (\<lambda>mtext.
       bind (load_string mtext) (\<lambda>text.
       seq (printf (''received message id = %ld, text = %s'' @ [NL]) [N (out_int r 0), T text])
       (bind (or_errExit (Sys ''msgctl'' [N msqid, N IPC_STAT]) ''msgctl()'' []) (\<lambda>ds.
       seq (printf (''message queue info :'' @ [NL]) [])
       (seq (printf ([TAB] @ ''remained message = %d'' @ [NL]) [N (out_int ds 0)])
       (seq (printf ([TAB] @ ''remained byte = %d'' @ [NL]) [N (out_int ds 1)])
       (seq (printf ([TAB] @ ''sender pid = %d'' @ [NL]) [N (out_int ds 2)])
       (seq (printf ([TAB] @ ''receiver pid = %d'' @ [NL]) [N (out_int ds 3)])
       (seq (printf ([TAB] @ ''maximum byte = %d'' @ [NL]) [N (out_int ds 4)])
       (again mtext)))))))))))"

definition id_perms :: mode_t where
  "id_perms = S_IRUSR OR S_IWUSR OR S_IRGRP OR S_IWGRP"

definition ipc_systemv_msg_server :: "('m, unit) prog" where
  "ipc_systemv_msg_server =
     bind (or_errExit (Sys ''ftok'' [T KEY_PATH, N 1]) ''ftok()'' []) (\<lambda>k.
     bind (get_queue (ret k)) (\<lambda>msqid.
     seq (only_if (msqid = -1) (errExit ''msgget()'' []))
     (seq (printf (''msqid = %d'' @ [NL]) [N msqid])
     (bind (sys (Open ID_PATH (O_CREAT OR O_WRONLY OR O_TRUNC) (Some id_perms))) (\<lambda>idfd.
     bind (sys (Write (ret idfd) (lit (le_bytes 4 msqid)))) (\<lambda>w.
     seq (only_if (ret w \<noteq> 4) (errExit ''write()'' []))
     (seq (sys (Close (ret idfd)))
     (loop (receive_message msqid) (uninit MAX_MTEXT)))))))))"

definition send_message :: "int \<Rightarrow> int \<Rightarrow> string \<Rightarrow> cbuf \<Rightarrow> ('m, cbuf) prog" where
  "send_message msqid mtype text mtext =
     bind (require (c_strcpy mtext text) ''strcpy'') (\<lambda>mtext.
     bind (load_string mtext) (\<lambda>t.
     bind (require (peek mtext 0 (length t + 1)) ''message'') (\<lambda>d.
     seq (or_errExit (Sys ''msgsnd'' [N msqid, N mtype, T (any_bytes d), N 0]) ''msgsnd'' [])
     (return mtext))))"

definition ipc_systemv_msg_client :: "('m, unit) prog" where
  "ipc_systemv_msg_client =
     bind (sys (Open ID_PATH O_RDONLY None)) (\<lambda>idfd.
     bind (read_into (ret idfd) (uninit 4) 0 4) (\<lambda>(n, b).
     seq (only_if (n \<noteq> 4) (errExit ''read()'' []))
     (bind (require (cbuf_int b) ''uninitialised msqid'') (\<lambda>msqid.
     seq (sys (Close (ret idfd)))
     (bind (send_message msqid 1 ''test message from client1'' (uninit MAX_MTEXT)) (\<lambda>mtext.
     bind (send_message msqid 2 ''test message from client2'' mtext) (\<lambda>mtext.
     skip)))))))"

subsection \<open>POSIX semaphores\<close>

definition POSIX_SEM :: string where "POSIX_SEM = ''/posix_semaphore''"
definition POSIX_SHM :: string where "POSIX_SHM = ''/posix_shared_memory''"
definition POSIX_MQ :: string where "POSIX_MQ = ''/posix_message_queue''"
definition SEM_FAILED :: int where "SEM_FAILED = 0"
definition MAP_FAILED :: int where "MAP_FAILED = -1"

definition ipc_posix_sem_create :: "('m, unit) prog" where
  "ipc_posix_sem_create =
     seq (sys (Sys ''sem_open'' [T POSIX_SEM, N (O_CREAT OR O_EXCL OR O_RDWR), N sem_perms, N 0])) skip"

definition open_sem :: "('m, reply) prog" where
  "open_sem =
     bind (sys (Sys ''sem_open'' [T POSIX_SEM, N 0])) (\<lambda>sem.
     seq (only_if (ret sem = SEM_FAILED) (errExit ''sem_open()'' []))
     (return sem))"

definition print_sem :: "reply \<Rightarrow> ('m, unit) prog" where
  "print_sem sem =
     bind (or_errExit (Sys ''sem_getvalue'' [N (ret sem)]) ''sem_getvalue()'' []) (\<lambda>v.
     printf (''semaphore value = %d'' @ [NL]) [N (out_int v 0)])"

definition ipc_posix_sem_acquire :: "('m, unit) prog" where
  "ipc_posix_sem_acquire =
     bind open_sem (\<lambda>sem.
     seq (or_errExit (Sys ''sem_wait'' [N (ret sem)]) ''sem_wait()'' [])
     (seq (printf (''semaphore acquired.'' @ [NL]) [])
     (print_sem sem)))"

definition ipc_posix_sem_release :: "('m, unit) prog" where
  "ipc_posix_sem_release =
     bind open_sem (\<lambda>sem.
     seq (or_errExit (Sys ''sem_post'' [N (ret sem)]) ''sem_post()'' [])
     (seq (printf (''semaphore released.'' @ [NL]) [])
     (print_sem sem)))"

definition ipc_posix_sem_destroy :: "('m, unit) prog" where
  "ipc_posix_sem_destroy = seq (or_errExit (Sys ''sem_unlink'' [T POSIX_SEM]) ''sem_unlink()'' []) skip"

subsection \<open>POSIX shared memory\<close>

definition shm_perms :: int where "shm_perms = 384"
definition PROT_RW :: int where "PROT_RW = 3"
definition PROT_READ :: int where "PROT_READ = 1"
definition MAP_SHARED :: int where "MAP_SHARED = 1"

definition ipc_posix_shm_write :: "('m, unit) prog" where
  "ipc_posix_shm_write =
     bind (or_errExit (Sys ''shm_open'' [T POSIX_SHM, N (O_CREAT OR O_EXCL OR O_RDWR), N shm_perms]) ''shm_open()'' []) (\<lambda>f.
     let message = ''This is sample string.''; len = int (length message) in
     seq (or_errExit (Sys ''ftruncate'' [N (ret f), N len]) ''ftruncate()'' [])
     (bind (sys (Sys ''mmap'' [N NULL, N len, N PROT_RW, N MAP_SHARED, N (ret f), N 0])) (\<lambda>a.
     seq (only_if (ret a = MAP_FAILED) (errExit ''mmap()'' []))
     (seq (sys (Sys ''memcpy'' [N (ret a), T message]))
     skip))))"

text \<open>\<open>fstat\<close> answers \<open>st_size\<close>; the bytes of the mapping come with the reply of \<open>mmap\<close>.\<close>

definition ipc_posix_shm_read :: "('m, unit) prog" where
  "ipc_posix_shm_read =
     bind (or_errExit (Sys ''shm_open'' [T POSIX_SHM, N O_RDONLY, N 0]) ''shm_open()'' []) (\<lambda>f.
     bind (or_errExit (Sys ''fstat'' [N (ret f)]) ''fstat()'' []) (\<lambda>sb.
     bind (sys (Sys ''mmap'' [N NULL, N (out_int sb 0), N PROT_READ, N MAP_SHARED, N (ret f), N 0])) (\<lambda>a.
     seq (only_if (ret a = MAP_FAILED) (errExit ''mmap()'' []))
     (seq (sys (Write STDOUT_FILENO (lit (take (nat (out_int sb 0)) (rdata a)))))
     (printf [NL] [])))))"

definition ipc_posix_shm_destroy :: "('m, unit) prog" where
  "ipc_posix_shm_destroy = seq (or_errExit (Sys ''shm_unlink'' [T POSIX_SHM]) ''shm_unlink()'' []) skip"

subsection \<open>POSIX message queue\<close>

text \<open>\<open>struct mq_message\<close>: a number and a name of 100 bytes.\<close>

definition MQ_SIZE :: int where "MQ_SIZE = 10"
definition NAME_SIZE :: nat where "NAME_SIZE = 100"
definition MQ_MESSAGE_SIZE :: nat where "MQ_MESSAGE_SIZE = 4 + NAME_SIZE"

definition ipc_posix_mq_create :: "('m, unit) prog" where
  "ipc_posix_mq_create =
     seq (or_errExit (Sys ''mq_open'' [T POSIX_MQ, N (O_CREAT OR O_EXCL OR O_RDWR), N sem_perms, N MQ_SIZE,
            N (int MQ_MESSAGE_SIZE)]) ''mq_open()'' []) skip"

definition mq_send_one :: "int \<Rightarrow> int \<Rightarrow> string \<Rightarrow> int \<Rightarrow> cbuf \<Rightarrow> ('m, cbuf) prog" where
  "mq_send_one mqd number text prio name =
     bind (require (c_strcpy name text) ''strcpy'') (\<lambda>name.
     seq (or_errExit (Sys ''mq_send'' [N mqd, T (le_bytes 4 number @ any_bytes name), N prio]) ''mq_send()'' [])
     (return name))"

definition print_count :: "int \<Rightarrow> ('m, unit) prog" where
  "print_count mqd =
     bind (or_errExit (Sys ''mq_getattr'' [N mqd]) ''mq_getattr()'' []) (\<lambda>a.
     printf (''Number of message on queue = %ld'' @ [NL]) [N (out_int a 0)])"

definition ipc_posix_mq_write :: "('m, unit) prog" where
  "ipc_posix_mq_write =
     bind (or_errExit (Sys ''mq_open'' [T POSIX_MQ, N O_RDWR, N 0, N NULL]) ''mq_open()'' []) (\<lambda>q.
     bind (mq_send_one (ret q) 100 ''Myunghoon Ahn'' 1 (uninit NAME_SIZE)) (\<lambda>name.
     bind (mq_send_one (ret q) 101 ''Soohyun Ahn'' 0 name) (\<lambda>name.
     bind (mq_send_one (ret q) 102 ''Ahhyun Kim'' 2 name) (\<lambda>name.
     seq (print_count (ret q))
     (seq (sys (Close (ret q))) skip)))))"

text \<open>A received message, of \<open>numread\<close> bytes at the start of the buffer, is printed.\<close>

definition print_message :: "int \<Rightarrow> int \<Rightarrow> cbuf \<Rightarrow> ('m, unit) prog" where
  "print_message numread priority b =
     seq (printf (''read bytes = %ld, priority = %d'' @ [NL]) [N numread, N priority])
     (bind (require (cbuf_int (take 4 b)) ''uninitialised number'') (\<lambda>number.
     seq (printf (''number = %d'' @ [NL]) [N number])
     (bind (load_string (take NAME_SIZE (drop 4 b))) (\<lambda>name.
     printf (''name = %s'' @ [NL]) [T name]))))"

definition ipc_posix_mq_read :: "('m, unit) prog" where
  "ipc_posix_mq_read =
     bind (or_errExit (Sys ''mq_open'' [T POSIX_MQ, N O_RDONLY, N 0, N NULL]) ''mq_open()'' []) (\<lambda>q.
     seq (print_count (ret q))
     (bind (or_errExit (Sys ''mq_receive'' [N (ret q), N (int MQ_MESSAGE_SIZE)]) ''mq_receive()'' []) (\<lambda>r.
     bind (store (uninit MQ_MESSAGE_SIZE) 0 (rdata r)) (\<lambda>b.
     seq (print_message (ret r) (out_int r 0) b)
     (seq (sys (Close (ret q))) skip)))))"

text \<open>Draining the queue: until \<open>mq_receive\<close> fails, which must be because the queue is empty. The buffer
  has the size of the queue's messages.\<close>

definition drain_queue :: "int \<Rightarrow> nat \<Rightarrow> ('m, unit) prog" where
  "drain_queue mqd msgsize =
     seq (loop (\<lambda>b.
       bind (sys (Sys ''mq_receive'' [N mqd, N (int msgsize)])) (\<lambda>r.
       if ret r \<ge> 0 then
         bind (store b 0 (rdata r)) (\<lambda>b.
         seq (print_message (ret r) (out_int r 0) b)
         (again b))
       else leave ())) (uninit msgsize))
     (bind (gets errno) (\<lambda>e.
      only_if (e \<noteq> EAGAIN) (errExit ''mq_receive()'' [])))"

definition NOTIFY_SIG :: int where "NOTIFY_SIG = SIGUSR1"

definition mq_notify :: "int \<Rightarrow> ('m, reply) prog" where
  "mq_notify mqd = or_errExit (Sys ''mq_notify'' [N mqd]) ''mq_notify()'' []"

definition ipc_posix_mq_read_by_signal :: "('m, unit) prog" where
  "ipc_posix_mq_read_by_signal =
     bind (or_errExit (Sys ''mq_open'' [T POSIX_MQ, N (O_RDONLY OR O_NONBLOCK), N 0, N NULL]) ''mq_open()'' []) (\<lambda>q.
     bind (or_errExit (Sys ''mq_getattr'' [N (ret q)]) ''mq_getattr()'' []) (\<lambda>a.
     seq (or_errExit (Sys ''sigprocmask'' [N NOTIFY_SIG]) ''sigprocmask()'' [])
     (seq (or_errExit (Sys ''sigaction'' [N NOTIFY_SIG, T ''handler'', N 0]) ''sigaction()'' [])
     (seq (mq_notify (ret q))
     (loop (\<lambda>_.
        seq (sys (Sys ''sigsuspend'' []))
        (seq (mq_notify (ret q))
        (seq (drain_queue (ret q) (nat (out_int a 1)))
        (again ())))) ())))))"

definition mq_thread_func :: "int \<Rightarrow> ('m, unit) prog" where
  "mq_thread_func mqd =
     bind (or_errExit (Sys ''mq_getattr'' [N mqd]) ''mq_getattr()'' []) (\<lambda>a.
     seq (mq_notify mqd)
     (drain_queue mqd (nat (out_int a 1))))"

definition ipc_posix_mq_read_by_thread :: "('m, unit) prog" where
  "ipc_posix_mq_read_by_thread =
     bind (or_errExit (Sys ''mq_open'' [T POSIX_MQ, N (O_RDONLY OR O_NONBLOCK), N 0, N NULL]) ''mq_open()'' []) (\<lambda>q.
     seq (mq_notify (ret q))
     (seq (sys (Sys ''pause'' [])) skip))"

definition ipc_posix_mq_destroy :: "('m, unit) prog" where
  "ipc_posix_mq_destroy = seq (or_errExit (Sys ''mq_unlink'' [T POSIX_MQ]) ''mq_unlink()'' []) skip"

subsection \<open>Who may use the System V semaphore\<close>

definition initialised :: "event list \<Rightarrow> bool" where
  "initialised tr \<longleftrightarrow> (\<exists>semid r. Did (Sys ''semctl'' [N semid, N 0, N IPC_STAT]) r \<in> set tr \<and> out_int r 0 \<noteq> 0)"

lemma wp_wait_for_creator:
  "wp (wait_for_creator semid) (\<lambda>out s'. (\<exists>es. trace s' = trace s @ es) \<and>
     (\<forall>v. out = Ok (Some v) \<longrightarrow> v \<noteq> 0 \<longrightarrow> initialised (trace s'))) s"
  unfolding wait_for_creator_def
proof (rule wp_loop [where I = "\<lambda>(j, ot) s'. (ot = None \<or> ot = Some 0) \<and> (\<exists>es. trace s' = trace s @ es)"], goal_cases)
  case (1 a s1)
  then show ?case
    by (cases a, cases "replies s1"; cases "tl (replies s1)")
      (auto simp: wp_rules cformat_plain initialised_def split: list.splits)
qed simp

lemma wait_for_creator_ok: "wait_for_creator semid s = (Ok (Some v), s') \<Longrightarrow> v = 0 \<or> initialised (trace s')"
  using wpD [OF wp_wait_for_creator] by blast

lemma initialised_more: "initialised tr \<Longrightarrow> initialised (tr @ es)"
  by (auto simp: initialised_def)

text \<open>\<open>ipc_systemv_sem\<close>: the process that creates the semaphore always ends in undefined behaviour,
  since it tests \<open>ds.sem_otime\<close>, which only the other branch sets; a process that finds the semaphore
  goes on, and returns, only after it has seen the time of a first operation.\<close>

theorem sem_creator_undefined:
  assumes "ipc_systemv_sem s = (out, s')" "replies s = k # g # a # b # c # rs"
  shows "(ret g \<noteq> -1 \<and> ret a \<noteq> -1 \<and> ret b \<noteq> -1 \<and> ret c \<noteq> -1 \<longrightarrow>
      out = Stop (Undefined ''uninitialised sem_otime'')) \<and>
    (out = Ok u \<longrightarrow> ret g = -1 \<and> initialised (trace s'))"
proof
  have "wp ipc_systemv_sem (\<lambda>out _. out = Stop (Undefined ''uninitialised sem_otime'')) s"
    if "ret g \<noteq> -1 \<and> ret a \<noteq> -1 \<and> ret b \<noteq> -1 \<and> ret c \<noteq> -1"
    unfolding ipc_systemv_sem_def semctl_set_def semop_def using assms(2) that
    by (simp add: wp_rules cformat_plain cong: wp_cong)
  with assms(1) show "ret g \<noteq> -1 \<and> ret a \<noteq> -1 \<and> ret b \<noteq> -1 \<and> ret c \<noteq> -1 \<longrightarrow>
      out = Stop (Undefined ''uninitialised sem_otime'')"
    by (auto dest: wpD)
  show "out = Ok u \<longrightarrow> ret g = -1 \<and> initialised (trace s')"
  proof
    assume "out = Ok u"
    with assms show "ret g = -1 \<and> initialised (trace s')"
      unfolding ipc_systemv_sem_def semctl_set_def semop_def
      by (auto simp: ok_simps split: if_splits dest!: wait_for_creator_ok intro: initialised_more)
  qed
qed

theorem sem_creator_undefined_witness:
  "fst (ipc_systemv_sem (boot [r_ok 7, r_ok 3, r_ok 0, r_ok 0, r_ok 0])) = Stop (Undefined ''uninitialised sem_otime'')"
proof -
  let ?s = "boot [r_ok 7, r_ok 3, r_ok 0, r_ok 0, r_ok 0]"
  have m: "ipc_systemv_sem ?s = (fst (ipc_systemv_sem ?s), snd (ipc_systemv_sem ?s))" by simp
  have r: "replies ?s = r_ok 7 # r_ok 3 # r_ok 0 # r_ok 0 # r_ok 0 # []" by (simp add: boot_def)
  from sem_creator_undefined [OF m r] show ?thesis by (simp add: r_ok_def)
qed

end
