(* ===== verification/Delivery.thy ===== *)
theory Delivery
  imports FdIO
begin

text \<open>
  Delivery of signals, for every program with a handler. The signals that reach the process while a call waits are the integers of a reply of their own, in
  front of the reply of the call; the handler runs for each of them, in that order, on the static
  variables \<open>st\<close> it shares with the program.
\<close>

definition catching :: "(int \<Rightarrow> 'st \<Rightarrow> ('m, 'st) prog) \<Rightarrow> call \<Rightarrow> 'st \<Rightarrow> ('m, reply \<times> 'st) prog" where
  "catching h c st =
     bind (sys (Sys ''deliver'' [])) (\<lambda>d.
     bind (fold_each (rints d) h st) (\<lambda>st.
     bind (sys c) (\<lambda>r. return (r, st))))"

definition strsignal :: "int \<Rightarrow> ('m, string) prog" where
  "strsignal sig = bind (sys (Sys ''strsignal'' [N sig])) (\<lambda>r. return (out_str r 0))"

text \<open>\<open>while (1) pause ();\<close> with a handler.\<close>

definition pause_forever :: "(int \<Rightarrow> 'st \<Rightarrow> ('m, 'st) prog) \<Rightarrow> 'st \<Rightarrow> ('m, unit) prog" where
  "pause_forever h = loop (\<lambda>st. bind (catching h (Sys ''pause'' []) st) (\<lambda>(r, st). again st))"

definition default_ignores :: "int set" where
  "default_ignores = {17, 18, 19, 20, 21, 22, 23, 28}"

text \<open>The default action of a signal: the signals above do not end the process.\<close>

definition default_action :: "int \<Rightarrow> 'st \<Rightarrow> ('m, 'st) prog" where
  "default_action sig st = (if sig \<in> default_ignores then return st else stop (Killed sig))"

text \<open>A handler that is installed for the signals \<open>sigs\<close>; every other signal has its default action.\<close>

definition taking :: "int list \<Rightarrow> (int \<Rightarrow> 'st \<Rightarrow> ('m, 'st) prog) \<Rightarrow> int \<Rightarrow> 'st \<Rightarrow> ('m, 'st) prog" where
  "taking sigs h sig st = (if sig \<in> set sigs then h sig st else default_action sig st)"

lemma tame_taking [tame_rules]: "(\<And>sig st. tame (h sig st)) \<Longrightarrow> tame (taking sigs h sig st)"
  by (simp add: taking_def default_action_def tame_rules)

end
