(* ===== verification/Protocol.thy ===== *)
theory Protocol
  imports Main
begin

text \<open>
  What the step relations of the development have in common. \<open>protocol\<close> is the contract of an
  invariant: every step keeps it. \<open>terminating\<close> extends it by a measure that every step lowers and
  by the promise that only final states have no step. A component whose threads, processes or signals
  interleave interprets one of them on its own step relation.
\<close>

locale protocol =
  fixes step :: "'s \<Rightarrow> 's \<Rightarrow> bool" and inv :: "'s \<Rightarrow> bool"
  assumes inv_step: "step S S' \<Longrightarrow> inv S \<Longrightarrow> inv S'"
begin

lemma inv_run: "step\<^sup>*\<^sup>* S S' \<Longrightarrow> inv S \<Longrightarrow> inv S'"
  by (induction rule: rtranclp_induct) (auto intro: inv_step)

end

locale terminating = protocol step inv
  for step :: "'s \<Rightarrow> 's \<Rightarrow> bool" and inv :: "'s \<Rightarrow> bool" +
  fixes weight :: "'s \<Rightarrow> nat" and final :: "'s \<Rightarrow> bool"
  assumes decreases: "step S S' \<Longrightarrow> inv S \<Longrightarrow> weight S' < weight S"
    and stuck_final: "inv S \<Longrightarrow> (\<And>S'. \<not> step S S') \<Longrightarrow> final S"
begin

lemma final_or_step: "step\<^sup>*\<^sup>* S0 S \<Longrightarrow> inv S0 \<Longrightarrow> final S \<or> (\<exists>S'. step S S')"
  using inv_run stuck_final by blast

lemma weight_run: "step\<^sup>*\<^sup>* S0 S \<Longrightarrow> inv S0 \<Longrightarrow> step S S' \<Longrightarrow> weight S' < weight S"
  using inv_run decreases by blast

text \<open>A run is never longer than the weight of its first state, and it can always be completed.\<close>

lemma bounded: "(step ^^ n) S S' \<Longrightarrow> inv S \<Longrightarrow> n + weight S' \<le> weight S"
proof (induction n arbitrary: S')
  case (Suc n)
  then obtain T where T: "(step ^^ n) S T" "step T S'" by auto
  from T(1) have "step\<^sup>*\<^sup>* S T" by (simp add: relpowp_imp_rtranclp)
  from weight_run [OF this Suc.prems(2) T(2)] Suc.IH [OF T(1) Suc.prems(2)] show ?case by simp
qed simp

lemma completes: "inv S \<Longrightarrow> \<exists>S'. step\<^sup>*\<^sup>* S S' \<and> final S' \<and> inv S'"
proof (induction "weight S" arbitrary: S rule: less_induct)
  case less
  show ?case
  proof (cases "\<exists>S'. step S S'")
    case True
    then obtain S1 where s: "step S S1" by blast
    from less.hyps [OF decreases [OF s less.prems] inv_step [OF s less.prems]]
    obtain S' where "step\<^sup>*\<^sup>* S1 S'" "final S'" "inv S'" by blast
    with s show ?thesis by (meson converse_rtranclp_into_rtranclp)
  next
    case False
    with stuck_final less.prems show ?thesis by blast
  qed
qed

end

end
