(* ===== verification/Processes.thy ===== *)
theory Processes
  imports Delivery Protocol
begin

text \<open>
  Children and their parents: \<open>LinuxAPI/process_wait.c\<close>, \<open>LinuxAPI/process_exec.c\<close> and
  \<open>LinuxAPI/process_wait_by_signal.c\<close>. The last one is also a step relation, in which children end
  at any time, the signals of several children may merge into one, and the handler runs inside
  \<open>sigsuspend\<close>.
\<close>

subsection \<open>Waiting in a loop\<close>

definition getpid :: "('m, int) prog" where
  "getpid = bind (sys (Sys ''getpid'' [])) (\<lambda>r. return (ret r))"

definition sleep :: "int \<Rightarrow> ('m, unit) prog" where
  "sleep n = seq (sys (Sys ''sleep'' [N n])) skip"

text \<open>The \<open>switch (fork ())\<close> of the children programs: the child runs its body and ends.\<close>

definition spawn :: "('m, unit) prog \<Rightarrow> ('m, int) prog" where
  "spawn body =
     bind (sys Fork) (\<lambda>f.
     if ret f = -1 then errExit ''fork()'' []
     else if ret f = 0 then seq body (stop (QuickExited EXIT_SUCCESS))
     else return (ret f))"

definition process_wait :: "('m, unit) prog" where
  "process_wait =
     seq (for_each [1..<6] (\<lambda>i.
        seq (spawn (bind getpid (\<lambda>p. seq (printf (''child pid = %d'' @ [NL]) [N p]) (sleep (int i))))) skip))
     (loop (\<lambda>_.
        bind (sys (Sys ''wait'' [])) (\<lambda>r.
        let child = ret r in
        bind (gets errno) (\<lambda>e.
        seq (only_if (child = -1 \<and> e = ECHILD)
               (seq (printf (''all children's are exited'' @ [NL]) []) (stop (Exited EXIT_SUCCESS))))
        (seq (printf (''child pid = %d is exited.'' @ [NL]) [N child])
        (again ()))))) ())"

text \<open>The status word of \<open>waitpid\<close>, as the macros of \<open>sys/wait.h\<close> take it apart.\<close>

definition WTERMSIG :: "int \<Rightarrow> int" where "WTERMSIG st = st AND 127"
definition WIFEXITED :: "int \<Rightarrow> bool" where "WIFEXITED st \<longleftrightarrow> WTERMSIG st = 0"
definition WIFSTOPPED :: "int \<Rightarrow> bool" where "WIFSTOPPED st \<longleftrightarrow> st AND 255 = 127"
definition WIFCONTINUED :: "int \<Rightarrow> bool" where "WIFCONTINUED st \<longleftrightarrow> st = 65535"
definition WIFSIGNALED :: "int \<Rightarrow> bool" where "WIFSIGNALED st \<longleftrightarrow> WTERMSIG st \<noteq> 0 \<and> WTERMSIG st \<noteq> 127"
definition WUNTRACED :: int where "WUNTRACED = 2"

text \<open>\<open>waitpid\<close> stores the status when it succeeds; when it fails \<open>status\<close> was never set.\<close>

definition process_waitpid :: "('m, unit) prog" where
  "process_waitpid =
     seq (printf (''Parent will only wait index no.1 child...'' @ [NL]) [])
     (bind (fold_each [1..<6] (\<lambda>i wait_child.
        bind (spawn
          (bind getpid (\<lambda>p.
           seq (printf (''Index = %d, child pid = %d started..'' @ [NL]) [N (int i), N p])
           (seq (if i = 1 then seq (sys (Sys ''pause'' [])) skip else sleep (int i))
           (bind getpid (\<lambda>p.
            printf (''Index = %d, child pid = %d finished..'' @ [NL]) [N (int i), N p])))))) (\<lambda>child.
        return (if i = 1 then Some child else wait_child))) None) (\<lambda>wc.
     bind (require wc ''uninitialised wait_child'') (\<lambda>wait_child.
     seq (printf (''test=%d'' @ [NL]) [N wait_child])
     (bind (sys (Sys ''waitpid'' [N wait_child, N WUNTRACED])) (\<lambda>r.
     bind (require (if ret r = -1 then None else Some (out_int r 0)) ''uninitialised status'') (\<lambda>st.
     seq (printf (''status = %d'' @ [NL]) [N st])
     (seq (only_if (WIFEXITED st) (printf (''WIFEXITED'' @ [NL]) []))
     (seq (only_if (WIFSIGNALED st) (printf (''WIFSIGNALED: %d'' @ [NL]) [N (WTERMSIG st)]))
     (seq (only_if (WIFSTOPPED st) (printf (''WIFSTOPPED'' @ [NL]) []))
     (only_if (WIFCONTINUED st) (printf (''WIFCONTINUED'' @ [NL]) [])))))))))))"

text \<open>\<open>execve\<close> returns only when it fails. The parent waits again when a signal interrupts it.\<close>

definition process_exec :: "('m, unit) prog" where
  "process_exec =
     bind (sys Fork) (\<lambda>f.
     if ret f = -1 then errExit ''fork()'' []
     else if ret f = 0 then
       bind (sys (Sys ''execve'' [T ''myproc'', T ''myproc'', T ''test_param'', T ''ENV1=AHNMH'', T ''ENV2=SAMSUNG'', T ''ENV3=IOT'']))
         (\<lambda>r. if ret r = -1 then errExit ''exec()'' [] else stop (Exited (ret r)))
     else
       loop (\<lambda>_.
         bind (sys (Sys ''waitpid'' [N (ret f), N 0])) (\<lambda>w.
         bind (gets errno) (\<lambda>e.
         if ret w \<noteq> -1 then leave ()
         else if e \<noteq> EINTR then leave ()
         else again ()))) ())"

subsection \<open>Waiting in a signal handler\<close>

definition WNOHANG :: int where "WNOHANG = 1"
definition SIG_BLOCK :: int where "SIG_BLOCK = 0"
definition SIG_SETMASK :: int where "SIG_SETMASK = 2"

text \<open>The handler: the counters \<open>sig_cnt\<close> and \<open>child_cnt\<close> go in and out.\<close>

definition sigchld_signal_handler :: "int \<times> int \<Rightarrow> ('m, int \<times> int) prog" where
  "sigchld_signal_handler cs = (case cs of (sig_cnt, child_cnt) \<Rightarrow>
     seq (printf (''sigal count: %d'' @ [NL]) [N (sig_cnt + 1)])
     (bind (loop (\<lambda>child_cnt.
        bind (sys (Sys ''waitpid'' [N (-1), N WNOHANG])) (\<lambda>r.
        if ret r > 0 then
          seq (printf (''Child process: %d takes wait from parent.'' @ [NL]) [N (ret r)])
          (again (child_cnt - 1))
        else leave (child_cnt, ret r))) child_cnt) (\<lambda>(child_cnt, childpid).
     bind (gets errno) (\<lambda>e.
     seq (only_if (childpid = -1 \<and> e \<noteq> ECHILD) (errMsg ''waitpid()'' []))
     (return (sig_cnt + 1, child_cnt))))))"

definition take_sigchld :: "int \<Rightarrow> int \<times> int \<Rightarrow> ('m, int \<times> int) prog" where
  "take_sigchld = taking [SIGCHLD] (\<lambda>sig. sigchld_signal_handler)"

text \<open>Signals arrive inside \<open>sigsuspend\<close>, and at the two calls of \<open>sigprocmask\<close>: before the first has
  blocked \<open>SIGCHLD\<close>, and when the second lets a pending one through.\<close>

definition process_wait_by_signal :: "('m, unit) prog" where
  "process_wait_by_signal =
     seq (or_errExit (Sys ''sigaction'' [N SIGCHLD, T ''sigchld_signal_handler'', N 0]) (''sigaction()'' @ [NL]) [])
     (bind (catching take_sigchld (Sys ''sigprocmask'' [N SIG_BLOCK, N SIGCHLD]) (0, 5)) (\<lambda>(b, cs).
     seq (only_if (ret b = -1) (errExit ''sigprocmask()'' []))
     (seq (for_each [0..<5] (\<lambda>i.
        seq (spawn (bind getpid (\<lambda>p. seq (printf (''Child process: %d'' @ [NL]) [N p]) (sleep 5)))) skip))
     (bind (loop (\<lambda>cs.
        if \<not> snd cs > 0 then leave cs
        else bind (catching take_sigchld (Sys ''sigsuspend'' []) cs) (\<lambda>(r, cs).
          bind (gets errno) (\<lambda>e.
          seq (only_if (ret r = -1 \<and> e \<noteq> EINTR) (errExit ''sigsuspend()'' []))
          (again cs)))) cs) (\<lambda>cs.
     bind (catching take_sigchld (Sys ''sigprocmask'' [N SIG_SETMASK]) cs) (\<lambda>(u, cs).
     only_if (ret u = -1) (errExit ''sigprocmask()'' [])))))))"

subsection \<open>The parent, its children and the signal\<close>

datatype place = Starting | Blocking | Forking | Checking | Suspended | Unblocking | Finished

record family =
  pc :: place
  handling :: bool    \<comment> \<open>inside the handler\<close>
  to_fork :: nat
  child_cnt :: int
  running :: nat
  zombies :: nat
  pending :: bool     \<comment> \<open>\<open>SIGCHLD\<close> is pending\<close>
  caught :: bool      \<comment> \<open>the handler has run during this call\<close>

text \<open>The places of the parent where \<open>SIGCHLD\<close> can interrupt it. \<open>SIGCHLD\<close> is blocked everywhere else,
  and while its handler runs.\<close>

fun open_place :: "place \<Rightarrow> bool" where
  "open_place p = (p = Blocking \<or> p = Suspended \<or> p = Unblocking)"

text \<open>\<open>sigsuspend\<close> returns only after a handler has run; \<open>sigprocmask\<close> does not leave a signal pending
  that it has let through.\<close>

inductive family_step :: "family \<Rightarrow> family \<Rightarrow> bool" where
  start: "pc S = Starting \<Longrightarrow> \<not> handling S \<Longrightarrow> family_step S (S\<lparr>pc := Blocking, caught := False\<rparr>)"
| blocked: "pc S = Blocking \<Longrightarrow> \<not> handling S \<Longrightarrow> family_step S (S\<lparr>pc := Forking\<rparr>)"
| fork: "pc S = Forking \<Longrightarrow> \<not> handling S \<Longrightarrow> to_fork S = Suc n \<Longrightarrow>
    family_step S (S\<lparr>pc := (if n = 0 then Checking else Forking), to_fork := n, running := running S + 1\<rparr>)"
| child_exits: "running S = Suc n \<Longrightarrow>
    family_step S (S\<lparr>running := n, zombies := zombies S + 1, pending := True\<rparr>)"
| suspend: "pc S = Checking \<Longrightarrow> \<not> handling S \<Longrightarrow> child_cnt S > 0 \<Longrightarrow>
    family_step S (S\<lparr>pc := Suspended, caught := False\<rparr>)"
| finish: "pc S = Checking \<Longrightarrow> \<not> handling S \<Longrightarrow> \<not> child_cnt S > 0 \<Longrightarrow>
    family_step S (S\<lparr>pc := Unblocking, caught := False\<rparr>)"
| deliver: "open_place (pc S) \<Longrightarrow> \<not> handling S \<Longrightarrow> pending S \<Longrightarrow>
    family_step S (S\<lparr>handling := True, pending := False, caught := True\<rparr>)"
| reap: "handling S \<Longrightarrow> zombies S = Suc n \<Longrightarrow>
    family_step S (S\<lparr>zombies := n, child_cnt := child_cnt S - 1\<rparr>)"
| handled: "handling S \<Longrightarrow> zombies S = 0 \<Longrightarrow> family_step S (S\<lparr>handling := False\<rparr>)"
| woken: "pc S = Suspended \<Longrightarrow> \<not> handling S \<Longrightarrow> caught S \<Longrightarrow> family_step S (S\<lparr>pc := Checking\<rparr>)"
| unblocked: "pc S = Unblocking \<Longrightarrow> \<not> handling S \<Longrightarrow> \<not> pending S \<Longrightarrow> family_step S (S\<lparr>pc := Finished\<rparr>)"

definition family_start :: family where
  "family_start = \<lparr>pc = Starting, handling = False, to_fork = 5, child_cnt = 5, running = 0, zombies = 0,
     pending = False, caught = False\<rparr>"

text \<open>Every child still counted is to be forked, running, or has ended with its signal under way.\<close>

definition family_inv :: "family \<Rightarrow> bool" where
  "family_inv S \<longleftrightarrow> child_cnt S = int (to_fork S + running S + zombies S) \<and>
     (0 < zombies S \<longrightarrow> pending S \<or> handling S) \<and>
     (handling S \<longrightarrow> open_place (pc S) \<and> caught S) \<and>
     (case pc S of
        Starting \<Rightarrow> 0 < to_fork S \<and> running S = 0 \<and> zombies S = 0 \<and> \<not> pending S
      | Blocking \<Rightarrow> 0 < to_fork S \<and> running S = 0 \<and> zombies S = 0 \<and> \<not> pending S
      | Forking \<Rightarrow> 0 < to_fork S
      | Checking \<Rightarrow> to_fork S = 0
      | Suspended \<Rightarrow> to_fork S = 0 \<and> (caught S \<or> 0 < child_cnt S)
      | _ \<Rightarrow> child_cnt S = 0)"

definition family_weight :: "family \<Rightarrow> nat" where
  "family_weight S = 8 * to_fork S + 6 * running S + zombies S + (if pending S then 4 else 0) +
     (if handling S then 1 else 0) +
     (case pc S of Starting \<Rightarrow> 5 | Blocking \<Rightarrow> 4 | Forking \<Rightarrow> 3 | Checking \<Rightarrow> 2
        | Suspended \<Rightarrow> if caught S then 3 else 1 | Unblocking \<Rightarrow> 1 | Finished \<Rightarrow> 0)"

lemma family_inv_step: "family_step S S' \<Longrightarrow> family_inv S \<Longrightarrow> family_inv S'"
  by (induction rule: family_step.induct) (auto simp: family_inv_def split: place.splits)

lemma family_weight_decreases: "family_step S S' \<Longrightarrow> family_weight S' < family_weight S"
  by (induction rule: family_step.induct) (auto simp: family_weight_def split: place.splits)



lemma family_stuck:
  assumes i: "family_inv S" and n: "\<And>S'. \<not> family_step S S'"
  shows "pc S = Finished \<and> running S = 0 \<and> zombies S = 0"
proof -
  have r: "running S = 0" using n family_step.child_exits [of S "running S - 1"] by (cases "running S") auto
  have h: "\<not> handling S"
    using n family_step.reap [of S "zombies S - 1"] family_step.handled [of S] by (cases "zombies S") auto
  have p: "open_place (pc S) \<Longrightarrow> \<not> pending S" using n h family_step.deliver by blast
  have "pc S = Finished"
  proof (cases "pc S")
    case Forking
    with i h n family_step.fork [of S "to_fork S - 1"] show ?thesis by (cases "to_fork S") (auto simp: family_inv_def)
  next
    case Suspended
    with i h p r have "caught S" by (auto simp: family_inv_def)
    with Suspended h n family_step.woken show ?thesis by blast
  next
    case Checking
    with h n family_step.suspend family_step.finish show ?thesis by blast
  next
    case Unblocking
    with h p n family_step.unblocked show ?thesis by auto
  qed (use h n family_step.start family_step.blocked in blast)+
  with i r show ?thesis by (auto simp: family_inv_def)
qed

lemma family_inv_start: "family_inv family_start"
  by (simp add: family_inv_def family_start_def)

interpretation family: terminating family_step family_inv family_weight
    "\<lambda>S. pc S = Finished \<and> running S = 0 \<and> zombies S = 0"
  by unfold_locales (blast intro: family_inv_step family_weight_decreases dest: family_stuck)+

text \<open>C27. \<open>process_wait_by_signal\<close> waits for all of its five children, however their ends and signals are
  interleaved and merged: it leaves its loop only when none is running or unwaited for, it is never
  stuck before, and it can make only finitely many steps.\<close>

theorem all_children_reaped:
  assumes "family_step\<^sup>*\<^sup>* family_start S"
  shows "(pc S = Finished \<longrightarrow> running S = 0 \<and> zombies S = 0 \<and> to_fork S = 0) \<and>
    (pc S = Finished \<or> (\<exists>S'. family_step S S')) \<and>
    (\<forall>S'. family_step S S' \<longrightarrow> family_weight S' < family_weight S)"
proof -
  from family.inv_run [OF assms family_inv_start]
  have "pc S = Finished \<longrightarrow> running S = 0 \<and> zombies S = 0 \<and> to_fork S = 0"
    by (auto simp: family_inv_def)
  with family.final_or_step [OF assms family_inv_start] family.weight_run [OF assms family_inv_start]
  show ?thesis by blast
qed

theorem all_children_reaped_witness: "\<exists>S'. family_step family_start S'"
  using all_children_reaped [of family_start] by (auto simp: family_start_def)

end
