(* ===== verification/Signals.thy ===== *)
theory Signals
  imports Processes
begin

text \<open>
  Signals in \<open>LinuxAPI\<close>: \<open>signal_basic.c\<close>, \<open>signal_handler.c\<close>, \<open>signal_handler2.c\<close>,
  \<open>signal_realtime_handler.c\<close>, \<open>signal_suspend.c\<close>, \<open>signal_suspend_sync.c\<close>, the two files of
  \<open>signal_sender\<close>, \<open>process_sync_by_signal.c\<close> and \<open>process_setpgid.c\<close>. The protocol of
  \<open>process_sync_by_signal\<close> between parent and child is a step relation as well.
\<close>

subsection \<open>Constants\<close>

definition SI_USER :: int where "SI_USER = 0"
definition SI_QUEUE :: int where "SI_QUEUE = -1"
definition SA_RESTART :: int where "SA_RESTART = 268435456"
definition SA_SIGINFO :: int where "SA_SIGINFO = 4"

subsection \<open>\<open>signal_basic\<close>\<close>

datatype action = Handled | Ignored | Default

record basic =
  int_cnt :: int
  int_action :: action
  quit_action :: action

definition set_int :: "action \<Rightarrow> string \<Rightarrow> basic \<Rightarrow> ('m, basic) prog" where
  "set_int a name st =
     bind (sys (Sys ''signal'' [N SIGINT, T name])) (\<lambda>r.
     if ret r = -1 then errExit ''signal(): SIGQUIT'' []
     else return (st\<lparr>int_action := a\<rparr>))"

text \<open>\<open>raise\<close> inside the handler of the same signal only makes the signal pending; it takes effect when
  the handler returns, which \<open>signal_handler\<close> does next. If \<open>signal\<close> failed the handler stays.\<close>

definition signal_handler :: "int \<Rightarrow> basic \<Rightarrow> ('m, basic) prog" where
  "signal_handler sig st =
     bind (strsignal sig) (\<lambda>d.
     seq (printf (''%s'' @ [NL]) [T d])
     (if sig = SIGINT then
        let c = int_cnt st + 1; st = st\<lparr>int_cnt := c\<rparr> in
        seq (printf (''caught signal is SIGINT: %d'' @ [NL]) [N c])
        (bind (if c = 3 then set_int Default ''SIG_DFL'' st else return st) (\<lambda>st.
         if c = 3 then set_int Ignored ''SIG_IGN'' st else return st))
      else if sig = SIGQUIT then
        seq (printf (''caught signal is SIGQUIT'' @ [NL]) [])
        (bind (sys (Sys ''signal'' [N SIGQUIT, T ''SIG_DFL''])) (\<lambda>r.
         let st = (if ret r = -1 then st else st\<lparr>quit_action := Default\<rparr>) in
         bind (sys (Sys ''raise'' [N SIGQUIT])) (\<lambda>_.
         if quit_action st = Default then stop (Killed SIGQUIT) else return st)))
      else return st))"

definition take_signal :: "int \<Rightarrow> basic \<Rightarrow> ('m, basic) prog" where
  "take_signal sig st =
     (case if sig = SIGINT then int_action st else if sig = SIGQUIT then quit_action st else Default of
        Handled \<Rightarrow> signal_handler sig st
      | Ignored \<Rightarrow> return st
      | Default \<Rightarrow> default_action sig st)"

definition signal_basic :: "('m, unit) prog" where
  "signal_basic =
     seq (or_errExit (Sys ''signal'' [N SIGINT, T ''signal_handler'']) ''signal(): SIGINT'' [])
     (bind (catching take_signal (Sys ''signal'' [N SIGQUIT, T ''signal_handler''])
        \<lparr>int_cnt = 0, int_action = Handled, quit_action = Default\<rparr>) (\<lambda>(q, st).
     seq (only_if (ret q = -1) (errExit ''signal(): SIGQUIT'' []))
     (bind (catching take_signal (Sys ''sigprocmask'' [N SIG_BLOCK, N SIGINT]) (st\<lparr>quit_action := Handled\<rparr>)) (\<lambda>(b, st).
     seq (only_if (ret b = -1) (errMsg ''sigprocmask(): set'' []))
     (bind (catching take_signal (Sys ''sleep'' [N 5]) st) (\<lambda>(_, st).
     bind (catching take_signal (Sys ''sigprocmask'' [N SIG_SETMASK]) st) (\<lambda>(u, st).
     seq (only_if (ret u = -1) (errMsg ''sigprocmask(): reset'' []))
     (pause_forever take_signal st))))))))"

subsection \<open>Masks and a jump out of a handler\<close>

definition print_sigset :: "int list \<Rightarrow> ('m, unit) prog" where
  "print_sigset sigset =
     bind (fold_each [1..NSIG - 1] (\<lambda>sig cnt.
        if sig \<in> set sigset then
          bind (strsignal sig) (\<lambda>d. seq (printf (''%d(%s)'' @ [NL]) [N sig, T d]) (return (cnt + 1)))
        else return cnt) 0) (\<lambda>cnt.
     only_if (cnt = (0::int)) (printf (''Empty signal set'' @ [NL]) []))"

definition print_sigmask :: "('m, int) prog" where
  "print_sigmask =
     bind (sys (Sys ''sigprocmask'' [N SIG_BLOCK, N NULL])) (\<lambda>m.
     if ret m = -1 then return (-1)
     else seq (print_sigset (rints m)) (return 0))"

definition show_mask :: "('m, unit) prog" where
  "show_mask = bind print_sigmask (\<lambda>r. only_if (r = -1) (errMsg ''print_sigmask'' []))"

text \<open>The handler answers whether it leaves by \<open>siglongjmp\<close>.\<close>

definition signal_handler_func :: "bool \<Rightarrow> int \<Rightarrow> ('m, bool) prog" where
  "signal_handler_func canjump sig =
     seq (printf (''signal mask at handler: '' @ [NL]) [])
     (seq show_mask
     (bind (strsignal sig) (\<lambda>d.
     seq (printf (''signal is %d(%s).'' @ [NL]) [N sig, T d])
     (if \<not> canjump then seq (printf (''env buffer not yet set.'' @ [NL]) []) (return False)
      else return True))))"

text \<open>After the jump \<open>sigsetjmp\<close> answers 1; the program then waits again. A signal the program handles
  abandons the \<open>pause\<close> it interrupts.\<close>

definition signal_longjmp :: "('m, unit) prog" where
  "signal_longjmp =
     seq (printf (''signal mask at start: '' @ [NL]) [])
     (seq show_mask
     (bind (catching (taking [SIGINT] (\<lambda>sig st. seq (signal_handler_func False sig) (return st)))
        (Sys ''sigaction'' [N SIGINT, T ''signal_handler_func'', N 0]) ()) (\<lambda>(a, _).
     seq (only_if (ret a = -1) (errExit (''sigaction'' @ [NL]) []))
     (loop (\<lambda>_.
        bind (sys (Sys ''deliver'' [])) (\<lambda>d.
        seq (if rints d = [] then seq (sys (Sys ''pause'' [])) skip
             else for_each (rints d) (\<lambda>sig. taking [SIGINT] (\<lambda>sig st.
               seq (signal_handler_func True sig)
               (seq (printf (''After jump from handler, signal mask is: '' @ [NL]) [])
               show_mask)) sig ()))
        (again ()))) ()))))"

definition signal_handler_func2 :: "int \<Rightarrow> unit \<Rightarrow> ('m, unit) prog" where
  "signal_handler_func2 sig st =
     bind (strsignal sig) (\<lambda>d. printf (''signal is %d(%s).'' @ [NL]) [N sig, T d])"

definition BUF_SIZE :: nat where "BUF_SIZE = 4096"

definition signal_restart :: "('m, unit) prog" where
  "signal_restart =
     seq (or_errExit (Sys ''sigaction'' [N SIGINT, T ''signal_handler_func2'', N SA_RESTART]) (''sigaction'' @ [NL]) [])
     (bind (catching (taking [SIGINT] signal_handler_func2) (Read 0 BUF_SIZE) ()) (\<lambda>(r, _).
     seq (printf (''read size = %d'' @ [NL]) [N (ret r)])
     (only_if (ret r = -1) (errExit ''read'' []))))"

subsection \<open>Real-time signals\<close>

text \<open>The fields of \<open>siginfo_t\<close> the code prints: code, value, sender.\<close>

definition print_siginfo :: "int list \<Rightarrow> ('m, unit) prog" where
  "print_siginfo si =
     (case si of
        [code, val, pid, uid] \<Rightarrow>
          seq (printf '' signal code = %d, '' [N code])
          (seq (printf (if code = SI_USER then ''SI_USER '' else if code = SI_QUEUE then ''SI_QUEUE '' else ''other '') [])
          (seq (printf ''signal value = %d '' [N val])
          (printf (''sender pid = %d, sender uid = %d'' @ [NL]) [N pid, N uid])))
      | _ \<Rightarrow> undef ''no signal information'')"

definition signal_realtime_handler :: "int \<Rightarrow> unit \<Rightarrow> ('m, unit) prog" where
  "signal_realtime_handler sig st =
     bind (sys (Sys ''siginfo'' [N sig])) (\<lambda>i.
     seq (printf (''caught signal: %d'' @ [NL]) [N sig])
     (print_siginfo (rints i)))"

text \<open>The signals below \<open>n\<close> that have got the handler; \<open>sigaction\<close> refuses it for \<open>SIGKILL\<close>, which the
  program does not look at.\<close>

definition realtime_signals :: "int \<Rightarrow> int list" where
  "realtime_signals n = filter (\<lambda>sig. sig \<noteq> SIGSTOP \<and> sig \<noteq> SIGQUIT \<and> sig \<noteq> SIGKILL) [1..n - 1]"

definition signal_realtime :: "('m, unit) prog" where
  "signal_realtime =
     seq (printf (''signal max: %d'' @ [NL]) [N SIGRTMAX])
     (seq (printf (''signal min: %d'' @ [NL]) [N SIGRTMIN])
     (seq (for_each [1..NSIG - 1] (\<lambda>sig.
        only_if (sig \<noteq> SIGSTOP \<and> sig \<noteq> SIGQUIT)
          (seq (catching (taking (realtime_signals sig) signal_realtime_handler) (Sys ''sigaction''
             [N sig, T ''signal_realtime_handler'', N (SA_RESTART OR SA_SIGINFO)]) ()) skip)))
     (pause_forever (taking (realtime_signals NSIG) signal_realtime_handler) ())))"

definition signal_sender :: "int \<Rightarrow> int \<Rightarrow> ('m, unit) prog" where
  "signal_sender pid sig =
     bind (sys (Sys ''sigqueue'' [N pid, N sig, N sig])) (\<lambda>r.
     only_if (ret r = -1) (perror (''sigqueue'' @ [NL])))"

definition atoi :: "string \<Rightarrow> int" where
  "atoi t = to_int32 (fst (strtol t 10))"

definition sender_main :: "string list \<Rightarrow> ('m, int) prog" where
  "sender_main argv =
     bind (argv_nth argv 1) (\<lambda>a.
     bind (argv_nth argv 2) (\<lambda>b.
     let pid = atoi a; sig = atoi b in
     seq (signal_sender pid sig)
     (seq (printf (''signal %d has been sent.'' @ [NL]) [N sig])
     (return 0))))"

subsection \<open>Waiting for a signal\<close>

text \<open>The handler sets the flag \<open>sigquit\<close>. The signals are blocked except in \<open>sigsuspend\<close> and in the last
  \<open>sigprocmask\<close>.\<close>

definition signal_suspend_handler :: "int \<Rightarrow> bool \<Rightarrow> ('m, bool) prog" where
  "signal_suspend_handler sig sigquit =
     bind (strsignal sig) (\<lambda>d.
     seq (printf (''[signal_handler]signal = %d(%s)'' @ [NL]) [N sig, T d])
     (return (if sig = SIGQUIT then True else sigquit)))"

definition signal_suspend :: "('m, unit) prog" where
  "signal_suspend =
     seq (or_errExit (Sys ''sigprocmask'' [N SIG_BLOCK, N SIGINT, N SIGQUIT]) ''sigprocmask()'' [])
     (seq (or_errExit (Sys ''sigaction'' [N SIGINT, T ''signal_suspend_handler'', N 0]) (''sigaction'' @ [NL]) [])
     (seq (or_errExit (Sys ''sigaction'' [N SIGQUIT, T ''signal_suspend_handler'', N 0]) (''sigaction'' @ [NL]) [])
     (bind (loop (\<lambda>(sigquit, i).
        if sigquit then leave sigquit
        else seq (printf (''loop count = %d'' @ [NL]) [N i])
          (seq (sleep 4)
          (bind (catching (taking [SIGINT, SIGQUIT] signal_suspend_handler) (Sys ''sigsuspend'' []) sigquit) (\<lambda>(r, sigquit).
           bind (gets errno) (\<lambda>e.
           seq (only_if (ret r = -1 \<and> e \<noteq> EINTR) (errExit ''sigsuspend()'' []))
           (again (sigquit, i + 1))))))) (False, 0)) (\<lambda>sigquit.
     bind (catching (taking [SIGINT, SIGQUIT] signal_suspend_handler) (Sys ''sigprocmask'' [N SIG_SETMASK]) sigquit) (\<lambda>(r, _).
     only_if (ret r = -1) (errExit ''sigprocmask()'' []))))))"

definition signal_suspend_sync :: "('m, unit) prog" where
  "signal_suspend_sync =
     seq (or_errExit (Sys ''sigprocmask'' [N SIG_SETMASK]) ''sigprocmask()'' [])
     (seq (sleep 5)
     (loop (\<lambda>_.
        bind (or_errExit (Sys ''sigwaitinfo'' []) ''sigwaitinfo()'' []) (\<lambda>w.
        let sig = ret w in
        seq (only_if (sig = SIGQUIT \<or> sig = SIGTERM) (stop (Exited EXIT_SUCCESS)))
        (bind (strsignal sig) (\<lambda>d.
        seq (printf (''[signal_handler]signal = %d(%s)'' @ [NL]) [N sig, T d])
        (seq (printf (''caught signal: %d'' @ [NL]) [N sig])
        (seq (print_siginfo (rints w))
        (again ()))))))) ()))"

subsection \<open>Parent and child\<close>

definition process_setpgid :: "('m, unit) prog" where
  "process_setpgid =
     seq (sys (Sys ''setbuf'' [N NULL]))
     (seq (or_errExit (Sys ''sigaction'' [N SIGHUP, T ''handler'', N 0]) ''sigaction'' [])
     (bind (sys Fork) (\<lambda>f.
     seq (only_if (ret f = 0) (seq (or_errExit (Sys ''setpgid'' [N 0, N 0]) ''setpgid'' []) skip))
     (bind (sys (Sys ''getpid'' [])) (\<lambda>p.
     bind (sys (Sys ''getppid'' [])) (\<lambda>q.
     bind (sys (Sys ''getpgrp'' [])) (\<lambda>g.
     bind (sys (Sys ''getsid'' [N 0])) (\<lambda>d.
     seq (printf (''PID = %ld, PPID = %ld, PGID = %ld, SID = %ld'' @ [NL]) [N (ret p), N (ret q), N (ret g), N (ret d)])
     (seq (sys (Sys ''alarm'' [N 30]))
     (loop (\<lambda>_.
        seq (catching (taking [SIGHUP] (\<lambda>sig st. printf (''SIGHUP signalled.'' @ [NL]) [])) (Sys ''pause'' []) ())
        (bind getpid (\<lambda>p.
         seq (printf (''PID=%ld caught SIGHUP'' @ [NL]) [N p])
         (again ())))) ()))))))))))"

definition SYNC_SIG :: int where "SYNC_SIG = SIGUSR1"

definition sync_handler :: "int \<Rightarrow> unit \<Rightarrow> ('m, unit) prog" where
  "sync_handler sig st = printf (''SYNC_SIG signaled.'' @ [NL]) []"

definition process_sync_by_signal :: "('m, unit) prog" where
  "process_sync_by_signal =
     seq (sys (Sys ''setbuf'' [N NULL]))
     (seq (or_errExit (Sys ''sigprocmask'' [N SIG_BLOCK, N SYNC_SIG]) ''sigprocmask()'' [])
     (seq (or_errExit (Sys ''sigaction'' [N SYNC_SIG, T ''signal_handler'', N SA_RESTART]) (''sigaction()'' @ [NL]) [])
     (bind (sys Fork) (\<lambda>f.
     if ret f = -1 then errExit ''fork()'' []
     else if ret f = 0 then
       seq (printf (''Do something child'' @ [CHR 0x27] @ ''s job for 2 seconds'' @ [NL]) [])
       (seq (sleep 2)
       (bind (sys (Sys ''getppid'' [])) (\<lambda>p.
        seq (sys (Sys ''kill'' [N (ret p), N SYNC_SIG]))
        (stop (Exited EXIT_SUCCESS)))))
     else
       seq (printf (''Wait child finishing his job...'' @ [NL]) [])
       (bind (catching (taking [SYNC_SIG] sync_handler) (Sys ''sigsuspend'' []) ()) (\<lambda>(r, _).
        bind (gets errno) (\<lambda>e.
        seq (only_if (ret r = -1 \<and> e \<noteq> EINTR) (errExit ''sigsuspend()'' []))
        (seq (printf (''Do something parent'' @ [CHR 0x27] @ ''s job..'' @ [NL]) [])
        (bind (catching (taking [SYNC_SIG] sync_handler) (Sys ''sigprocmask'' [N SIG_SETMASK]) ()) (\<lambda>(m, _).
         seq (only_if (ret m = -1) (errExit ''sigprocmask()'' []))
         (stop (Exited EXIT_SUCCESS))))))))))))"

subsection \<open>The order of blocking, sending and waiting\<close>

text \<open>
  The steps of parent and child of \<open>process_sync_by_signal\<close>. A signal that is sent becomes pending; it
  is delivered as soon as the mask of the parent lets it through: when \<open>SYNC_SIG\<close> is not in the mask, or
  while \<open>sigsuspend\<close> has replaced the mask by the empty one. A signal delivered outside \<open>sigsuspend\<close>
  runs the handler and is gone; without a handler it ends the parent.
\<close>

datatype parent_pc = P_block | P_install | P_fork | P_wait | P_suspended | P_job | P_unblock | P_done | P_killed

datatype child_pc = C_none | C_work | C_send | C_done

record sync =
  par :: parent_pc
  chi :: child_pc
  blocked :: bool
  installed :: bool
  pending_sync :: bool

inductive sync_step :: "sync \<Rightarrow> sync \<Rightarrow> bool" where
  block: "par S = P_block \<Longrightarrow> sync_step S (S\<lparr>par := P_install, blocked := True\<rparr>)"
| install: "par S = P_install \<Longrightarrow> sync_step S (S\<lparr>par := P_fork, installed := True\<rparr>)"
| fork: "par S = P_fork \<Longrightarrow> sync_step S (S\<lparr>par := P_wait, chi := C_work\<rparr>)"
| work: "chi S = C_work \<Longrightarrow> sync_step S (S\<lparr>chi := C_send\<rparr>)"
| send: "chi S = C_send \<Longrightarrow> sync_step S (S\<lparr>chi := C_done, pending_sync := True\<rparr>)"
| suspend: "par S = P_wait \<Longrightarrow> sync_step S (S\<lparr>par := P_suspended\<rparr>)"
| wake: "par S = P_suspended \<Longrightarrow> pending_sync S \<Longrightarrow> installed S \<Longrightarrow>
    sync_step S (S\<lparr>par := P_job, pending_sync := False\<rparr>)"
| handle: "par S \<noteq> P_suspended \<Longrightarrow> pending_sync S \<Longrightarrow> \<not> blocked S \<Longrightarrow> installed S \<Longrightarrow>
    sync_step S (S\<lparr>pending_sync := False\<rparr>)"
| die: "pending_sync S \<Longrightarrow> \<not> blocked S \<or> par S = P_suspended \<Longrightarrow> \<not> installed S \<Longrightarrow>
    sync_step S (S\<lparr>par := P_killed, pending_sync := False\<rparr>)"
| job: "par S = P_job \<Longrightarrow> sync_step S (S\<lparr>par := P_unblock\<rparr>)"
| unblock: "par S = P_unblock \<Longrightarrow> sync_step S (S\<lparr>par := P_done, blocked := False\<rparr>)"

definition sync_start :: sync where
  "sync_start = \<lparr>par = P_block, chi = C_none, blocked = False, installed = False, pending_sync = False\<rparr>"

text \<open>The signal waits for the parent from the moment it is sent until the parent is woken by it.\<close>

definition sync_inv :: "sync \<Rightarrow> bool" where
  "sync_inv S \<longleftrightarrow> (case par S of
       P_block \<Rightarrow> chi S = C_none \<and> \<not> pending_sync S
     | P_install \<Rightarrow> chi S = C_none \<and> \<not> pending_sync S \<and> blocked S
     | P_fork \<Rightarrow> chi S = C_none \<and> \<not> pending_sync S \<and> blocked S \<and> installed S
     | P_killed \<Rightarrow> False
     | p \<Rightarrow> chi S \<noteq> C_none \<and> installed S \<and> (p \<noteq> P_done \<longrightarrow> blocked S) \<and>
         (if p = P_wait \<or> p = P_suspended then pending_sync S \<longleftrightarrow> chi S = C_done
          else chi S = C_done \<and> \<not> pending_sync S))"

definition sync_weight :: "sync \<Rightarrow> nat" where
  "sync_weight S =
     (case par S of P_block \<Rightarrow> 20 | P_install \<Rightarrow> 19 | P_fork \<Rightarrow> 18 | P_wait \<Rightarrow> 5 | P_suspended \<Rightarrow> 4 | P_job \<Rightarrow> 3
        | P_unblock \<Rightarrow> 2 | P_done \<Rightarrow> 1 | P_killed \<Rightarrow> 0) +
     (case chi S of C_none \<Rightarrow> 0 | C_work \<Rightarrow> 6 | C_send \<Rightarrow> 4 | C_done \<Rightarrow> 0) + (if pending_sync S then 1 else 0)"

lemma sync_inv_start: "sync_inv sync_start"
  by (simp add: sync_inv_def sync_start_def)

lemma sync_inv_step: "sync_step S S' \<Longrightarrow> sync_inv S \<Longrightarrow> sync_inv S'"
  by (induction rule: sync_step.induct) (auto simp: sync_inv_def split: parent_pc.splits if_splits)

lemma sync_weight_decreases: "sync_step S S' \<Longrightarrow> sync_inv S \<Longrightarrow> sync_weight S' < sync_weight S"
  by (induction rule: sync_step.induct) (auto simp: sync_weight_def sync_inv_def split: parent_pc.splits)

text \<open>Who can move: the parent outside \<open>sigsuspend\<close>, the child until it has sent its signal, the signal
  while the parent is suspended.\<close>

lemma sync_stuck:
  assumes "sync_inv S" "\<And>S'. \<not> sync_step S S'"
  shows "par S = P_done \<and> chi S = C_done"
proof -
  have "par S \<notin> {P_block, P_install, P_fork, P_wait, P_job, P_unblock}" "chi S \<notin> {C_work, C_send}"
    using assms(2) by (blast intro: sync_step.intros)+
  moreover have "par S = P_suspended \<Longrightarrow> \<not> (pending_sync S \<and> installed S)"
    using assms(2) sync_step.wake by blast
  ultimately show ?thesis
    using assms(1) by (cases "par S"; cases "chi S") (auto simp: sync_inv_def)
qed

interpretation sync: terminating sync_step sync_inv sync_weight "\<lambda>S. par S = P_done \<and> chi S = C_done"
  by unfold_locales (blast intro: sync_inv_step sync_weight_decreases dest: sync_stuck)+

subsection \<open>What a handler may do\<close>

text \<open>
  The contract of a handler under \<open>catching\<close>: \<open>G st out es\<close> says what handling from the state \<open>st\<close> may
  end with and add to the trace. It has to hold of one handled signal of the set \<open>A\<close>, of no step and of a
  system call, and to compose. Then it holds of everything the waiting program does.
\<close>

lemma bind_assoc: "bind (bind m f) g = bind m (\<lambda>a. bind (f a) g)"
  by (rule ext) (simp add: bind_def split: prod.splits outcome.splits)

locale handling =
  fixes h :: "int \<Rightarrow> 'st \<Rightarrow> ('m, 'st) prog"
    and A :: "int set"
    and K :: "event \<Rightarrow> bool"
    and G :: "'st \<Rightarrow> 'st outcome \<Rightarrow> event list \<Rightarrow> bool"
  assumes handles: "sig \<in> A \<Longrightarrow> traced K (h sig st) (G st)"
    and tame_h: "tame (h sig st)"
    and delivers: "K (Did (Sys ''deliver'' []) r) \<Longrightarrow> set (rints r) \<subseteq> A"
    and idle: "G st (Ok st) []" "G st (Stop Blocked) []"
    and calls: "G st (Ok st) [Did c r]"
    and compose: "G st (Ok st1) es \<Longrightarrow> G st1 out fs \<Longrightarrow> G st out (es @ fs)"
begin

lemma traced_deliveries: "set sigs \<subseteq> A \<Longrightarrow> traced K (fold_each sigs h st) (G st)"
proof (induction sigs arbitrary: st)
  case Nil
  show ?case by (simp add: traced_return idle)
next
  case (Cons x xs)
  then have "x \<in> A" "set xs \<subseteq> A" by auto
  show ?case
    by simp (rule traced_bind [OF handles [OF \<open>x \<in> A\<close>] tame_h tame_fold_each [OF tame_h]];
      blast intro: compose traced_mono [OF Cons.IH [OF \<open>set xs \<subseteq> A\<close>]])
qed

lemma traced_catching:
  "traced K (catching h c st) (\<lambda>out es. case out of Ok (r, st') \<Rightarrow> G st (Ok st') es \<and> K (Did c r)
     | Stop x \<Rightarrow> G st (Stop x) es)"
  unfolding catching_def
proof (rule traced_bind [OF traced_sys]; (intro tame_rules tame_h)?)
  fix d es
  assume "Ok d = Stop Blocked \<and> es = [] \<or> (\<exists>r. Ok d = Ok r \<and> es = [Did (Sys ''deliver'' []) r] \<and> K (Did (Sys ''deliver'' []) r))"
  then have d: "es = [Did (Sys ''deliver'' []) d]" "set (rints d) \<subseteq> A" using delivers by auto
  show "traced K (bind (fold_each (rints d) h st) (\<lambda>st. bind (sys c) (\<lambda>r. return (r, st))))
      (\<lambda>out fs. case out of Ok (r, st') \<Rightarrow> G st (Ok st') (es @ fs) \<and> K (Did c r) | Stop x \<Rightarrow> G st (Stop x) (es @ fs))"
  proof (rule traced_bind [OF traced_deliveries [OF d(2)]]; (intro tame_rules tame_h)?)
    fix st1 fs
    assume g: "G st (Ok st1) fs"
    then have g1: "G st (Ok st1) (es @ fs)" using compose [OF calls] d(1) by fastforce
    then have g2: "G st (Ok st1) (es @ fs @ [Did c r])" "G st (Stop Blocked) (es @ fs)" for r
      using compose [OF g1 calls] compose [OF g1 idle(2)] by simp_all
    show "traced K (bind (sys c) (\<lambda>r. return (r, st1)))
      (\<lambda>out gs. case out of Ok (r, st') \<Rightarrow> G st (Ok st') (es @ fs @ gs) \<and> K (Did c r) | Stop x \<Rightarrow> G st (Stop x) (es @ fs @ gs))"
      by (rule traced_bind [OF traced_sys]; (intro tame_rules)?) (auto simp: g2 intro!: traced_return)
  next
    fix x fs
    assume "G st (Stop x) fs"
    then show "case Stop x of Ok (r, st') \<Rightarrow> G st (Ok st') (es @ fs) \<and> K (Did c r) | Stop x \<Rightarrow> G st (Stop x) (es @ fs)"
      using compose [OF calls] d(1) by fastforce
  qed
qed (use idle in auto)

lemma tame_catching: "tame (catching h c st)"
  unfolding catching_def by (intro tame_rules tame_h)

lemma traced_pause_forever:
  "traced K (pause_forever h st) (\<lambda>out es. case out of Ok _ \<Rightarrow> False | Stop x \<Rightarrow> G st (Stop x) es)"
  unfolding pause_forever_def
proof (rule traced_loop [where I = "\<lambda>st1 es. G st (Ok st1) es"])
  fix st1 es
  assume g: "G st (Ok st1) es"
  show "traced K (bind (catching h (Sys ''pause'' []) st1) (\<lambda>(r, st). again st)) (\<lambda>out fs. case out of
      Ok (Inl a) \<Rightarrow> G st (Ok a) (es @ fs) | Ok (Inr b) \<Rightarrow> (case Ok b of Ok _ \<Rightarrow> False | Stop x \<Rightarrow> G st (Stop x) (es @ fs))
        | Stop x \<Rightarrow> (case Stop x of Ok _ \<Rightarrow> False | Stop x \<Rightarrow> G st (Stop x) (es @ fs)))"
    by (rule traced_bind [OF traced_catching tame_catching])
      (auto intro!: tame_rules traced_again compose [OF g])
next
  show "consumes (bind (catching h (Sys ''pause'' []) a) (\<lambda>(r, st). again st))" for a
    unfolding catching_def
    by (unfold bind_assoc) (rule consumes_sys, intro tame_rules tame_h)
next
  show "G st (Ok st) []" by (rule idle)
qed (intro tame_rules tame_catching)

end

lemma traced_wp_if:
  assumes "\<And>s. wp m (\<lambda>out s'. \<exists>es. trace s' = trace s @ es \<and> (list_all K es \<longrightarrow> Q out es)) s"
  shows "traced K m Q"
  unfolding traced_def by (auto dest!: wpD [OF assms])

subsection \<open>The handler of \<open>signal_basic\<close>\<close>

text \<open>The numbers the handler prints for \<open>SIGINT\<close>.\<close>

definition int_numbers :: "event list \<Rightarrow> int list" where
  "int_numbers es = concat (map (\<lambda>e. case e of
       Out f [N n] \<Rightarrow> (if f = ''caught signal is SIGINT: %d'' @ [NL] then [n] else [])
     | _ \<Rightarrow> []) es)"

lemma int_numbers_simps [simp]:
  "int_numbers [] = []" "int_numbers (xs @ ys) = int_numbers xs @ int_numbers ys"
  "int_numbers [Did c r] = []" "int_numbers (Did c r # es) = int_numbers es"
  "int_numbers (Out (''caught signal is SIGINT: %d'' @ [NL]) [N n] # es) = n # int_numbers es"
  "int_numbers (Out (''%s'' @ [NL]) as # es) = int_numbers es"
  "int_numbers (Out (''caught signal is SIGQUIT'' @ [NL]) as # es) = int_numbers es"
  by (simp_all add: int_numbers_def split: list.splits carg.splits)

lemma int_numbers_diagnostics: "list_all is_diagnostic es \<Longrightarrow> int_numbers es = []"
  by (induction es) (auto simp: int_numbers_def is_diagnostic_def split: event.splits)

text \<open>Of the two signals only those of \<open>A\<close> arrive, and \<open>signal\<close> accepts what POSIX lets it accept.\<close>

definition basic_env :: "int set \<Rightarrow> event \<Rightarrow> bool" where
  "basic_env A e = (case e of
     Did (Sys c as) r \<Rightarrow> (c = ''deliver'' \<longrightarrow> set (rints r) \<subseteq> A \<inter> {SIGINT, SIGQUIT}) \<and> (c = ''signal'' \<longrightarrow> ret r \<noteq> -1)
   | _ \<Rightarrow> True)"

definition counted :: "basic \<Rightarrow> bool" where
  "counted st \<longleftrightarrow> 0 \<le> int_cnt st \<and> int_cnt st \<le> 3 \<and> int_action st = (if int_cnt st < 3 then Handled else Ignored)"

definition basic_ok :: "int set \<Rightarrow> basic \<Rightarrow> basic outcome \<Rightarrow> event list \<Rightarrow> bool" where
  "basic_ok A st out es \<longleftrightarrow> (counted st \<longrightarrow>
     (case out of
        Ok st' \<Rightarrow> counted st' \<and> int_cnt st \<le> int_cnt st' \<and> int_numbers es = [int_cnt st + 1..int_cnt st']
      | Stop x \<Rightarrow> (x = Blocked \<or> x = Killed SIGQUIT \<and> SIGQUIT \<in> A) \<and>
          (let n = int_cnt st + int (length (int_numbers es)) in n \<le> 3 \<and> int_numbers es = [int_cnt st + 1..n])))"

lemma upto_join: "a \<le> b \<Longrightarrow> b \<le> c \<Longrightarrow> [a + 1..b] @ [b + 1..c] = [a + 1..(c::int)]"
  using upto_split2 [of "a + 1" b c] by (cases "a = b") auto

lemma upto_more: "a \<le> b \<Longrightarrow> xs = [b + 1..b + int (length xs)] \<Longrightarrow> [a + 1..b] @ xs = [a + 1..b + int (length xs)]"
  using upto_join [of a b "b + int (length xs)"] by simp

lemma basic_ok_compose:
  "basic_ok A st (Ok st1) es \<Longrightarrow> basic_ok A st1 out fs \<Longrightarrow> basic_ok A st out (es @ fs)"
  by (cases out) (auto simp: basic_ok_def Let_def counted_def upto_join intro: upto_more split: if_splits)

lemma tame_take_signal: "tame (take_signal sig st)"
  unfolding take_signal_def signal_handler_def set_int_def strsignal_def default_action_def
  by (auto split: action.splits intro!: tame_rules)

lemmas signal_numbers = SIGINT_def SIGQUIT_def

lemma wp_action: "wp (case a of Handled \<Rightarrow> m | Ignored \<Rightarrow> n | Default \<Rightarrow> p) Q s =
    (case a of Handled \<Rightarrow> wp m Q s | Ignored \<Rightarrow> wp n Q s | Default \<Rightarrow> wp p Q s)"
  by (cases a) simp_all

lemma traced_take_signal:
  assumes "sig \<in> A \<inter> {SIGINT, SIGQUIT}"
  shows "traced (basic_env A) (take_signal sig st) (basic_ok A st)"
proof (rule traced_wp_if)
  fix s :: "'a proc_scheme"
  have *: "wp (take_signal n st)
      (\<lambda>out s'. \<exists>es. trace s' = trace s @ es \<and> (list_all (basic_env A) es \<longrightarrow> basic_ok A st out es)) s"
    if "n = 2 \<or> n = 3 \<and> 3 \<in> A" for n
    using that
    unfolding take_signal_def signal_handler_def set_int_def strsignal_def default_action_def signal_numbers
    by (auto simp: wp_rules wp_action wp_errExit [OF cformat_plain] default_ignores_def basic_ok_def counted_def
      basic_env_def signal_numbers int_numbers_def Let_def split: list.splits action.splits cong: wp_cong)
  show "wp (take_signal sig st)
      (\<lambda>out s'. \<exists>es. trace s' = trace s @ es \<and> (list_all (basic_env A) es \<longrightarrow> basic_ok A st out es)) s"
    using assms by (intro *) (auto simp: signal_numbers)
qed

interpretation basic: handling take_signal "A \<inter> {SIGINT, SIGQUIT}" "basic_env A" "basic_ok A" for A
proof unfold_locales
  show "traced (basic_env A) (take_signal sig st) (basic_ok A st)" if "sig \<in> A \<inter> {SIGINT, SIGQUIT}" for sig st
    using that by (rule traced_take_signal)
  show "basic_ok A st out (es @ fs)" if "basic_ok A st (Ok st1) es" "basic_ok A st1 out fs" for st st1 out es fs
    using that by (rule basic_ok_compose)
qed (auto simp: tame_take_signal basic_env_def, auto simp: basic_ok_def counted_def)

text \<open>The steps of \<open>signal_basic\<close> in front of its loop.\<close>

lemma traced_or_errExit:
  assumes "CHR ''%'' \<notin> set f" "\<And>r. K (Did c r) \<Longrightarrow> ret r \<noteq> -1"
  shows "traced K (or_errExit c f []) (\<lambda>out es. out = Stop Blocked \<and> es = [] \<or> (\<exists>r. out = Ok r \<and> es = [Did c r]))"
  by (rule traced_wp_if) (use assms in \<open>auto simp: wp_or_errExit [OF cformat_plain] split: list.splits\<close>)

lemma traced_complaint:
  assumes "CHR ''%'' \<notin> set f"
  shows "traced K (only_if b (errMsg f [])) (\<lambda>out es. out = Ok () \<and> int_numbers es = [])"
  by (rule traced_wp_if)
    (use assms in \<open>auto simp: wp_rules wp_errMsg [OF cformat_plain] int_numbers_def\<close>)

definition basic_rest :: "basic \<Rightarrow> ('m, unit) prog" where
  "basic_rest st =
     bind (catching take_signal (Sys ''sigprocmask'' [N SIG_BLOCK, N SIGINT]) st) (\<lambda>(b, st).
     seq (only_if (ret b = -1) (errMsg ''sigprocmask(): set'' []))
     (bind (catching take_signal (Sys ''sleep'' [N 5]) st) (\<lambda>(_, st).
     bind (catching take_signal (Sys ''sigprocmask'' [N SIG_SETMASK]) st) (\<lambda>(u, st).
     seq (only_if (ret u = -1) (errMsg ''sigprocmask(): reset'' []))
     (pause_forever take_signal st)))))"

text \<open>A wait in front of more of the program.\<close>

lemma traced_wait:
  assumes "\<And>r st' fs. traced (basic_env A) (f r st') (\<lambda>out es. case out of Ok _ \<Rightarrow> False | Stop x \<Rightarrow> basic_ok A st' (Stop x) es)"
    and "\<And>r st'. tame (f r st')"
  shows "traced (basic_env A) (bind (catching take_signal c st) (\<lambda>(r, st'). f r st'))
    (\<lambda>out es. case out of Ok _ \<Rightarrow> False | Stop x \<Rightarrow> basic_ok A st (Stop x) es)"
proof (rule traced_bind [OF basic.traced_catching basic.tame_catching])
  show "tame (case a of (r, st') \<Rightarrow> f r st')" for a
    using assms(2) by (intro tame_rules)
next
  fix a es
  assume a: "case Ok a of Ok (r, st') \<Rightarrow> basic_ok A st (Ok st') es \<and> basic_env A (Did c r) | Stop x \<Rightarrow> basic_ok A st (Stop x) es"
  obtain r st' where "a = (r, st')" by fastforce
  with a show "traced (basic_env A) (case a of (r, st') \<Rightarrow> f r st')
      (\<lambda>out fs. case out of Ok _ \<Rightarrow> False | Stop x \<Rightarrow> basic_ok A st (Stop x) (es @ fs))"
    by (auto intro!: traced_mono [OF assms(1)] basic_ok_compose split: outcome.splits)
qed simp

lemma traced_complain:
  assumes "CHR ''%'' \<notin> set f" "tame m"
    "traced (basic_env A) m (\<lambda>out es. case out of Ok _ \<Rightarrow> False | Stop x \<Rightarrow> basic_ok A st (Stop x) es)"
  shows "traced (basic_env A) (seq (only_if b (errMsg f [])) m)
    (\<lambda>out es. case out of Ok _ \<Rightarrow> False | Stop x \<Rightarrow> basic_ok A st (Stop x) es)"
  by (rule traced_seq [OF traced_complaint [OF assms(1)] _ assms(2)])
    (auto intro!: tame_rules traced_mono [OF assms(3)] simp: basic_ok_def split: outcome.splits)

lemma tame_pause_forever: "tame (pause_forever take_signal st)"
  unfolding pause_forever_def by (intro tame_rules basic.tame_catching)

lemma traced_basic_rest:
  "traced (basic_env A) (basic_rest st) (\<lambda>out es. case out of Ok _ \<Rightarrow> False | Stop x \<Rightarrow> basic_ok A st (Stop x) es)"
  unfolding basic_rest_def
  by (intro traced_wait traced_complain tame_rules tame_pause_forever basic.tame_catching basic.traced_pause_forever; simp)

lemma basic_ok_quit_action [simp]: "basic_ok A (st\<lparr>quit_action := a\<rparr>) (Stop x) es = basic_ok A st (Stop x) es"
  by (simp add: basic_ok_def counted_def)

lemma not_only_if: "seq (only_if False m) n = n"
  by (rule ext) (simp add: seq_def only_if_def skip_def bind_def return_def)

lemma signal_basic_eq:
  "signal_basic =
     seq (or_errExit (Sys ''signal'' [N SIGINT, T ''signal_handler'']) ''signal(): SIGINT'' [])
     (bind (catching take_signal (Sys ''signal'' [N SIGQUIT, T ''signal_handler''])
        \<lparr>int_cnt = 0, int_action = Handled, quit_action = Default\<rparr>) (\<lambda>(q, st).
     seq (only_if (ret q = -1) (errExit ''signal(): SIGQUIT'' [])) (basic_rest (st\<lparr>quit_action := Handled\<rparr>))))"
  unfolding signal_basic_def basic_rest_def ..

lemma tame_basic_rest: "tame (basic_rest st)"
  unfolding basic_rest_def by (intro tame_rules tame_pause_forever basic.tame_catching)

lemma traced_signal_basic:
  "traced (basic_env A) signal_basic (\<lambda>out es. case out of Ok _ \<Rightarrow> False
     | Stop x \<Rightarrow> basic_ok A \<lparr>int_cnt = 0, int_action = Handled, quit_action = Default\<rparr> (Stop x) es)"
  unfolding signal_basic_eq
proof (rule traced_seq [OF traced_or_errExit])
  fix a es
  let ?st = "\<lparr>int_cnt = 0, int_action = Handled, quit_action = Default\<rparr>"
  let ?q = "Sys ''signal'' [N SIGQUIT, T ''signal_handler'']"
  assume "Ok a = Stop Blocked \<and> es = [] \<or> (\<exists>r. Ok a = Ok r \<and> es = [Did (Sys ''signal'' [N SIGINT, T ''signal_handler'']) r])"
  then have es: "basic_ok A ?st (Ok ?st) es" by (auto simp: basic_ok_def counted_def)
  show "traced (basic_env A) (bind (catching take_signal ?q ?st)
      (\<lambda>(q, st). seq (only_if (ret q = -1) (errExit ''signal(): SIGQUIT'' [])) (basic_rest (st\<lparr>quit_action := Handled\<rparr>))))
    (\<lambda>out fs. case out of Ok _ \<Rightarrow> False | Stop x \<Rightarrow> basic_ok A ?st (Stop x) (es @ fs))"
  proof (rule traced_bind [OF basic.traced_catching basic.tame_catching])
    fix b fs
    assume b: "case Ok b of Ok (r, st') \<Rightarrow> basic_ok A ?st (Ok st') fs \<and> basic_env A (Did ?q r) | Stop x \<Rightarrow> basic_ok A ?st (Stop x) fs"
    obtain r st' where r: "b = (r, st')" by fastforce
    with b have "ret r \<noteq> -1" "basic_ok A ?st (Ok st') (es @ fs)"
      using basic_ok_compose [OF es] by (auto simp: basic_env_def)
    then show "traced (basic_env A) (case b of (q, st) \<Rightarrow>
        seq (only_if (ret q = -1) (errExit ''signal(): SIGQUIT'' [])) (basic_rest (st\<lparr>quit_action := Handled\<rparr>)))
      (\<lambda>out gs. case out of Ok _ \<Rightarrow> False | Stop x \<Rightarrow> basic_ok A ?st (Stop x) (es @ fs @ gs))"
      using r basic_ok_compose [of A ?st st' "es @ fs"]
      by (auto simp: not_only_if intro!: traced_mono [OF traced_basic_rest] split: outcome.splits)
  next
    fix x fs
    assume "case Stop x of Ok (r, st') \<Rightarrow> basic_ok A ?st (Ok st') fs \<and> basic_env A (Did ?q r) | Stop x \<Rightarrow> basic_ok A ?st (Stop x) fs"
    then show "case Stop x of Ok _ \<Rightarrow> False | Stop x \<Rightarrow> basic_ok A ?st (Stop x) (es @ fs)"
      using basic_ok_compose [OF es] by simp
  qed (intro tame_rules tame_basic_rest)
qed (auto simp: basic_env_def basic_ok_def counted_def intro!: tame_rules tame_basic_rest basic.tame_catching)


definition sig_reply :: "int list \<Rightarrow> reply" where
  "sig_reply sigs = (r_ok 0)\<lparr>rints := sigs\<rparr>"


text \<open>C31. \<open>process_sync_by_signal\<close>: whenever the child sends its signal, before the parent waits or after, the
  parent is neither killed by it nor left waiting: it does its own job only after the child has done its
  work, no interleaving gets stuck, and every run ends with both processes done.\<close>

theorem sync_signal_not_lost:
  assumes "sync_step\<^sup>*\<^sup>* sync_start S"
  shows "par S \<noteq> P_killed \<and> (par S \<in> {P_job, P_unblock, P_done} \<longrightarrow> chi S = C_done) \<and>
    (par S = P_done \<and> chi S = C_done \<or> (\<exists>S'. sync_step S S')) \<and>
    (\<forall>S'. sync_step S S' \<longrightarrow> sync_weight S' < sync_weight S)"
proof -
  from sync.inv_run [OF assms sync_inv_start]
  have "par S \<noteq> P_killed \<and> (par S \<in> {P_job, P_unblock, P_done} \<longrightarrow> chi S = C_done)"
    by (auto simp: sync_inv_def)
  with sync.final_or_step [OF assms sync_inv_start] sync.weight_run [OF assms sync_inv_start]
  show ?thesis by blast
qed

theorem sync_signal_not_lost_witness: "\<exists>S'. sync_step sync_start S'"
  using sync_signal_not_lost [of sync_start] by (auto simp: sync_start_def)

end
