(* ===== verification/AltIO.thy ===== *)
theory AltIO
  imports Signals
begin

text \<open>
  Alternative I/O models, \<open>LinuxAPI2/alt_io_sample.c\<close>, and file locks, \<open>LinuxAPI2/file_lock.c\<close>.
\<close>

subsection \<open>\<open>select\<close> and \<open>poll\<close>\<close>

text \<open>The sets \<open>select\<close> leaves behind are flag words in the reply: the readable, then the writable
  descriptors.\<close>

definition isset :: "nat \<Rightarrow> int \<Rightarrow> bool" where
  "isset fd w \<longleftrightarrow> bit w fd"

definition alt_io_select :: "('m, unit) prog" where
  "alt_io_select =
     (let nfds = 1 in
     bind (or_errExit (Sys ''select'' [N nfds, N 1, N 0, N NULL, N 10, N 0]) ''select()'' []) (\<lambda>r.
     seq (printf (''ready = %d'' @ [NL]) [N (ret r)])
     (for_each [0..<nat nfds] (\<lambda>fd.
        printf (''%d: %s%s'' @ [NL])
          [N (int fd), T (if isset fd (out_int r 0) then ''r'' else []), T (if isset fd (out_int r 1) then ''w'' else [])]))))"

definition POLLIN :: int where "POLLIN = 1"

text \<open>\<open>errExit ("write(): %d")\<close> has a conversion and no argument.\<close>

definition alt_io_poll :: "('m, unit) prog" where
  "alt_io_poll =
     (let numpipes = 10 in
     seq (sys (Sys ''calloc'' [N numpipes, N 8]))
     (bind (fold_each [0..<nat numpipes] (\<lambda>i pfds.
        bind (or_errExit Pipe ''pipe()'' []) (\<lambda>p. return (pfds @ [(out_int p 0, out_int p 1)]))) []) (\<lambda>pfds.
     seq (sys (Sys ''calloc'' [N numpipes, N 8]))
     (seq (or_errExit (Write (snd (pfds ! 5)) (lit ''a'')) ''write(): %d'' [])
     (seq (or_errExit (Write (snd (pfds ! 6)) (lit ''a'')) ''write(): %d'' [])
     (bind (or_errExit (Sys ''poll'' (concat (map (\<lambda>p. [N (fst p), N POLLIN]) pfds) @ [N numpipes, N 0])) ''ready()'' []) (\<lambda>r.
     printf (''poll() returned: %d'' @ [NL]) [N (ret r)])))))))"

subsection \<open>Signal driven input\<close>

definition SIG_BUF_SIZE :: nat where "SIG_BUF_SIZE = 5"

definition sigio_handler :: "int \<Rightarrow> int \<Rightarrow> ('m, int) prog" where
  "sigio_handler sig got_sig_io = return 1"

text \<open>\<open>SIGIO\<close> is delivered at a call of \<open>sleep\<close> or \<open>read\<close>; one that arrives between the test of
  \<open>got_sig_io\<close> and these calls has the effect of one delivered at the call before or behind it. The
  handler is installed with \<open>SA_RESTART\<close>, so the interrupted \<open>read\<close> answers after it has run.\<close>

definition drain_input :: "cbuf \<Rightarrow> int \<Rightarrow> ('m, cbuf \<times> int) prog" where
  "drain_input buf got_sig_io =
     loop (\<lambda>(buf, got_sig_io).
       bind (sys (Sys ''deliver'' [])) (\<lambda>d.
       bind (fold_each (rints d) (taking [SIGIO] sigio_handler) got_sig_io) (\<lambda>got_sig_io.
       bind (read_into STDIN_FILENO buf 0 SIG_BUF_SIZE) (\<lambda>(n, buf).
       if \<not> n > 0 then leave (buf, got_sig_io)
       else bind (require (buf ! 0) ''uninitialised byte'') (\<lambda>c.
         if c = NL then leave (buf, got_sig_io)
         else bind (store buf 5 [NUL]) (\<lambda>buf.
           bind (load_string buf) (\<lambda>text.
           seq (printf (''read = %s'' @ [NL]) [T text])
           (again (buf, got_sig_io)))))))))
       (buf, got_sig_io)"

definition alt_io_signal :: "('m, unit) prog" where
  "alt_io_signal =
     seq (or_errExit (Sys ''sigaction'' [N SIGIO, T ''sigio_handler'', N SA_RESTART]) ''sigaction()'' [])
     (bind (sys (Sys ''getpid'' [])) (\<lambda>p.
     seq (or_errExit (Sys ''fcntl'' [N STDIN_FILENO, N F_SETOWN, N (ret p)]) ''fcntl()'' [])
     (bind (sys (Sys ''fcntl'' [N STDIN_FILENO, N F_GETFL])) (\<lambda>fl.
     seq (or_errExit (Sys ''fcntl'' [N STDIN_FILENO, N F_SETFL, N (ret fl OR O_ASYNC OR O_NONBLOCK)]) ''fcntl()'' [])
     (loop (\<lambda>(buf, got_sig_io).
        bind (catching (taking [SIGIO] sigio_handler) (Sys ''sleep'' [N 1]) got_sig_io) (\<lambda>(_, got_sig_io).
        if got_sig_io \<noteq> 0 then bind (drain_input buf 0) again
        else again (buf, got_sig_io)))
        (uninit (SIG_BUF_SIZE + 1), 0))))))"

subsection \<open>\<open>epoll\<close>\<close>

definition MAX_BUF :: nat where "MAX_BUF = 1000"
definition FD_COUNT :: nat where "FD_COUNT = 2"
definition MAX_EVENTS :: int where "MAX_EVENTS = 5"
definition EPOLLIN :: int where "EPOLLIN = 1"
definition EPOLLERR :: int where "EPOLLERR = 8"
definition EPOLLHUP :: int where "EPOLLHUP = 16"
definition EPOLL_CTL_ADD :: int where "EPOLL_CTL_ADD = 1"

text \<open>\<open>evlist\<close>: descriptor and events of each entry, as \<open>epoll_wait\<close> stored them.\<close>

fun evlist :: "int list \<Rightarrow> (int \<times> int) list" where
  "evlist (fd # ev # rest) = (fd, ev) # evlist rest"
| "evlist _ = []"

text \<open>\<open>%.*s\<close> prints at most \<open>n\<close> bytes, and with a negative precision the whole string.\<close>

definition printed :: "int \<Rightarrow> cbuf \<Rightarrow> string option" where
  "printed n b = (if n < 0 then cstr b else cstr (take (nat n) b @ [Some NUL]))"

definition epoll_entry :: "int \<times> int \<Rightarrow> int \<times> cbuf \<Rightarrow> ('m, int \<times> cbuf) prog" where
  "epoll_entry e st = (case e of (fd, ev) \<Rightarrow> case st of (numopendfds, buf) \<Rightarrow>
     seq (printf (''fd = %d, events: %s%s%s'' @ [NL]) [N fd,
            T (if int_has ev EPOLLIN then ''EPOLLIN '' else []),
            T (if int_has ev EPOLLHUP then ''EPOLLHUP '' else []),
            T (if int_has ev EPOLLERR then ''EPOLLERR '' else [])])
     (if int_has ev EPOLLIN then
        bind (read_into fd buf 0 MAX_BUF) (\<lambda>(n, buf).
        bind (require (printed n buf) ''uninitialised bytes'') (\<lambda>text.
        seq (printf ([TAB] @ ''read %ld bytes = %.*s'' @ [NL]) [N n, N n, T text])
        (return (numopendfds, buf))))
      else if int_has ev (EPOLLHUP OR EPOLLERR) then
        seq (printf ([TAB] @ ''closing fd %d'' @ [NL]) [N fd])
        (seq (or_errExit (Close fd) ''close()'' [])
        (return (numopendfds - 1, buf)))
      else return (numopendfds, buf)))"

definition epoll_round :: "int \<Rightarrow> int \<times> cbuf \<Rightarrow> ('m, (int \<times> cbuf) + unit) prog" where
  "epoll_round epfd st =
     (if \<not> fst st > 0 then leave ()
      else bind (sys (Sys ''epoll_wait'' [N epfd, N MAX_EVENTS, N (-1)])) (\<lambda>r.
        if ret r = -1 then
          bind (gets errno) (\<lambda>e. if e = EINTR then again st else errExit ''epoll_wait()'' [])
        else
          seq (printf (''ready = %d'' @ [NL]) [N (ret r)])
          (bind (fold_each (take (nat (ret r)) (evlist (rints r))) epoll_entry st) again)))"

definition alt_io_epoll :: "('m, unit) prog" where
  "alt_io_epoll =
     bind (sys (Sys ''epoll_create'' [N 2])) (\<lambda>ep.
     seq (for_each [1..<FD_COUNT + 1] (\<lambda>i.
        bind (require (cformat ''test%d'' [N (int i)]) ''sprintf'') (\<lambda>name.
        bind (require (c_strcpy (uninit 6) name) ''sprintf'') (\<lambda>_.
        bind (or_errExit (Open name O_RDONLY None) ''open()'' []) (\<lambda>f.
        seq (printf (''Opened \"%s\" on fd %d'' @ [NL]) [T name, N (ret f)])
        (seq (or_errExit (Sys ''epoll_ctl'' [N (ret ep), N EPOLL_CTL_ADD, N (ret f), N EPOLLIN]) ''epoll_ctl()'' [])
        skip))))))
     (seq (loop (epoll_round (ret ep)) (2, uninit MAX_BUF))
     (printf (''All file descriptors was closed'' @ [NL]) [])))"

text \<open>\<open>LinuxAPI2/main.c\<close>: everything but this call is commented out.\<close>

definition main_LinuxAPI2 :: "string list \<Rightarrow> ('m, int) prog" where
  "main_LinuxAPI2 argv = seq alt_io_epoll (return 0)"

subsection \<open>File locks\<close>

definition LOCK_SH :: int where "LOCK_SH = 1"
definition LOCK_EX :: int where "LOCK_EX = 2"
definition LOCK_UN :: int where "LOCK_UN = 8"
definition EWOULDBLOCK :: int where "EWOULDBLOCK = EAGAIN"
definition F_GETLK :: int where "F_GETLK = 5"

text \<open>Without an option \<open>lock\<close> is never set.\<close>

definition file_lock_flock :: "('m, unit) prog" where
  "file_lock_flock =
     bind (sys (Sys ''getopt'' [T ''se''])) (\<lambda>opt.
     let lock = (if ret opt = 115 then Some LOCK_SH else if ret opt = 101 then Some LOCK_EX else None) in
     bind (or_errExit (Open ''sample'' O_RDONLY None) ''open()'' []) (\<lambda>f.
     bind (require lock ''uninitialised lock'') (\<lambda>lock.
     bind (sys (Sys ''flock'' [N (ret f), N lock])) (\<lambda>r.
     bind (gets errno) (\<lambda>e.
     seq (only_if (ret r = -1)
            (if e = EWOULDBLOCK then fatal (''file is locked already.'' @ [NL]) [] else errExit ''flock()'' []))
     (seq (printf (''lock(type = %d) was acquired.'' @ [NL]) [N lock])
     (seq (sys (Sys ''sleep'' [N 10]))
     (seq (or_errExit (Sys ''flock'' [N (ret f), N LOCK_UN]) ''flock()'' [])
     skip))))))))"

definition lock_region :: "int \<Rightarrow> int \<Rightarrow> int \<Rightarrow> int \<Rightarrow> int \<Rightarrow> int \<Rightarrow> ('m, int) prog" where
  "lock_region fd cmd type whence start len =
     bind (sys (Sys ''fcntl'' [N fd, N cmd, N type, N whence, N start, N len])) (\<lambda>r. return (ret r))"

definition lock_region_nblock :: "int \<Rightarrow> int \<Rightarrow> int \<Rightarrow> int \<Rightarrow> int \<Rightarrow> ('m, int) prog" where
  "lock_region_nblock fd type whence start len = lock_region fd F_SETLK type whence start len"

definition lock_region_block :: "int \<Rightarrow> int \<Rightarrow> int \<Rightarrow> int \<Rightarrow> int \<Rightarrow> ('m, int) prog" where
  "lock_region_block fd type whence start len = lock_region fd F_SETLKW type whence start len"

text \<open>\<open>F_GETLK\<close> stores the type and the owner of a conflicting lock.\<close>

definition lock_region_is_locked :: "int \<Rightarrow> int \<Rightarrow> int \<Rightarrow> int \<Rightarrow> int \<Rightarrow> ('m, int) prog" where
  "lock_region_is_locked fd type whence start len =
     bind (sys (Sys ''fcntl'' [N fd, N F_GETLK, N type, N whence, N start, N len])) (\<lambda>r.
     return (if ret r = -1 then -1 else if out_int r 0 = F_UNLCK then 0 else out_int r 1))"

text \<open>The two cases of the option differ in the type of the lock only.\<close>

definition lock_option :: "int \<Rightarrow> int \<Rightarrow> int \<Rightarrow> int \<Rightarrow> string \<Rightarrow> ('m, unit) prog" where
  "lock_option fd type start len optarg =
     bind (lock_region_is_locked fd type SEEK_SET start len) (\<lambda>pid.
     seq (if pid = 0 then printf (''region is free now.'' @ [NL]) []
          else printf (''region is locked by pid = %d.'' @ [NL]) [N pid])
     (if optarg = ''b'' then
        seq (lock_region_block fd type SEEK_SET start len)
        (printf (''region was locked!'' @ [NL]) [])
      else if optarg = ''n'' then
        seq (lock_region_nblock fd type SEEK_SET start len)
        (bind (gets errno) (\<lambda>e.
         only_if (e = EAGAIN) (errExit (''region was locked by others.'' @ [NL]) [])))
      else skip))"

definition file_lock_region :: "string list \<Rightarrow> ('m, unit) prog" where
  "file_lock_region argv =
     bind (or_errExit (Open ''sample'' O_RDWR None) ''open()'' []) (\<lambda>f.
     bind (argv_nth argv 3) (\<lambda>a3.
     bind (argv_nth argv 4) (\<lambda>a4.
     let start = to_int32 (fst (strtol a3 10)); len = to_int32 (fst (strtol a4 10)) in
     bind (sys (Sys ''getopt'' [T ''w:r:''])) (\<lambda>opt.
     seq (if ret opt = 119 then lock_option (ret f) F_WRLCK start len (out_str opt 0)
          else if ret opt = 114 then lock_option (ret f) F_RDLCK start len (out_str opt 0)
          else skip)
     (seq (sys (Sys ''pause'' [])) skip)))))"

subsection \<open>The \<open>epoll\<close> loop ends with the last descriptor\<close>

fun closed_by :: "event \<Rightarrow> nat" where
  "closed_by (Did (Close fd) r) = (if ret r \<noteq> -1 then 1 else 0)"
| "closed_by _ = 0"

definition closes :: "event list \<Rightarrow> nat" where
  "closes es = sum_list (map closed_by es)"

fun is_wait :: "event \<Rightarrow> bool" where
  "is_wait (Did (Sys f as) r) = (f = ''epoll_wait'')"
| "is_wait _ = False"

lemma closes_simps [simp]:
  "closes [] = 0" "closes (e # es) = closed_by e + closes es" "closes (xs @ ys) = closes xs + closes ys"
  by (simp_all add: closes_def)

lemma epoll_entry_ok:
  assumes "epoll_entry e st s = (Ok st', s')"
  shows "\<exists>es. trace s' = trace s @ es \<and> fst st' = fst st - int (closes es) \<and> \<not> list_ex is_wait es \<and>
    length (replies s') \<le> length (replies s)"
  using assms unfolding epoll_entry_def read_into_def
  by (auto simp: ok_simps split: prod.splits if_splits)

lemma epoll_entries_ok:
  assumes "fold_each xs epoll_entry st s = (Ok st', s')"
  shows "\<exists>es. trace s' = trace s @ es \<and> fst st' = fst st - int (closes es) \<and> \<not> list_ex is_wait es \<and>
    length (replies s') \<le> length (replies s)"
  using assms
proof (induction xs arbitrary: st s)
  case Nil
  then show ?case by (auto simp: ok_simps)
next
  case (Cons x xs)
  then obtain st1 s1 where 1: "epoll_entry x st s = (Ok st1, s1)" and 2: "fold_each xs epoll_entry st1 s1 = (Ok st', s')"
    by (auto simp: ok_simps)
  from epoll_entry_ok [OF 1] Cons.IH [OF 2] obtain es fs where
    "trace s1 = trace s @ es" "fst st1 = fst st - int (closes es)" "\<not> list_ex is_wait es" "length (replies s1) \<le> length (replies s)"
    "trace s' = trace s1 @ fs" "fst st' = fst st1 - int (closes fs)" "\<not> list_ex is_wait fs" "length (replies s') \<le> length (replies s1)"
    by blast
  then show ?case by (intro exI [of _ "es @ fs"]) auto
qed

lemma epoll_round_ok:
  assumes "epoll_round epfd st s = (Ok v, s')"
  shows "case v of
      Inl st' \<Rightarrow> 0 < fst st \<and> length (replies s') < length (replies s) \<and>
        (\<exists>w es. trace s' = trace s @ Did (Sys ''epoll_wait'' [N epfd, N MAX_EVENTS, N (-1)]) w # es \<and>
          \<not> list_ex is_wait es \<and> fst st' = fst st - int (closes es))
    | Inr u \<Rightarrow> \<not> 0 < fst st \<and> s' = s"
proof (cases "0 < fst st")
  case False
  with assms show ?thesis by (auto simp: epoll_round_def ok_simps)
next
  case True
  let ?W = "Sys ''epoll_wait'' [N epfd, N MAX_EVENTS, N (-1)]"
  from assms True obtain r rs where r: "replies s = r # rs"
    and run: "(if ret r = -1 then bind (gets errno) (\<lambda>e. if e = EINTR then again st else errExit ''epoll_wait()'' [])
        else seq (printf (''ready = %d'' @ [NL]) [N (ret r)])
          (bind (fold_each (take (nat (ret r)) (evlist (rints r))) epoll_entry st) again)) (after ?W r rs s) = (Ok v, s')"
    by (auto simp: epoll_round_def ok_simps)
  show ?thesis
  proof (cases "ret r = -1")
    case True
    with run r \<open>0 < fst st\<close> show ?thesis by (auto simp: ok_simps split: if_splits)
  next
    case False
    with run obtain st' where v: "v = Inl st'"
      and "fold_each (take (nat (ret r)) (evlist (rints r))) epoll_entry st
        (logged (Out (''ready = %d'' @ [NL]) [N (ret r)]) (after ?W r rs s)) = (Ok st', s')"
      by (auto simp: ok_simps)
    from epoll_entries_ok [OF this(2)] obtain es where
      "trace s' = trace s @ Did ?W r # (Out (''ready = %d'' @ [NL]) [N (ret r)] # es)"
      "fst st' = fst st - int (closes es)" "\<not> list_ex is_wait es" "length (replies s') \<le> length rs"
      by auto
    with v True r show ?thesis
      by (auto intro!: exI [of _ "Out (''ready = %d'' @ [NL]) [N (ret r)] # es"])
  qed
qed

text \<open>What the loop has done so far: the counter is 2 minus the descriptors closed, and before the last
  \<open>epoll_wait\<close> one was still open.\<close>

definition waited :: "event list \<Rightarrow> bool" where
  "waited es \<longleftrightarrow> (\<exists>pre w post. es = pre @ w # post \<and> is_wait w \<and> closes pre < 2 \<and> \<not> list_ex is_wait post)"

lemma epoll_loop_ok:
  assumes "loop (epoll_round epfd) (2, b) s = (Ok u, s')"
  shows "\<exists>es. trace s' = trace s @ es \<and> 2 \<le> closes es \<and> waited es"
proof -
  let ?I = "\<lambda>st s1. \<exists>es. trace s1 = trace s @ es \<and> fst st = 2 - int (closes es) \<and> (es = [] \<or> waited es)"
  have "wp (loop (epoll_round epfd) (2, b)) (\<lambda>out s'. \<forall>u. out = Ok u \<longrightarrow>
      (\<exists>es. trace s' = trace s @ es \<and> 2 \<le> closes es \<and> waited es)) s"
  proof (rule wp_loop [where I = ?I], goal_cases)
    case (1 st s1)
    then obtain es where es: "trace s1 = trace s @ es" "fst st = 2 - int (closes es)" "es = [] \<or> waited es" by blast
    show ?case
    proof (rule wpI, goal_cases)
      case (1 out s2)
      show ?case
      proof (cases out)
        case (Ok v)
        note R = epoll_round_ok [OF 1 [unfolded Ok]]
        show ?thesis
        proof (cases v)
          case (Inl st')
          with R obtain w fs where w: "0 < fst st" "length (replies s2) < length (replies s1)"
            "trace s2 = trace s1 @ Did (Sys ''epoll_wait'' [N epfd, N MAX_EVENTS, N (-1)]) w # fs"
            "\<not> list_ex is_wait fs" "fst st' = fst st - int (closes fs)" by auto
          let ?W = "Did (Sys ''epoll_wait'' [N epfd, N MAX_EVENTS, N (-1)]) w"
          have "waited (es @ ?W # fs)"
            unfolding waited_def using w es(2) by (intro exI [of _ es] exI [of _ ?W] exI [of _ fs]) simp
          with w es Ok Inl show ?thesis by (auto intro!: exI [of _ "es @ ?W # fs"])
        next
          case (Inr x)
          with R es have "2 \<le> closes es" "s2 = s1" by auto
          with es Ok Inr show ?thesis by (auto intro!: exI [of _ es])
        qed
      next
        case (Stop x)
        then show ?thesis by simp
      qed
    qed
  qed simp
  from wpD [OF this assms] show ?thesis by blast
qed


definition epoll_script :: "reply list" where
  "epoll_script = [r_ok 3, r_ok 4, r_ok 0, r_ok 5, r_ok 0,
     (r_ok 2)\<lparr>rints := [4, 16, 5, 16]\<rparr>, r_ok 0, r_ok 0]"


subsection \<open>Locks that are not checked\<close>

text \<open>The two ways to lock a region do not look at the answer of \<open>fcntl\<close>: with \<open>b\<close> the region is
  reported as locked whatever the answer is; with \<open>n\<close> the run ends with the error exactly when
  \<open>errno\<close> is \<open>EAGAIN\<close> behind the call, be the lock granted or refused.\<close>

theorem lock_option_ignores_answer:
  assumes "replies s = g # l # rs" "lock_option fd type start len optarg s = (out, s')"
  shows "(optarg = ''b'' \<longrightarrow> out = Ok () \<and> last (trace s') = Out (''region was locked!'' @ [NL]) []) \<and>
    (optarg = ''n'' \<longrightarrow> (out = Ok () \<longleftrightarrow>
      (case eno l of Some e \<Rightarrow> e | None \<Rightarrow> stdio_eno s (case eno g of Some e \<Rightarrow> e | None \<Rightarrow> errno s)) \<noteq> EAGAIN))"
proof -
  have "wp (lock_option fd type start len optarg) (\<lambda>out s'.
    (optarg = ''b'' \<longrightarrow> out = Ok () \<and> last (trace s') = Out (''region was locked!'' @ [NL]) []) \<and>
    (optarg = ''n'' \<longrightarrow> (out = Ok () \<longleftrightarrow>
      (case eno l of Some e \<Rightarrow> e | None \<Rightarrow> stdio_eno s (case eno g of Some e \<Rightarrow> e | None \<Rightarrow> errno s)) \<noteq> EAGAIN))) s"
    unfolding lock_option_def lock_region_is_locked_def lock_region_block_def lock_region_nblock_def lock_region_def
    using assms(1)
    by (auto simp: wp_rules wp_errExit [OF cformat_plain] split: option.splits cong: wp_cong)
  from wpD [OF this assms(2)] show ?thesis .
qed

theorem lock_option_ignores_answer_witness:
  "last (trace (snd (lock_option 3 F_WRLCK 0 10 ''b'' (boot [r_ok 0, r_fail EDEADLK])))) =
     Out (''region was locked!'' @ [NL]) []"
proof -
  let ?s = "boot [r_ok 0, r_fail EDEADLK]"
  let ?run = "lock_option 3 F_WRLCK 0 10 ''b'' ?s"
  have m: "?run = (fst ?run, snd ?run)" by simp
  have r: "replies ?s = r_ok 0 # r_fail EDEADLK # []" by (simp add: boot_def)
  from lock_option_ignores_answer [OF r m] show ?thesis by simp
qed

end
