(* ===== verification/Daemon.thy ===== *)
theory Daemon
  imports FdIO
begin

text \<open>
  \<open>LinuxAPI/process_daemonize.c\<close>: a process detaches itself from its terminal and keeps a log file that
  it opens again after a hang-up signal.
\<close>

subsection \<open>Becoming a daemon\<close>

definition BD_NO_CHDIR :: int where "BD_NO_CHDIR = 1"
definition BD_NO_CLOSE_FILES :: int where "BD_NO_CLOSE_FILES = 2"
definition BD_NO_REOPEN_STD_FDS :: int where "BD_NO_REOPEN_STD_FDS = 4"
definition BD_NO_UMASK0 :: int where "BD_NO_UMASK0 = 8"
definition BD_MAX_CLOSE :: int where "BD_MAX_CLOSE = 8192"
definition SC_OPEN_MAX :: int where "SC_OPEN_MAX = 4"

text \<open>\<open>printf ("[who] pid = ...", getpid (), getpgid (0), getsid (0))\<close>.\<close>

definition print_ids :: "string \<Rightarrow> ('m, unit) prog" where
  "print_ids who =
     bind (sys (Sys ''getpid'' [])) (\<lambda>p.
     bind (sys (Sys ''getpgid'' [N 0])) (\<lambda>g.
     bind (sys (Sys ''getsid'' [N 0])) (\<lambda>d.
     printf (''['' @ who @ ''] pid = %d, pgid = %d, sid = %d'' @ [NL]) [N (ret p), N (ret g), N (ret d)])))"

definition leave_process :: "string \<Rightarrow> ('m, 'a) prog" where
  "leave_process who =
     bind (sys (Sys ''getpid'' [])) (\<lambda>p.
     seq (printf (who @ '' pid = %d is terminated'' @ [NL]) [N (ret p)])
     (stop (QuickExited EXIT_SUCCESS)))"

definition close_files :: "('m, unit) prog" where
  "close_files =
     bind (sys (Sys ''sysconf'' [N SC_OPEN_MAX])) (\<lambda>m.
     let maxfds = (if ret m = -1 then BD_MAX_CLOSE else ret m) in
     for_each [0..<nat maxfds] (\<lambda>fd. seq (sys (Close (int fd))) skip))"

definition reopen_std_fds :: "('m, int) prog" where
  "reopen_std_fds =
     seq (sys (Close STDIN_FILENO))
     (bind (sys (Open ''/dev/null'' O_RDWR None)) (\<lambda>f.
     if ret f \<noteq> STDIN_FILENO then return (-1)
     else bind (sys (Dup2 STDIN_FILENO STDOUT_FILENO)) (\<lambda>d.
       if ret d \<noteq> STDOUT_FILENO then return (-1)
       else bind (sys (Dup2 STDIN_FILENO STDERR_FILENO)) (\<lambda>d.
         if ret d \<noteq> STDERR_FILENO then return (-1) else return 0))))"

definition become_daemon :: "int \<Rightarrow> ('m, int) prog" where
  "become_daemon flags =
     bind (sys Fork) (\<lambda>f.
     if ret f = -1 then return (-1)
     else if ret f \<noteq> 0 then seq (print_ids ''parent'') (leave_process ''parent'')
     else seq (print_ids ''child'')
       (bind (sys (Sys ''setsid'' [])) (\<lambda>d.
       if ret d = -1 then return (-1)
       else bind (sys Fork) (\<lambda>f.
         if ret f = -1 then return (-1)
         else if ret f \<noteq> 0 then leave_process ''child''
         else seq (print_ids ''grandchild'')
           (seq (only_if (\<not> int_has flags BD_NO_UMASK0) (seq (sys (Sys ''umask'' [N 0])) skip))
           (seq (only_if (\<not> int_has flags BD_NO_CHDIR) (seq (sys (Sys ''chdir'' [T ''/''])) skip))
           (seq (only_if (\<not> int_has flags BD_NO_CLOSE_FILES) close_files)
           (if int_has flags BD_NO_REOPEN_STD_FDS then return 0 else reopen_std_fds))))))))"

subsection \<open>The log\<close>

text \<open>The static descriptor \<open>fd\<close> is passed along.\<close>

definition LOG_FILE :: string where "LOG_FILE = ''/tmp/LinuxAPI_deamon.log''"
definition LOG_BUF_SIZE :: nat where "LOG_BUF_SIZE = 4096"

definition log_perms :: mode_t where
  "log_perms = S_IRUSR OR S_IWUSR OR S_IRGRP OR S_IWGRP OR S_IROTH OR S_IWOTH"

definition log_open :: "string \<Rightarrow> ('m, int \<times> int) prog" where
  "log_open log =
     bind (or_errExit (Open log (O_CREAT OR O_RDWR OR O_APPEND) (Some log_perms)) ''open()'' []) (\<lambda>f.
     bind (sys (Write (ret f) (lit (''log open'' @ [NL])))) (\<lambda>w.
     return (ret f, if ret w = -1 then -1 else 0)))"

text \<open>The length that is written is the one of the format, not of the message made from it.\<close>

definition log_message :: "int \<Rightarrow> string \<Rightarrow> carg list \<Rightarrow> ('m, int) prog" where
  "log_message fd msgform as =
     (if fd = -1 then return 0
      else bind (require (cformat msgform as) ''vsprintf'') (\<lambda>text.
        bind (store (lit (replicate LOG_BUF_SIZE NUL)) 0 (text @ [NUL])) (\<lambda>buf.
        let wlen = length msgform in
        bind (write_from fd buf 0 wlen) (\<lambda>w.
        if w = -1 then return (-1)
        else bind (sys (Write fd (lit [NL]))) (\<lambda>w.
          if ret w = -1 then return (-1) else return 0)))))"

definition log_close :: "int \<Rightarrow> ('m, int) prog" where
  "log_close fd =
     (if fd = -1 then return 0
      else bind (sys (Write fd (lit (''log close'' @ [NL])))) (\<lambda>w.
        if ret w = -1 then return (-1)
        else seq (sys (Close fd)) (return 0)))"

definition SLEEP_TIME :: int where "SLEEP_TIME = 5"
definition SA_RESTART :: int where "SA_RESTART = 268435456"

text \<open>One round of the daemon: the state is the descriptor, the time left to sleep and the count. The
  flag of the signal handler is loaded from memory the handler may change at any time.\<close>

definition daemon_round :: "int \<times> int \<times> int \<Rightarrow> ('m, int \<times> int \<times> int + unit) prog" where
  "daemon_round st = (case st of (fd, unslept, count) \<Rightarrow>
     bind (sys (Sys ''sleep'' [N unslept])) (\<lambda>r.
     let unslept = ret r in
     bind (sys (Sys ''load'' [T ''hup_signaled''])) (\<lambda>h.
     bind (if ret h \<noteq> 0 then
             seq (log_close fd)
             (bind (log_open LOG_FILE) (\<lambda>(fd, x).
             seq (sys (Sys ''store'' [T ''hup_signaled'', N 0]))
             (return fd)))
           else return fd) (\<lambda>fd.
     if unslept = 0 then
       seq (log_message fd ''count = %d'' [N (count + 1)])
       (again (fd, SLEEP_TIME, count + 1))
     else again (fd, unslept, count)))))"

definition process_daemonize :: "('m, unit) prog" where
  "process_daemonize =
     seq (or_errExit (Sys ''sigaction'' [N SIGHUP, T ''hup_signal_handler'', N SA_RESTART]) (''sigaction()'' @ [NL]) [])
     (bind (become_daemon 0) (\<lambda>d.
     seq (only_if (d = -1) (errExit ''become_daemon()'' []))
     (bind (log_open LOG_FILE) (\<lambda>(fd, x).
     loop daemon_round (fd, SLEEP_TIME, 0)))))"

subsection \<open>Who becomes a daemon\<close>

lemma tame_daemon_parts [tame_rules]:
  "tame (print_ids who)" "tame close_files" "tame reopen_std_fds"
  unfolding print_ids_def close_files_def reopen_std_fds_def by (intro tame_rules)+

lemma reopen_std_fds_ok:
  assumes "reopen_std_fds s = (Ok 0, s')"
  shows "\<exists>c f d e. trace s' = trace s @ [Did (Close STDIN_FILENO) c, Did (Open ''/dev/null'' O_RDWR None) f,
      Did (Dup2 STDIN_FILENO STDOUT_FILENO) d, Did (Dup2 STDIN_FILENO STDERR_FILENO) e] \<and>
    ret f = STDIN_FILENO \<and> ret d = STDOUT_FILENO \<and> ret e = STDERR_FILENO"
  using assms unfolding reopen_std_fds_def by (auto simp: ok_simps split: if_splits)

lemma leave_process_not_ok: "leave_process who s \<noteq> (Ok v, s')"
  by (auto simp: leave_process_def ok_simps)

text \<open>C26. When \<open>become_daemon (0)\<close> returns 0, the process is the child of the child of the caller, in a
  session of its own, and its three standard descriptors are \<open>/dev/null\<close>; the caller and its child
  do not return.\<close>

theorem become_daemon_detached:
  assumes "become_daemon 0 s = (Ok v, s')" "v \<noteq> -1"
  shows "\<exists>f1 es d f2 fs c f o1 o2. v = 0 \<and>
    trace s' = trace s @ [Did Fork f1] @ es @ [Did (Sys ''setsid'' []) d, Did Fork f2] @ fs @
      [Did (Close STDIN_FILENO) c, Did (Open ''/dev/null'' O_RDWR None) f,
       Did (Dup2 STDIN_FILENO STDOUT_FILENO) o1, Did (Dup2 STDIN_FILENO STDERR_FILENO) o2] \<and>
    ret f1 = 0 \<and> ret d \<noteq> -1 \<and> ret f2 = 0 \<and>
    ret f = STDIN_FILENO \<and> ret o1 = STDOUT_FILENO \<and> ret o2 = STDERR_FILENO"
proof -
  from assms obtain f1 rs1 s1 d rs2 f2 s2 s3 where
    f1: "replies s = f1 # rs1" "ret f1 = 0" and c1: "print_ids ''child'' (after Fork f1 rs1 s) = (Ok (), s1)"
    and d: "replies s1 = d # f2 # rs2" "ret d \<noteq> -1" "ret f2 = 0"
    and c2: "print_ids ''grandchild'' (after Fork f2 rs2 (after (Sys ''setsid'' []) d (f2 # rs2) s1)) = (Ok (), s2)"
    and m: "seq (seq (sys (Sys ''umask'' [N 0])) skip) (seq (seq (sys (Sys ''chdir'' [T ''/''])) skip) close_files) s2 = (Ok (), s3)"
    and r: "reopen_std_fds s3 = (Ok v, s')"
    unfolding become_daemon_def
    by (auto simp: ok_simps int_has_def leave_process_not_ok split: if_splits)
  from r assms(2) have v: "v = 0"
    unfolding reopen_std_fds_def by (auto simp: ok_simps split: if_splits)
  have tm: "tame (seq (seq (sys (Sys ''umask'' [N 0])) skip) (seq (seq (sys (Sys ''chdir'' [T ''/''])) skip) close_files) ::
      ('a, unit) prog)"
    by (intro tame_rules)
  obtain es1 es2 es3 where "trace s1 = trace s @ [Did Fork f1] @ es1"
    "trace s2 = trace s1 @ [Did (Sys ''setsid'' []) d, Did Fork f2] @ es2" "trace s3 = trace s2 @ es3"
    using tameD(1) [OF tame_daemon_parts(1) c1] tameD(1) [OF tame_daemon_parts(1) c2] tameD(1) [OF tm m]
    by auto
  moreover from reopen_std_fds_ok [OF r [unfolded v]] obtain c f o1 o2 where
    "trace s' = trace s3 @ [Did (Close STDIN_FILENO) c, Did (Open ''/dev/null'' O_RDWR None) f,
      Did (Dup2 STDIN_FILENO STDOUT_FILENO) o1, Did (Dup2 STDIN_FILENO STDERR_FILENO) o2]"
    "ret f = STDIN_FILENO" "ret o1 = STDOUT_FILENO" "ret o2 = STDERR_FILENO" by blast
  ultimately show ?thesis using f1 d v
    by - (rule exI [of _ f1], rule exI [of _ es1], rule exI [of _ d], rule exI [of _ f2], rule exI [of _ "es2 @ es3"],
        rule exI [of _ c], rule exI [of _ f], rule exI [of _ o1], rule exI [of _ o2], simp)
qed

definition daemon_script :: "reply list" where
  "daemon_script = [r_ok 0, r_ok 10, r_ok 9, r_ok 8, r_ok 10, r_ok 0, r_ok 11, r_ok 10, r_ok 10, r_ok 18, r_ok 0,
     r_ok 1, r_ok 0, r_ok 0, r_ok 0, r_ok 1, r_ok 2]"

theorem become_daemon_detached_witness:
  "\<exists>pre o1. trace (snd (become_daemon 0 (boot daemon_script))) =
     pre @ [Did (Dup2 STDIN_FILENO STDOUT_FILENO) o1, Did (Dup2 STDIN_FILENO STDERR_FILENO) (r_ok 2)]"
proof -
  let ?run = "become_daemon 0 (boot daemon_script)"
  have f: "fst ?run = Ok 0" by code_simp
  have m: "?run = (Ok 0, snd ?run)" using f by (metis prod.collapse)
  have l: "last (trace (snd ?run)) = Did (Dup2 STDIN_FILENO STDERR_FILENO) (r_ok 2)" by code_simp
  from become_daemon_detached [OF m] obtain pre o1 o2 where
    "trace (snd ?run) = pre @ [Did (Dup2 STDIN_FILENO STDOUT_FILENO) o1, Did (Dup2 STDIN_FILENO STDERR_FILENO) o2]"
    by (metis append_Cons append_Nil append_assoc zero_neq_neg_one)
  with l show ?thesis by auto
qed

subsection \<open>What reaches the log\<close>

lemma peek_poke_pad:
  assumes "poke b 0 d = Some b'" "n \<le> length b"
  shows "peek b' 0 n = Some (take n (map Some d @ drop (length d) b))"
  using assms by (auto simp: poke_def peek_def split: if_splits)

text \<open>The entries of the log have the length of the format \<open>count = %d\<close>, ten bytes: a count below 10
  is followed by a NUL byte, counts from 10 to 99 are complete, and of a larger count only the first
  two digits are written.\<close>

theorem log_message_length:
  assumes "0 \<le> n" "n \<le> INT_MAX" "fd \<noteq> -1" "replies s = w1 # w2 # rs" "ret w1 \<noteq> -1" "ret w2 \<noteq> -1"
  shows "\<exists>s'. log_message fd ''count = %d'' [N n] s = (Ok 0, s') \<and>
    trace s' = trace s @ [Did (Write fd (lit (''count = '' @ take 2 (show_int n @ [NUL])))) w1, Did (Write fd (lit [NL])) w2]"
proof -
  let ?text = "''count = '' @ show_int n"
  have f: "cformat ''count = %d'' [N n] = Some ?text" by simp
  have l: "length (show_int n) \<le> 10" "show_int n \<noteq> []"
    using assms(1,2) length_show_nat [of "nat n" 9] by (simp_all add: show_int_def INT_MAX_def)
  obtain b where b: "poke (lit (replicate LOG_BUF_SIZE NUL)) 0 (?text @ [NUL]) = Some b"
    using l(1) poke_start [of "?text @ [NUL]" "lit (replicate LOG_BUF_SIZE NUL)"] by (auto simp: LOG_BUF_SIZE_def)
  let ?pad = "replicate (LOG_BUF_SIZE - length (?text @ [NUL])) NUL"
  have "map Some (?text @ [NUL]) @ drop (length (?text @ [NUL])) (lit (replicate LOG_BUF_SIZE NUL)) = lit (?text @ [NUL] @ ?pad)"
    by (simp add: lit_def)
  moreover have "10 \<le> length (lit (replicate LOG_BUF_SIZE NUL))" by (simp add: LOG_BUF_SIZE_def)
  ultimately have "peek b 0 10 = Some (take 10 (lit (?text @ [NUL] @ ?pad)))"
    using peek_poke_pad [OF b, of 10] by (simp only:)
  then have "peek b 0 10 = Some (lit (take 10 (?text @ [NUL] @ ?pad)))"
    unfolding lit_def take_map .
  moreover have "take 10 (?text @ [NUL] @ zs) = ''count = '' @ take 2 (show_int n @ [NUL])" for zs
    using l(2) by (cases "show_int n"; cases "tl (show_int n)") auto
  ultimately have p: "peek b 0 10 = Some (lit (''count = '' @ take 2 (show_int n @ [NUL])))" by (simp only:)
  have "length ''count = %d'' = 10" by simp
  with p have q: "peek b 0 (length ''count = %d'') = Some (lit (''count = '' @ take 2 (show_int n @ [NUL])))"
    by (simp only:)
  have "wp (log_message fd ''count = %d'' [N n]) (\<lambda>out s'. out = Ok 0 \<and>
    trace s' = trace s @ [Did (Write fd (lit (''count = '' @ take 2 (show_int n @ [NUL])))) w1, Did (Write fd (lit [NL])) w2]) s"
    unfolding log_message_def using assms(3-6) f b q
    by (simp add: wp_rules wp_write_from del: cformat.simps cong: wp_cong)
  moreover obtain out s' where "log_message fd ''count = %d'' [N n] s = (out, s')" by fastforce
  ultimately show ?thesis by (auto dest: wpD)
qed

theorem log_message_length_witness:
  "\<exists>s'. log_message 3 ''count = %d'' [N 123] (boot [r_ok 10, r_ok 1]) = (Ok 0, s') \<and>
     hd (trace s') = Did (Write 3 (lit ''count = 12'')) (r_ok 10)"
proof -
  have r: "replies (boot [r_ok 10, r_ok 1]) = r_ok 10 # r_ok 1 # []" by (simp add: boot_def)
  have n: "show_int 123 = ''123''" by code_simp
  from log_message_length [of 123 3, OF _ _ _ r] n show ?thesis
    by (auto simp: INT_MAX_def r_ok_def boot_def)
qed

end
