(* ===== verification/GccExt.thy ===== *)
theory GccExt
  imports ErrorFns Flags
begin

text \<open>
  \<open>api3/gcc_extension.c\<close>: functions with attributes, the layout of structures, and a demonstration of
  both. An \<open>int\<close> result outside its range is undefined and is \<open>None\<close>.
\<close>

subsection \<open>Arithmetic on \<open>int\<close>\<close>

definition int_ok :: "int \<Rightarrow> int option" where
  "int_ok x = (if INT_MIN \<le> x \<and> x \<le> INT_MAX then Some x else None)"

definition square1 :: "int \<Rightarrow> int option" where "square1 a = int_ok (a * a)"
definition square2 :: "int \<Rightarrow> int option" where "square2 a = int_ok (a * a)"
definition square3 :: "int \<Rightarrow> int option" where "square3 a = int_ok (a * a)"

text \<open>\<open>for (...) sum += f (i);\<close>\<close>

fun add_all :: "(int \<Rightarrow> int option) \<Rightarrow> int list \<Rightarrow> int \<Rightarrow> int option" where
  "add_all f [] s = Some s"
| "add_all f (i # is) s =
     (case f i of None \<Rightarrow> None
      | Some v \<Rightarrow> (case int_ok (s + v) of None \<Rightarrow> None | Some s' \<Rightarrow> add_all f is s'))"

text \<open>\<open>for (i = 0; p[i] != '\0'; ++i);\<close> reads one byte after the other.\<close>

fun scan :: "cbuf \<Rightarrow> int \<Rightarrow> int option" where
  "scan [] i = None"
| "scan (None # p) i = None"
| "scan (Some c # p) i = (if c = NUL then Some i else case int_ok (i + 1) of None \<Rightarrow> None | Some j \<Rightarrow> scan p j)"

definition string_length :: "cbuf \<Rightarrow> int option" where
  "string_length p = scan p 0"

definition IsOdd :: "int \<Rightarrow> ('m, int) prog" where
  "IsOdd chk =
     seq (printf (''check = %d'' @ [NL]) [N chk])
     (return (if chk mod 2 \<noteq> 0 then 1 else 0))"

definition old_version :: "('m, int) prog" where
  "old_version = seq (printf (''do not use this anynome!'' @ [NL]) []) (return 0)"

definition unused_func :: "('m, int) prog" where
  "unused_func = seq (printf (''unused function does not show yellow bottom warning line'' @ [NL]) []) (return 0)"

definition print_err :: "string \<Rightarrow> ('m, unit) prog" where
  "print_err p = seq (eprintf (''[ERROR] %s'' @ [NL]) [T p]) (stop (Exited EXIT_FAILURE))"

text \<open>\<open>double_size\<close> only allocates: the object, or a null pointer.\<close>

definition double_size :: "nat \<Rightarrow> ('m, cbuf option) prog" where
  "double_size n =
     bind (sys (Sys ''malloc'' [N (int n)])) (\<lambda>r.
     return (if ret r = NULL then None else Some (uninit n)))"

subsection \<open>Structures\<close>

text \<open>A member has a size and an alignment; the offset of a member is the next multiple of its alignment,
  the size of the structure a multiple of its largest alignment. Packed members have alignment 1.\<close>

type_synonym member = "nat \<times> nat"

definition align_up :: "nat \<Rightarrow> nat \<Rightarrow> nat" where
  "align_up off a = (off + a - 1) div a * a"

fun offsets :: "nat \<Rightarrow> member list \<Rightarrow> nat list" where
  "offsets off [] = []"
| "offsets off ((sz, a) # ms) = align_up off a # offsets (align_up off a + sz) ms"

fun end_offset :: "nat \<Rightarrow> member list \<Rightarrow> nat" where
  "end_offset off [] = off"
| "end_offset off ((sz, a) # ms) = end_offset (align_up off a + sz) ms"

definition struct_size :: "member list \<Rightarrow> nat" where
  "struct_size ms = align_up (end_offset 0 ms) (fold max (map snd ms) 1)"

definition packed :: "member list \<Rightarrow> member list" where
  "packed ms = map (\<lambda>m. (fst m, 1)) ms"

definition test_unpacked :: "member list" where "test_unpacked = [(10, 1), (4, 4)]"
definition test_packed :: "member list" where "test_packed = packed [(10, 1), (4, 4)]"
definition test_aligned :: "member list" where "test_aligned = [(10, 32), (10, 32)]"
definition offsettest :: "member list" where "offsettest = [(4, 4), (4, 4), (8, 8), (10, 1)]"

subsection \<open>The demonstration\<close>

definition to_upper :: "char \<Rightarrow> char" where
  "to_upper c = (let n = (of_char c :: nat) in if 97 \<le> n \<and> n \<le> 122 then char_of (n - 32) else c)"

definition which_set :: "int \<Rightarrow> ('m, unit) prog" where
  "which_set val =
     (if 65 \<le> val \<and> val \<le> 70 then printf (''set 1'' @ [NL]) []
      else if 71 \<le> val \<and> val \<le> 84 then printf (''set 2'' @ [NL]) []
      else if 85 \<le> val \<and> val \<le> 90 then printf (''set 3'' @ [NL]) []
      else skip)"

text \<open>\<open>str\<close> is measured again in each round of the loop over its characters.\<close>

definition print_upper :: "string \<Rightarrow> ('m, unit) prog" where
  "print_upper str =
     bind (require (string_length (lit (str @ [NUL]))) ''string without terminating NUL'') (\<lambda>n.
     for_each [0..<nat n] (\<lambda>j. printf ''%c'' [N (int (of_char (to_upper (str ! j))))]))"

definition gcc_extension :: "('m, unit) prog" where
  "gcc_extension =
     bind (require (add_all square1 [0..99] 0) ''integer overflow'') (\<lambda>sum.
     bind (require (add_all square2 [0..99] sum) ''integer overflow'') (\<lambda>sum.
     seq (printf (''sum = %d'' @ [NL]) [N sum])
     (seq (print_upper ''this is test'')
     (seq (printf [NL] [])
     (bind (require (add_all square3 [0..99] sum) ''integer overflow'') (\<lambda>sum.
     seq (printf (''sum = %d'' @ [NL]) [N sum])
     (bind (double_size 5) (\<lambda>p.
     bind (require p ''null pointer'') (\<lambda>p.
     bind (require (c_strcpy p ''0123456789'') ''write past the end of a buffer'') (\<lambda>p.
     bind (load_string p) (\<lambda>text.
     seq (printf (''p = %s'' @ [NL]) [T text])
     (bind (IsOdd 10) (\<lambda>check.
     seq (printf (''result = %d'' @ [NL]) [N check])
     (bind old_version (\<lambda>_.
     seq (printf (''sizeof normal struct = %ld'' @ [NL]) [N (int (struct_size test_unpacked))])
     (seq (printf (''sizeof packed struct = %ld'' @ [NL]) [N (int (struct_size test_packed))])
     (seq (printf (''sizeof aligned struct = %ld'' @ [NL]) [N (int (struct_size test_aligned))])
     (bind (sys (Close STDIN_FILENO)) (\<lambda>c.
     seq (only_if (ret c \<noteq> 0) (perror ''close''))
     (seq (printf (''start of member d = %d'' @ [NL]) [N (int (offsets 0 offsettest ! 3))])
     (which_set 81)))))))))))))))))))))"

text \<open>\<open>api3/main.c\<close>: everything but this call is commented out.\<close>

definition main_api3 :: "string list \<Rightarrow> ('m, int) prog" where
  "main_api3 argv = seq gcc_extension (return 0)"

lemma struct_sizes:
  "struct_size test_unpacked = 16" "struct_size test_packed = 14" "struct_size test_aligned = 64"
  "offsets 0 offsettest ! 3 = 16"
  by code_simp+

lemma add_all_sums:
  "add_all square1 [0..99] 0 = Some 328350" "add_all square2 [0..99] 328350 = Some 656700"
  "add_all square3 [0..99] 656700 = Some 985050"
  by code_simp+

lemma scan_cstr:
  "i + int (length p) \<le> INT_MAX \<Longrightarrow> 0 \<le> i \<Longrightarrow> scan p i = map_option (\<lambda>t. i + int (length t)) (cstr p)"
  by (induction p i rule: scan.induct)
    (auto simp: int_ok_def INT_MIN_def INT_MAX_def option.map_comp comp_def algebra_simps split: option.splits)

text \<open>C29. \<open>string_length\<close> computes what \<open>strlen\<close> promises, on every object that is no longer than an \<open>int\<close>
  can count: the length of the C string at its start, and an invalid read exactly when there is none.\<close>

theorem string_length_strlen:
  assumes "int (length p) \<le> INT_MAX"
  shows "string_length p = map_option (int \<circ> length) (cstr p)"
  using scan_cstr [of 0 p] assms by (simp add: string_length_def comp_def)

theorem string_length_strlen_witness:
  "string_length (lit (''abc'' @ [NUL, CHR ''d''])) = Some 3 \<and> string_length (lit ''abc'') = None"
  using string_length_strlen [of "lit (''abc'' @ [NUL, CHR ''d''])"] string_length_strlen [of "lit ''abc''"]
  by (simp add: INT_MAX_def lit_def)

text \<open>\<open>gcc_extension\<close> prints the sums 656700 and 985050 and the text in capitals between them, and then,
  whatever \<open>malloc\<close> answers, copies a string of eleven bytes to five: it never returns.\<close>

theorem gcc_extension_overflows:
  assumes "replies s = r # rs"
  shows "\<exists>s' why. gcc_extension s = (Stop (Undefined why), s') \<and>
    trace s' = trace s @ [Out (''sum = %d'' @ [NL]) [N 656700]] @
      map (\<lambda>c. Out ''%c'' [N (int (of_char c))]) ''THIS IS TEST'' @
      [Out [NL] [], Out (''sum = %d'' @ [NL]) [N 985050], Did (Sys ''malloc'' [N 5]) r]"
proof -
  have l: "string_length (lit (''this is test'' @ [NUL])) = Some 12" by code_simp
  have u: "map (\<lambda>j. to_upper (''this is test'' ! j)) [0..<12] = ''THIS IS TEST''" by code_simp
  have "prints (print_upper ''this is test'')
      (concat (map (\<lambda>j. [Out ''%c'' [N (int (of_char (to_upper (''this is test'' ! j))))]]) [0..<nat 12]))"
    unfolding print_upper_def by (rule prints_require [OF l]) (intro prints_rules)
  moreover have "concat (map (\<lambda>j. [Out ''%c'' [N (int (of_char (to_upper (''this is test'' ! j))))]]) [0..<nat 12]) =
      map (\<lambda>c. Out ''%c'' [N (int (of_char c))]) (map (\<lambda>j. to_upper (''this is test'' ! j)) [0..<12])"
    by (simp add: comp_def)
  ultimately have p: "prints (print_upper ''this is test'') (map (\<lambda>c. Out ''%c'' [N (int (of_char c))]) ''THIS IS TEST'')"
    unfolding u by simp
  have o: "c_strcpy (uninit 5) ''0123456789'' = None" by (simp add: strcpy_overflow)
  let ?Q = "\<lambda>out s'. (\<exists>why. out = Stop (Undefined why)) \<and>
    trace s' = trace s @ [Out (''sum = %d'' @ [NL]) [N 656700]] @
      map (\<lambda>c. Out ''%c'' [N (int (of_char c))]) ''THIS IS TEST'' @
      [Out [NL] [], Out (''sum = %d'' @ [NL]) [N 985050], Did (Sys ''malloc'' [N 5]) r]"
  have "wp gcc_extension ?Q s"
    unfolding gcc_extension_def double_size_def
    by (simp only: wp_bind wp_require add_all_sums option.case outcome.case wp_seq wp_wrappers)
      (rule prints_wp [OF p], simp add: wp_rules add_all_sums assms o cong: wp_cong)
  moreover obtain out s' where "gcc_extension s = (out, s')" by fastforce
  ultimately show ?thesis by (auto dest: wpD)
qed

theorem gcc_extension_overflows_witness:
  "\<exists>s' why. gcc_extension (boot [r_ok 1]) = (Stop (Undefined why), s')"
proof -
  have "replies (boot [r_ok 1]) = r_ok 1 # []" by (simp add: boot_def)
  from gcc_extension_overflows [OF this] show ?thesis by blast
qed

end
