(* ===== verification/Options.thy ===== *)
theory Options
  imports ErrorFns Flags
begin

text \<open>
  \<open>LinuxAPI/option_parsing.c\<close>, the program \<open>LinuxAPI/main.c\<close> runs. \<open>getopt\<close> is modelled as the C
  library does it, with its static variables in a record: it permutes the arguments so that the
  non-options come last, unless \<open>POSIXLY_CORRECT\<close> is in the environment (\<open>posix\<close>).
\<close>

subsection \<open>\<open>getopt\<close>\<close>

text \<open>The non-options skipped so far are \<open>args[first_nonopt]\<close> to \<open>args[last_nonopt - 1]\<close>; \<open>nextchar\<close> is
  the rest of the element being scanned.\<close>

record getopt_state =
  args :: "string list"
  optind :: nat
  nextchar :: string
  first_nonopt :: nat
  last_nonopt :: nat
  optarg :: "string option"
  optopt :: int

definition getopt_start :: "string list \<Rightarrow> getopt_state" where
  "getopt_start argv = \<lparr>args = argv, optind = 1, nextchar = [], first_nonopt = 1, last_nonopt = 1, optarg = None, optopt = 0\<rparr>"

definition code :: "char \<Rightarrow> int" where "code c = of_char c"

definition nonoption :: "string \<Rightarrow> bool" where
  "nonoption a \<longleftrightarrow> (case a of [] \<Rightarrow> True | c # cs \<Rightarrow> c \<noteq> CHR ''-'' \<or> cs = [])"

text \<open>The skipped non-options and the elements scanned since change places.\<close>

definition exchange :: "getopt_state \<Rightarrow> getopt_state" where
  "exchange g =
     (let l = last_nonopt g; n = optind g; f = min (first_nonopt g) l; xs = args g in
      g\<lparr>args := take f xs @ drop l (take n xs) @ drop f (take l xs) @ drop n xs,
        first_nonopt := f + (n - l), last_nonopt := n\<rparr>)"

text \<open>To the next element with options; the result says whether there is one.\<close>

definition clamp :: "getopt_state \<Rightarrow> getopt_state" where
  "clamp g = g\<lparr>last_nonopt := min (last_nonopt g) (optind g), first_nonopt := min (first_nonopt g) (optind g)\<rparr>"

definition settle :: "getopt_state \<Rightarrow> getopt_state" where
  "settle g =
     (if first_nonopt g \<noteq> last_nonopt g \<and> last_nonopt g \<noteq> optind g then exchange g
      else if last_nonopt g \<noteq> optind g then g\<lparr>first_nonopt := optind g\<rparr> else g)"

definition skip_nonoptions :: "getopt_state \<Rightarrow> getopt_state" where
  "skip_nonoptions g =
     (let n = optind g + length (takeWhile nonoption (drop (optind g) (args g))) in g\<lparr>optind := n, last_nonopt := n\<rparr>)"

definition double_dash :: "getopt_state \<Rightarrow> getopt_state" where
  "double_dash g =
     (if optind g < length (args g) \<and> args g ! optind g = ''--'' then
        let g = g\<lparr>optind := optind g + 1\<rparr>;
            g = (if first_nonopt g \<noteq> last_nonopt g \<and> last_nonopt g \<noteq> optind g then exchange g
                 else if first_nonopt g = last_nonopt g then g\<lparr>first_nonopt := optind g\<rparr> else g)
        in g\<lparr>last_nonopt := length (args g), optind := length (args g)\<rparr>
      else g)"

definition advance :: "bool \<Rightarrow> getopt_state \<Rightarrow> getopt_state \<times> bool" where
  "advance posix g =
     (let g = clamp g;
          g = (if posix then g else skip_nonoptions (settle g));
          g = double_dash g in
      if optind g \<ge> length (args g) then
        (if first_nonopt g \<noteq> last_nonopt g then g\<lparr>optind := first_nonopt g\<rparr> else g, False)
      else if nonoption (args g ! optind g) then (g, False)
      else (g\<lparr>nextchar := tl (args g ! optind g)\<rparr>, True))"

text \<open>What the option string says of a character: no option, or an option with or without argument.\<close>

definition takes :: "string \<Rightarrow> char \<Rightarrow> bool option" where
  "takes optstring c =
     (if c = CHR '':'' \<or> c = CHR '';'' then None
      else case dropWhile (\<lambda>d. d \<noteq> c) optstring of
        [] \<Rightarrow> None
      | [_] \<Rightarrow> Some False
      | _ # d # _ \<Rightarrow> Some (d = CHR '':''))"

definition scan_char :: "string \<Rightarrow> getopt_state \<Rightarrow> int \<times> getopt_state" where
  "scan_char optstring g =
     (let c = hd (nextchar g); more = tl (nextchar g);
          g = g\<lparr>nextchar := more, optind := (if more = [] then optind g + 1 else optind g)\<rparr> in
      case takes optstring c of
        None \<Rightarrow> (code CHR ''?'', g\<lparr>optopt := code c\<rparr>)
      | Some False \<Rightarrow> (code c, g)
      | Some True \<Rightarrow>
          (if more \<noteq> [] then (code c, g\<lparr>optarg := Some more, optind := optind g + 1, nextchar := []\<rparr>)
           else if optind g \<ge> length (args g) then
             (code (if take 1 optstring = '':'' then CHR '':'' else CHR ''?''), g\<lparr>optopt := code c, nextchar := []\<rparr>)
           else (code c, g\<lparr>optarg := Some (args g ! optind g), optind := optind g + 1, nextchar := []\<rparr>)))"

definition getopt :: "bool \<Rightarrow> string \<Rightarrow> getopt_state \<Rightarrow> int \<times> getopt_state" where
  "getopt posix optstring g =
     (let (g, found) = (if nextchar g = [] then advance posix (g\<lparr>optarg := None\<rparr>) else (g\<lparr>optarg := None\<rparr>, True)) in
      if found then scan_char optstring g else (-1, g))"

subsection \<open>The characters left to scan\<close>

definition opt_weight :: "getopt_state \<Rightarrow> nat" where
  "opt_weight g = length (nextchar g) +
     sum_list (map (\<lambda>a. Suc (length a)) (drop (optind g + (if nextchar g = [] then 0 else 1)) (args g)))"

lemma drop_exchange: "last_nonopt g \<le> optind g \<Longrightarrow> drop (optind g) (args (exchange g)) = drop (optind g) (args g)"
proof (cases "optind g \<le> length (args g)")
  case False
  then show "last_nonopt g \<le> optind g \<Longrightarrow> ?thesis" by (auto simp: exchange_def Let_def min_def)
qed (auto simp: exchange_def Let_def min_def)

lemma exchange_same [simp]: "optind (exchange g) = optind g" "nextchar (exchange g) = nextchar g"
  by (simp_all add: exchange_def Let_def)

text \<open>Up to the element found, only elements in front of it move.\<close>

lemma weight_drop_mono: "i \<le> j \<Longrightarrow> sum_list (map (\<lambda>a. Suc (length a)) (drop j xs)) \<le> sum_list (map (\<lambda>a. Suc (length a)) (drop i xs))"
proof -
  assume "i \<le> j"
  then obtain k where "j = i + k" using le_Suc_ex by blast
  then have "drop i xs = take k (drop i xs) @ drop j xs" by (metis append_take_drop_id drop_drop add.commute)
  then show ?thesis by (metis le_add2 map_append sum_list_append)
qed

text \<open>The steps of \<open>advance\<close> keep the elements from \<open>optind\<close> on and move \<open>optind\<close> forward.\<close>

definition goes_on :: "getopt_state \<Rightarrow> getopt_state \<Rightarrow> bool" where
  "goes_on g g' \<longleftrightarrow> optind g \<le> optind g' \<and> drop (optind g') (args g') = drop (optind g') (args g) \<and> nextchar g' = nextchar g"

lemma goes_on_trans: "goes_on g h \<Longrightarrow> goes_on h k \<Longrightarrow> goes_on g k"
  unfolding goes_on_def by (metis (no_types, lifting) add.commute drop_drop le_Suc_ex le_trans)

lemma goes_on_clamp: "goes_on g (clamp g)" "last_nonopt (clamp g) \<le> optind (clamp g)"
  by (simp_all add: goes_on_def clamp_def)

lemma goes_on_settle: "last_nonopt g \<le> optind g \<Longrightarrow> goes_on g (settle g)"
  by (simp add: goes_on_def settle_def drop_exchange)

lemma goes_on_skip: "goes_on g (skip_nonoptions g)" "last_nonopt (skip_nonoptions g) = optind (skip_nonoptions g)"
  by (simp_all add: goes_on_def skip_nonoptions_def Let_def)

lemma goes_on_double_dash: "last_nonopt g \<le> optind g \<Longrightarrow> goes_on g (double_dash g)"
  by (auto simp: goes_on_def double_dash_def Let_def exchange_def)

lemma weight_goes_on:
  assumes "goes_on g h" "nextchar g = []"
  shows "opt_weight h \<le> opt_weight g"
  using assms weight_drop_mono [of "optind g" "optind h" "args g"] by (simp add: goes_on_def opt_weight_def)

lemma advance_weight:
  assumes "advance posix g = (g', True)" "nextchar g = []"
  shows "nextchar g' \<noteq> [] \<and> opt_weight g' < opt_weight g"
proof -
  define h where "h = double_dash (if posix then clamp g else skip_nonoptions (settle (clamp g)))"
  have h: "goes_on g h" unfolding h_def
    using goes_on_clamp goes_on_settle goes_on_skip goes_on_double_dash by (smt (verit) goes_on_trans order_refl)
  from assms(1) have n: "optind h < length (args h)" "\<not> nonoption (args h ! optind h)"
    "g' = h\<lparr>nextchar := tl (args h ! optind h)\<rparr>"
    by (auto simp: advance_def Let_def h_def split: if_splits)
  obtain e where e: "e = args h ! optind h" by simp
  from n(2) have t: "tl e \<noteq> []" by (auto simp: nonoption_def e split: list.splits)
  have "drop (optind h) (args h) = e # drop (Suc (optind h)) (args h)" using Cons_nth_drop_Suc [OF n(1)] e by simp
  moreover have "nextchar h = []" using h assms(2) by (simp add: goes_on_def)
  ultimately have "opt_weight g' < opt_weight h" using n(3) t e by (simp add: opt_weight_def)
  with weight_goes_on [OF h assms(2)] n(3) t e show ?thesis by simp
qed

lemma scan_weight: "nextchar g \<noteq> [] \<Longrightarrow> opt_weight (snd (scan_char optstring g)) < opt_weight g"
  using weight_drop_mono [of "Suc (optind g)" "Suc (Suc (optind g))" "args g"]
  by (cases "nextchar g") (auto simp: scan_char_def opt_weight_def Let_def split: option.splits if_splits bool.splits)

lemma getopt_weight:
  assumes "getopt posix optstring g = (opt, g')" "opt \<noteq> -1"
  shows "opt_weight g' < opt_weight g"
proof -
  let ?g = "g\<lparr>optarg := None\<rparr>"
  have w: "opt_weight ?g = opt_weight g" by (simp add: opt_weight_def)
  show ?thesis
  proof (cases "nextchar g = []")
    case True
    obtain h b where h: "advance posix ?g = (h, b)" by (cases "advance posix ?g")
    with assms True have b: "b" "scan_char optstring h = (opt, g')" by (auto simp: getopt_def split: if_splits)
    with h advance_weight [of posix ?g h] True have "nextchar h \<noteq> [] \<and> opt_weight h < opt_weight ?g" by simp
    with scan_weight [of h optstring] b w show ?thesis by simp
  next
    case False
    with assms have "scan_char optstring ?g = (opt, g')" by (simp add: getopt_def)
    with scan_weight [of ?g optstring] False w show ?thesis by simp
  qed
qed

subsection \<open>The program\<close>

definition isprint :: "char \<Rightarrow> bool" where "isprint c \<longleftrightarrow> 32 \<le> code c \<and> code c \<le> 126"

definition printable :: "char \<Rightarrow> char" where "printable c = (if isprint c then c else CHR ''#'')"

definition usage_error :: "string \<Rightarrow> string \<Rightarrow> int \<Rightarrow> ('m, 'a) prog" where
  "usage_error progname msg opt =
     seq (only_if (opt \<noteq> 0) (eprintf (''%s (-%c)'' @ [NL]) [T msg, N (code (printable (char_of opt)))]))
     (seq (eprintf (''Usage: %s [-p arg] [-s arg] [-y]'' @ [NL]) [T progname])
     (stop (Exited EXIT_FAILURE)))"

definition optstring :: string where "optstring = '':p:s:y''"

text \<open>The \<open>switch\<close> on what \<open>getopt\<close> answered.\<close>

definition option_case :: "string \<Rightarrow> int \<Rightarrow> getopt_state \<Rightarrow> ('m, unit) prog" where
  "option_case progname opt g =
     (if opt = code CHR ''p'' then
        bind (require (optarg g) ''null pointer'') (\<lambda>a.
        printf (''p option was specified with argument \"%s\".'' @ [NL]) [T a])
      else if opt = code CHR ''s'' then
        bind (require (optarg g) ''null pointer'') (\<lambda>a.
        printf (''s option was specified with argument \"%s\".'' @ [NL]) [T a])
      else if opt = code CHR ''y'' then printf (''y option was specified'' @ [NL]) []
      else if opt = code CHR '':'' then usage_error progname ''Missing argument'' (optopt g)
      else if opt = code CHR ''?'' then usage_error progname ''Unrecognized option'' (optopt g)
      else skip)"

function option_loop :: "bool \<Rightarrow> string \<Rightarrow> getopt_state \<Rightarrow> ('m, getopt_state) prog" where
  "option_loop posix progname g =
     (case getopt posix optstring g of (opt, g') \<Rightarrow>
        if opt = -1 then return g'
        else
          seq (printf (''option = %3d(%c), optind = %d'' @ [NL])
                 [N opt, N (code (printable (char_of opt))), N (int (optind g'))])
          (seq (option_case progname opt g')
          (option_loop posix progname g')))"
  by pat_completeness auto
termination
  by (relation "measure (\<lambda>(posix, progname, g). opt_weight g)") (auto intro: getopt_weight dest: sym)

declare option_loop.simps [simp del]

text \<open>\<open>argv[0]\<close> is only used behind an option, so there is one.\<close>

definition option_parsing :: "bool \<Rightarrow> string list \<Rightarrow> ('m, unit) prog" where
  "option_parsing posix argv =
     bind (option_loop posix (concat (take 1 argv)) (getopt_start argv)) (\<lambda>g.
     seq (printf (''argc = %d, optind = %d'' @ [NL]) [N (int (length argv)), N (int (optind g))])
     (only_if (optind g < length argv)
       (printf (''first nonoption argument = %s'' @ [NL]) [T (args g ! optind g)])))"

text \<open>\<open>LinuxAPI/main.c\<close>.\<close>

definition main :: "bool \<Rightarrow> string list \<Rightarrow> ('m, int) prog" where
  "main posix argv = seq (option_parsing posix argv) (return 0)"

subsection \<open>Command lines\<close>

text \<open>An option as it is written on the command line, and the lines the program prints for it; \<open>n\<close> is the
  position behind it.\<close>

datatype opt = Opt_p string | Opt_s string | Opt_y

fun render :: "opt \<Rightarrow> string list" where
  "render (Opt_p a) = [''-p'', a]"
| "render (Opt_s a) = [''-s'', a]"
| "render Opt_y = [''-y'']"

fun option_line :: "nat \<Rightarrow> opt \<Rightarrow> event list" where
  "option_line n (Opt_p a) =
     [Out (''option = %3d(%c), optind = %d'' @ [NL]) [N 112, N 112, N (int n)],
      Out (''p option was specified with argument \"%s\".'' @ [NL]) [T a]]"
| "option_line n (Opt_s a) =
     [Out (''option = %3d(%c), optind = %d'' @ [NL]) [N 115, N 115, N (int n)],
      Out (''s option was specified with argument \"%s\".'' @ [NL]) [T a]]"
| "option_line n Opt_y =
     [Out (''option = %3d(%c), optind = %d'' @ [NL]) [N 121, N 121, N (int n)],
      Out (''y option was specified'' @ [NL]) []]"

text \<open>Options with the non-options written in front of each.\<close>

definition items :: "(string list \<times> opt) list \<Rightarrow> string list" where
  "items cs = concat (map (\<lambda>(as, o'). as @ render o') cs)"

fun option_lines :: "nat \<Rightarrow> (string list \<times> opt) list \<Rightarrow> event list" where
  "option_lines n [] = []"
| "option_lines n ((as, o') # cs) =
     (let m = n + length as + length (render o') in option_line m o' @ option_lines m cs)"

text \<open>The state between two calls: the options up to \<open>D\<close> are in place, the non-options \<open>A\<close> have been
  skipped, the options \<open>B\<close> behind them have been scanned, \<open>R\<close> is still to come.\<close>

definition between :: "getopt_state \<Rightarrow> string list \<Rightarrow> string list \<Rightarrow> string list \<Rightarrow> string list \<Rightarrow> bool" where
  "between g D A B R \<longleftrightarrow> args g = D @ A @ B @ R \<and> nextchar g = [] \<and>
     first_nonopt g = length D \<and> last_nonopt g = length D + length A \<and> optind g = length D + length A + length B"

lemma skip_between:
  assumes "between g D A B (as @ R)" "list_all nonoption as" "R = [] \<or> \<not> nonoption (hd R)"
  shows "between (skip_nonoptions (settle (clamp (g\<lparr>optarg := x\<rparr>)))) (D @ B) (A @ as) [] R"
proof -
  have "takeWhile nonoption (as @ R) = as"
    using assms(2,3) by (cases R) (auto simp: list_all_iff takeWhile_append)
  with assms(1) show ?thesis
    by (cases "A = []"; cases "B = []")
      (auto simp: between_def skip_nonoptions_def settle_def clamp_def exchange_def Let_def)
qed

text \<open>An option is found, and it and its argument are scanned.\<close>

lemma render_hd: "\<exists>e r. render o' = e # r \<and> \<not> nonoption e \<and> e \<noteq> ''--''"
  by (cases o') (auto simp: nonoption_def)

fun opt_code :: "opt \<Rightarrow> int" where
  "opt_code (Opt_p a) = 112" | "opt_code (Opt_s a) = 115" | "opt_code Opt_y = 121"

fun opt_arg :: "opt \<Rightarrow> string option" where
  "opt_arg (Opt_p a) = Some a" | "opt_arg (Opt_s a) = Some a" | "opt_arg Opt_y = None"

lemma takes_optstring:
  "takes optstring CHR ''p'' = Some True" "takes optstring CHR ''s'' = Some True" "takes optstring CHR ''y'' = Some False"
  by (simp_all add: takes_def optstring_def)

lemma nth_between: "between g D A [] (e # R) \<Longrightarrow> args g ! optind g = e \<and> optind g < length (args g)"
  by (simp add: between_def nth_append)

lemma advance_finds:
  assumes b: "between g D A B (as @ e # R)" and as: "list_all nonoption as" and e: "\<not> nonoption e" "e \<noteq> ''--''"
  shows "\<exists>h. between h (D @ B) (A @ as) [] (e # R) \<and> optarg h = None \<and>
    getopt False optstring g = scan_char optstring (h\<lparr>nextchar := tl e\<rparr>)"
proof -
  define h where "h = skip_nonoptions (settle (clamp (g\<lparr>optarg := None\<rparr>)))"
  have h: "between h (D @ B) (A @ as) [] (e # R)"
    unfolding h_def by (rule skip_between [OF b as]) (simp add: e)
  note n = nth_between [OF h]
  have "double_dash h = h" using n e(2) by (simp add: double_dash_def)
  then have "advance False (g\<lparr>optarg := None\<rparr>) = (h\<lparr>nextchar := tl e\<rparr>, True)"
    using n e(1) by (simp add: advance_def h_def [symmetric] Let_def)
  moreover have "nextchar g = []" using b by (simp add: between_def)
  moreover have "optarg h = None"
    by (simp add: h_def skip_nonoptions_def settle_def clamp_def exchange_def Let_def)
  ultimately show ?thesis using h by (auto simp: getopt_def)
qed

lemma getopt_option:
  assumes b: "between g D A B (as @ render o' @ R)" and as: "list_all nonoption as"
  shows "\<exists>g'. getopt False optstring g = (opt_code o', g') \<and> optarg g' = opt_arg o' \<and>
    between g' (D @ B) (A @ as) (render o') R"
proof -
  obtain e r where e: "render o' = e # r" "\<not> nonoption e" "e \<noteq> ''--''" using render_hd by blast
  with advance_finds [of g D A B as e "r @ R"] b as obtain h where
    "between h (D @ B) (A @ as) [] (e # r @ R)" "optarg h = None"
    "getopt False optstring g = scan_char optstring (h\<lparr>nextchar := tl e\<rparr>)" by auto
  with e(1) show ?thesis
    by (cases o') (auto simp: scan_char_def takes_optstring between_def code_def nth_append Let_def)
qed

text \<open>Calls that fail: the argument is missing, or the character is no option.\<close>

lemma getopt_missing:
  assumes b: "between g D A B (as @ [[CHR ''-'', c]])" and as: "list_all nonoption as" and c: "takes optstring c = Some True"
  shows "\<exists>g'. getopt False optstring g = (58, g') \<and> optopt g' = code c \<and> optind g' = length (args g)"
proof -
  from c have "c \<noteq> CHR ''-''" by (auto simp: takes_def optstring_def)
  with advance_finds [OF b as] obtain h where
    "between h (D @ B) (A @ as) [] [[CHR ''-'', c]]" "getopt False optstring g = scan_char optstring (h\<lparr>nextchar := [c]\<rparr>)"
    by (auto simp: nonoption_def)
  with b c show ?thesis
    by (auto simp: scan_char_def between_def code_def optstring_def Let_def split: if_splits)
qed

lemma getopt_unknown:
  assumes b: "between g D A B (as @ (CHR ''-'' # c # w) # R)" and as: "list_all nonoption as"
    and c: "takes optstring c = None" "c # w \<noteq> ''-''"
  shows "\<exists>g'. getopt False optstring g = (63, g') \<and> optopt g' = code c \<and>
    optind g' = length D + length B + length A + length as + (if w = [] then 1 else 0)"
proof -
  from c(2) advance_finds [OF b as] obtain h where
    "between h (D @ B) (A @ as) [] ((CHR ''-'' # c # w) # R)" "getopt False optstring g = scan_char optstring (h\<lparr>nextchar := c # w\<rparr>)"
    by (auto simp: nonoption_def)
  with c(1) show ?thesis by (auto simp: scan_char_def between_def code_def Let_def)
qed

text \<open>Behind the last option.\<close>

lemma getopt_end:
  assumes b: "between g D A B as" and as: "list_all nonoption as"
  shows "\<exists>g'. getopt False optstring g = (-1, g') \<and> args g' = D @ B @ A @ as \<and> optind g' = length D + length B"
proof -
  define h where "h = skip_nonoptions (settle (clamp (g\<lparr>optarg := None\<rparr>)))"
  have h: "between h (D @ B) (A @ as) [] []"
    unfolding h_def by (rule skip_between) (use b as in simp_all)
  then have n: "optind h = length (args h)" by (simp add: between_def)
  then have "double_dash h = h" by (simp add: double_dash_def)
  with n have "advance False (g\<lparr>optarg := None\<rparr>) =
      (if first_nonopt h \<noteq> last_nonopt h then h\<lparr>optind := first_nonopt h\<rparr> else h, False)"
    by (simp add: advance_def h_def [symmetric] Let_def)
  moreover have "nextchar g = []" using b by (simp add: between_def)
  ultimately show ?thesis using h by (auto simp: getopt_def between_def Let_def)
qed

lemma option_case_prints:
  "optarg g = opt_arg o' \<Longrightarrow> prints (seq (printf (''option = %3d(%c), optind = %d'' @ [NL])
     [N (opt_code o'), N (code (printable (char_of (opt_code o')))), N (int (optind g))]) (option_case pn (opt_code o') g))
   (option_line (optind g) o')"
  by (cases o')
    (auto simp: option_case_def code_def printable_def isprint_def prints_def seq_def bind_def require_def return_def
      printf_def emit_def logged_def)

text \<open>The loop works off well-formed options.\<close>

lemma option_loop_items:
  assumes "between g D A B (items cs @ R)" "list_all (\<lambda>c. list_all nonoption (fst c)) cs"
  shows "\<exists>g' s' D' B'. option_loop False pn g s = option_loop False pn g' s' \<and>
    trace s' = trace s @ option_lines (optind g) cs \<and>
    between g' D' (A @ concat (map fst cs)) B' R \<and> D' @ B' = D @ B @ concat (map (render \<circ> snd) cs)"
  using assms
proof (induction cs arbitrary: g D A B s)
  case Nil
  then show ?case by (auto simp: items_def)
next
  case (Cons c cs)
  obtain as o' where c: "c = (as, o')" by (cases c)
  with Cons.prems have b: "between g D A B (as @ render o' @ items cs @ R)" "list_all nonoption as"
    and cs: "list_all (\<lambda>c. list_all nonoption (fst c)) cs" by (simp_all add: items_def)
  from getopt_option [OF b] obtain g1 where g1: "getopt False optstring g = (opt_code o', g1)" "optarg g1 = opt_arg o'"
    "between g1 (D @ B) (A @ as) (render o') (items cs @ R)" by blast
  from option_case_prints [OF g1(2), of pn] obtain s1 where s1: "trace s1 = trace s @ option_line (optind g1) o'"
    "seq (printf (''option = %3d(%c), optind = %d'' @ [NL])
       [N (opt_code o'), N (code (printable (char_of (opt_code o')))), N (int (optind g1))]) (option_case pn (opt_code o') g1) s = (Ok (), s1)"
    unfolding prints_def by blast
  have "opt_code o' \<noteq> -1" by (cases o') auto
  then have l: "option_loop False pn g s = option_loop False pn g1 s1"
    using s1(2) g1(1) by (subst option_loop.simps) (simp add: seq_def bind_def split: prod.splits outcome.splits)
  have n: "optind g1 = optind g + length as + length (render o')"
    using g1(3) b(1) by (simp add: between_def)
  from Cons.IH [OF g1(3) cs, of s1] obtain g' s' D' B' where "option_loop False pn g1 s1 = option_loop False pn g' s'"
    "trace s' = trace s1 @ option_lines (optind g1) cs" "between g' D' ((A @ as) @ concat (map fst cs)) B' R"
    "D' @ B' = (D @ B) @ render o' @ concat (map (render \<circ> snd) cs)" by blast
  with l n s1(1) c show ?case
    by - (rule exI [of _ g'], rule exI [of _ s'], rule exI [of _ D'], rule exI [of _ B'], simp add: Let_def comp_def)
qed

lemma between_start: "between (getopt_start (pn # xs)) [pn] [] [] xs"
  by (simp add: between_def getopt_start_def)

text \<open>C37. \<open>option_parsing\<close> on a command line of options and non-options in any order: every option is reported
  once, in order, with its argument and the position behind it; then the number of arguments and of the
  elements that belong to options, and the first non-option, if there is one. An argument of an option may
  be any string, also one that looks like an option.\<close>

theorem options_roundtrip:
  assumes "list_all (\<lambda>c. list_all nonoption (fst c)) cs" "list_all nonoption as"
  shows "\<exists>s'. option_parsing False (pn # items cs @ as) s = (Ok (), s') \<and>
    trace s' = trace s @ option_lines 1 cs @
      [Out (''argc = %d, optind = %d'' @ [NL])
        [N (1 + int (length (items cs) + length as)), N (1 + int (length (concat (map (render \<circ> snd) cs))))]] @
      (case concat (map fst cs) @ as of [] \<Rightarrow> []
       | a # _ \<Rightarrow> [Out (''first nonoption argument = %s'' @ [NL]) [T a]])"
proof -
  let ?g = "getopt_start (pn # items cs @ as)"
  have o: "optind ?g = 1" by (simp add: getopt_start_def)
  from option_loop_items [OF between_start [of pn "items cs @ as"] assms(1), of pn s] obtain g1 s1 D B where
    l: "option_loop False pn ?g s = option_loop False pn g1 s1" and t: "trace s1 = trace s @ option_lines 1 cs"
    and b: "between g1 D (concat (map fst cs)) B as" "D @ B = pn # concat (map (render \<circ> snd) cs)"
    by (auto simp: o)
  obtain M Q where M: "concat (map fst cs) = M" and Q: "concat (map (render \<circ> snd) cs) = Q" by simp
  note b = b [unfolded M Q]
  from getopt_end [OF b(1) assms(2)] obtain g2 where g2: "getopt False optstring g1 = (-1, g2)"
    "args g2 = D @ B @ M @ as" "optind g2 = length D + length B" by blast
  have "option_loop False pn g1 s1 = (Ok g2, s1)" using g2(1) by (simp add: option_loop.simps return_def)
  moreover have q: "length D + length B = Suc (length Q)" using arg_cong [OF b(2), of length] by simp
  moreover have "length (items cs) = length Q + length M" unfolding M [symmetric] Q [symmetric]
    by (induction cs) (auto simp: items_def)
  moreover have "args g2 ! optind g2 = hd (M @ as)" if "M @ as \<noteq> []"
    using that g2(2,3) hd_conv_nth [OF that] by (simp add: nth_append)
  ultimately show ?thesis
    using l t g2(3) unfolding M Q
    by (cases "M @ as")
      (auto simp: option_parsing_def seq_def bind_def printf_def emit_def logged_def only_if_def skip_def return_def)
qed

theorem options_roundtrip_witness:
  "\<exists>s'. option_parsing False [''LinuxAPI'', ''f1'', ''-p'', ''-y'', ''f2'', ''-y''] (boot []) = (Ok (), s') \<and>
    last (trace s') = Out (''first nonoption argument = %s'' @ [NL]) [T ''f1'']"
proof -
  let ?cs = "[([''f1''], Opt_p ''-y''), ([''f2''], Opt_y)]"
  have "list_all (\<lambda>c. list_all nonoption (fst c)) ?cs" "list_all nonoption []" by (simp_all add: nonoption_def)
  from options_roundtrip [OF this, of "''LinuxAPI''" "boot []"] show ?thesis by (force simp: items_def)
qed

text \<open>What \<open>usage_error\<close> makes of a rejected option.\<close>

definition rejection :: "string \<Rightarrow> string \<Rightarrow> int \<Rightarrow> char \<Rightarrow> nat \<Rightarrow> event list" where
  "rejection pn msg opt c n =
     [Out (''option = %3d(%c), optind = %d'' @ [NL]) [N opt, N opt, N (int n)],
      Err (''%s (-%c)'' @ [NL]) [T msg, N (code (printable c))],
      Err (''Usage: %s [-p arg] [-s arg] [-y]'' @ [NL]) [T pn]]"

lemma loop_rejects:
  assumes "getopt False optstring g = (opt, g')" "optopt g' = code c" "c \<noteq> NUL"
    and "opt = 58 \<and> msg = ''Missing argument'' \<or> opt = 63 \<and> msg = ''Unrecognized option''"
  shows "\<exists>s'. option_loop False pn g s = (Stop (Exited 1), s') \<and> trace s' = trace s @ rejection pn msg opt c (optind g')"
proof -
  have "code c = code NUL \<longleftrightarrow> c = NUL" unfolding code_def by (rule of_char_eq_iff)
  moreover have "code NUL = 0" by (simp add: code_def)
  ultimately have "code c \<noteq> 0" using assms(3) by simp
  then have u: "usage_error pn msg (code c) s1 = (Stop (Exited 1), s1\<lparr>trace := trace s1 @ tl (rejection pn msg opt c n),
      errno := stdio_eno s1 (stdio_eno s1 (errno s1))\<rparr>)" for s1 :: "'a proc_scheme" and n
    by (simp add: usage_error_def seq_def bind_def eprintf_def emit_def logged_def only_if_def stop_def rejection_def
        EXIT_FAILURE_def code_def)
  have o: "option_case pn opt g' = usage_error pn msg (code c)"
    using assms(2,4) by (auto simp: option_case_def code_def)
  have v: "code (printable (char_of opt)) = opt" "opt \<noteq> -1"
    using assms(4) by (auto simp: code_def printable_def isprint_def)
  show ?thesis
    using assms(1) v(2)
    by (subst option_loop.simps)
      (simp add: seq_def bind_def printf_def emit_def logged_def o u [of _ "optind g'"] v(1), simp add: rejection_def)
qed

text \<open>C38. An option that lacks its argument at the end of the command line, or a character that is no option
  (the rest of its element and what follows are not looked at): the options in front of it are reported,
  then the message names the character and the program ends as a failure.\<close>

theorem options_rejected:
  assumes "list_all (\<lambda>c. list_all nonoption (fst c)) cs" "list_all nonoption as" "c \<noteq> NUL"
  shows "(takes optstring c = Some True \<longrightarrow>
      (\<exists>s'. option_parsing False (pn # items cs @ as @ [[CHR ''-'', c]]) s = (Stop (Exited 1), s') \<and>
        trace s' = trace s @ option_lines 1 cs @
          rejection pn ''Missing argument'' 58 c (length (pn # items cs @ as @ [[CHR ''-'', c]])))) \<and>
    (takes optstring c = None \<and> c # w \<noteq> ''-'' \<longrightarrow>
      (\<exists>s'. option_parsing False (pn # items cs @ as @ (CHR ''-'' # c # w) # R) s = (Stop (Exited 1), s') \<and>
        trace s' = trace s @ option_lines 1 cs @
          rejection pn ''Unrecognized option'' 63 c (1 + length (items cs) + length as + (if w = [] then 1 else 0))))"
proof -
  have loop: "\<exists>s'. option_parsing False (pn # items cs @ xs) s = (Stop (Exited 1), s') \<and>
      trace s' = trace s @ option_lines 1 cs @ rejection pn msg opt c n"
    if r: "\<And>g1 D A B. between g1 D A B xs \<Longrightarrow> length D + length A + length B = 1 + length (items cs) \<Longrightarrow>
        \<exists>g'. getopt False optstring g1 = (opt, g') \<and> optopt g' = code c \<and> optind g' = n"
      and m: "opt = 58 \<and> msg = ''Missing argument'' \<or> opt = 63 \<and> msg = ''Unrecognized option''" for xs opt msg n
  proof -
    let ?g = "getopt_start (pn # items cs @ xs)"
    have o: "optind ?g = 1" by (simp add: getopt_start_def)
    from option_loop_items [OF between_start [of pn "items cs @ xs"] assms(1), of pn s] obtain g1 s1 D B where
      l: "option_loop False pn ?g s = option_loop False pn g1 s1" and t: "trace s1 = trace s @ option_lines 1 cs"
      and b: "between g1 D (concat (map fst cs)) B xs" "D @ B = pn # concat (map (render \<circ> snd) cs)"
      by (auto simp: o)
    have "length (items cs) = length (concat (map (render \<circ> snd) cs)) + length (concat (map fst cs))"
      by (induction cs) (auto simp: items_def)
    with arg_cong [OF b(2), of length] have "length D + length (concat (map fst cs)) + length B = 1 + length (items cs)" by simp
    from r [OF b(1) this] obtain g' where g': "getopt False optstring g1 = (opt, g')" "optopt g' = code c" "optind g' = n" by blast
    from loop_rejects [OF g'(1,2) assms(3) m, of pn s1] l t g'(3) show ?thesis
      by (auto simp: option_parsing_def bind_def)
  qed
  show ?thesis
  proof (intro conjI impI)
    assume a: "takes optstring c = Some True"
    show "\<exists>s'. option_parsing False (pn # items cs @ as @ [[CHR ''-'', c]]) s = (Stop (Exited 1), s') \<and>
        trace s' = trace s @ option_lines 1 cs @
          rejection pn ''Missing argument'' 58 c (length (pn # items cs @ as @ [[CHR ''-'', c]]))"
      by (rule loop) (use getopt_missing [OF _ assms(2) a] in \<open>fastforce simp: between_def\<close>, simp)
  next
    assume a: "takes optstring c = None \<and> c # w \<noteq> ''-''"
    show "\<exists>s'. option_parsing False (pn # items cs @ as @ (CHR ''-'' # c # w) # R) s = (Stop (Exited 1), s') \<and>
        trace s' = trace s @ option_lines 1 cs @
          rejection pn ''Unrecognized option'' 63 c (1 + length (items cs) + length as + (if w = [] then 1 else 0))"
      by (rule loop) (use getopt_unknown [OF _ assms(2)] a in \<open>fastforce\<close>, simp)
  qed
qed

theorem options_rejected_witness:
  "\<exists>s'. option_parsing False [''LinuxAPI'', ''-y'', ''-s''] (boot []) = (Stop (Exited 1), s')"
proof -
  have "list_all (\<lambda>c. list_all nonoption (fst c)) [([], Opt_y)]" "list_all nonoption []" "CHR ''s'' \<noteq> NUL" by simp_all
  from options_rejected [OF this, of "''LinuxAPI''" "boot []"] takes_optstring(2) show ?thesis by (force simp: items_def)
qed

end
