(* ===== verification/SystemInfo.thy ===== *)
theory SystemInfo
  imports FdIO
begin

text \<open>
  Users, privileges, the system log and system values: \<open>user_setuserid.c\<close>, \<open>user_group.c\<close>,
  \<open>capability_test.c\<close>, \<open>syslog_test.c\<close>, \<open>get_limit.c\<close> and \<open>dltest.c\<close> of \<open>LinuxAPI\<close>.
\<close>

subsection \<open>The system log\<close>

datatype level = LOG_EMERG | LOG_ALERT | LOG_CRIT | LOG_ERR | LOG_WARNING | LOG_NOTICE | LOG_INFO | LOG_DEBUG

fun level_code :: "level \<Rightarrow> nat" where
  "level_code LOG_EMERG = 0" | "level_code LOG_ALERT = 1" | "level_code LOG_CRIT = 2" | "level_code LOG_ERR = 3"
| "level_code LOG_WARNING = 4" | "level_code LOG_NOTICE = 5" | "level_code LOG_INFO = 6" | "level_code LOG_DEBUG = 7"

text \<open>A level is below another when it is more severe.\<close>

instantiation level :: linorder
begin

definition less_eq_level :: "level \<Rightarrow> level \<Rightarrow> bool" where "less_eq_level a b = (level_code a \<le> level_code b)"
definition less_level :: "level \<Rightarrow> level \<Rightarrow> bool" where "less_level a b = (level_code a < level_code b)"

instance
proof
  fix a b :: level
  show "a \<le> b \<Longrightarrow> b \<le> a \<Longrightarrow> a = b"
    by (cases a; cases b) (simp_all add: less_eq_level_def)
qed (auto simp: less_eq_level_def less_level_def)

end

definition LOG_PID :: int where "LOG_PID = 1"
definition LOG_CONS :: int where "LOG_CONS = 2"
definition LOG_USER :: nat where "LOG_USER = 8"

text \<open>A mask is a word with one bit for each level; a priority is a facility, a multiple of 8, with a level.\<close>

definition LOG_MASK :: "nat \<Rightarrow> 32 word" where "LOG_MASK p = push_bit p 1"
definition LOG_UPTO :: "level \<Rightarrow> 32 word" where "LOG_UPTO l = push_bit (level_code l + 1) 1 - 1"
definition LOG_PRI :: "nat \<Rightarrow> nat" where "LOG_PRI p = p mod 8"

definition admits :: "32 word \<Rightarrow> nat \<Rightarrow> bool" where
  "admits m p \<longleftrightarrow> LOG_MASK (LOG_PRI p) AND m \<noteq> 0"

text \<open>A message the mask does not admit is not sent; the facility is that of \<open>openlog\<close> if it has none.\<close>

definition syslog :: "32 word \<Rightarrow> nat \<Rightarrow> string \<Rightarrow> carg list \<Rightarrow> ('m, unit) prog" where
  "syslog m p f as =
     only_if (admits m p)
       (seq (sys (Sys ''send'' (N (int (if p div 8 = 0 then LOG_USER + p else p)) # T f # as))) skip)"

definition syslog_test :: "('m, unit) prog" where
  "syslog_test =
     seq (sys (Sys ''openlog'' [T ''LinuxAPI'', N (LOG_PID OR LOG_CONS), N (int LOG_USER)]))
     (let m = LOG_UPTO LOG_ERR; error = -1 in
      seq (syslog m (LOG_USER + level_code LOG_INFO) ''test information'' [])
      (seq (syslog m (level_code LOG_ERR) ''test error = %d'' [N error])
      (seq (sys (Sys ''closelog'' []))
      skip)))"

subsection \<open>User identities\<close>

definition geteuid :: "('m, int) prog" where "geteuid = bind (sys (Sys ''geteuid'' [])) (\<lambda>r. return (ret r))"
definition getuid :: "('m, int) prog" where "getuid = bind (sys (Sys ''getuid'' [])) (\<lambda>r. return (ret r))"

definition setresuid :: "int \<Rightarrow> int \<Rightarrow> int \<Rightarrow> ('m, unit) prog" where
  "setresuid r e s = seq (or_errExit (Sys ''setresuid'' [N r, N e, N s]) ''seteuid'' []) skip"

definition user_getuserid :: "('m, unit) prog" where
  "user_getuserid =
     bind (sys (Sys ''getresuid'' [])) (\<lambda>r.
     bind (require (case rints r of [ruid, euid, suid] \<Rightarrow> Some (ruid, euid, suid) | _ \<Rightarrow> None) ''uninitialised ids'') (\<lambda>(ruid, euid, suid).
     seq (printf (''real id = %d'' @ [NL]) [N ruid])
     (seq (printf (''effective id = %d'' @ [NL]) [N euid])
     (printf (''saved set-user-ID = %d'' @ [NL]) [N suid]))))"

definition user_setuserid :: "('m, unit) prog" where
  "user_setuserid =
     bind geteuid (\<lambda>euid.
     bind getuid (\<lambda>u.
     seq (setresuid (-1) u (-1))
     (bind geteuid (\<lambda>e.
     seq (printf (''effective id after change = %d'' @ [NL]) [N e])
     (seq (setresuid (-1) euid (-1))
     (bind geteuid (\<lambda>e.
     seq (printf (''effective id after recover = %d'' @ [NL]) [N e])
     (bind getuid (\<lambda>u1.
     bind getuid (\<lambda>u2.
     seq (setresuid u1 u2 (-1))
     (bind geteuid (\<lambda>e.
     printf (''effective id after remove = %d'' @ [NL]) [N e]))))))))))))"

text \<open>The members of a \<open>struct passwd\<close>; a null pointer is no reply.\<close>

definition print_passwd :: "reply \<Rightarrow> ('m, unit) prog" where
  "print_passwd r =
     (case (rstrs r, rints r) of
        ([name, shell, passwd], [uid, gid]) \<Rightarrow>
          seq (printf ''name=%s/'' [T name])
          (seq (printf ''uid=%d/'' [N uid])
          (seq (printf ''gid=%d/'' [N gid])
          (seq (printf ''shell=%s/'' [T shell])
          (printf (''passwd=%s'' @ [NL]) [T passwd]))))
      | _ \<Rightarrow> undef ''null pointer'')"

definition user_group :: "('m, unit) prog" where
  "user_group =
     bind (sys (Sys ''getpwnam'' [T ''ahnmh''])) (\<lambda>p.
     seq (print_passwd p)
     (bind (sys (Sys ''getpwuid'' [N 0])) (\<lambda>p.
     seq (print_passwd p)
     (seq (loop (\<lambda>_.
        bind (sys (Sys ''getpwent'' [])) (\<lambda>p.
        if ret p = NULL then leave () else seq (print_passwd p) (again ()))) ())
     (seq (sys (Sys ''endpwent'' []))
     (bind (sys (Sys ''crypt'' [T ''1qaz2wsx'', T ''mh''])) (\<lambda>c.
     bind (require (case rstrs c of [t] \<Rightarrow> Some t | _ \<Rightarrow> None) ''null pointer'') (\<lambda>encoded.
     printf (''encoded password=%s'' @ [NL]) [T encoded]))))))))"

subsection \<open>Capabilities\<close>

definition CAP_DAC_READ_SEARCH :: int where "CAP_DAC_READ_SEARCH = 2"
definition CAP_EFFECTIVE :: int where "CAP_EFFECTIVE = 0"
definition CAP_SET :: int where "CAP_SET = 1"

definition cap_free :: "int \<Rightarrow> ('m, int) prog" where
  "cap_free c = bind (sys (Sys ''cap_free'' [N c])) (\<lambda>r. return (ret r))"

definition get_cap :: "int \<Rightarrow> int \<Rightarrow> ('m, int) prog" where
  "get_cap capability setting =
     bind (sys (Sys ''cap_get_proc'' [])) (\<lambda>caps.
     if ret caps = NULL then return (-1)
     else
       bind (sys (Sys ''cap_set_flag'' [N (ret caps), N CAP_EFFECTIVE, N 1, N capability, N setting])) (\<lambda>f.
       if ret f = -1 then seq (cap_free (ret caps)) (return (-1))
       else
         bind (sys (Sys ''cap_set_proc'' [N (ret caps)])) (\<lambda>p.
         if ret p = -1 then seq (cap_free (ret caps)) (return (-1))
         else seq (cap_free (ret caps)) (return 0))))"

definition del_cap :: "('m, int) prog" where
  "del_cap =
     bind (sys (Sys ''cap_init'' [])) (\<lambda>e.
     if ret e = NULL then return (-1)
     else
       bind (sys (Sys ''cap_set_proc'' [N (ret e)])) (\<lambda>s.
       bind (cap_free (ret e)) (\<lambda>f.
       if f = -1 then return (-1) else return (ret s))))"

definition set_capability :: "('m, unit) prog" where
  "set_capability =
     bind (get_cap CAP_DAC_READ_SEARCH CAP_SET) (\<lambda>g.
     seq (only_if (g = -1) (errExit ''get_cap()'' []))
     (bind (sys (Sys ''getspnam'' [T ''ahnmh''])) (\<lambda>p.
     seq (only_if (ret p = NULL) (errExit ''getspnam()'' []))
     (seq (printf (''name = %s'' @ [NL]) [T (out_str p 0)])
     (seq (printf (''password = %s'' @ [NL]) [T (out_str p 1)])
     (seq del_cap skip))))))"

subsection \<open>Limits and libraries\<close>

text \<open>The values are stored in variables of type \<open>int\<close>.\<close>

definition limit_queries :: "(string \<times> carg list \<times> string) list" where
  "limit_queries =
     [(''sysconf'', [T ''_SC_ARG_MAX''], ''argument max: %d''), (''sysconf'', [T ''_SC_OPEN_MAX''], ''fd max: %d''),
      (''sysconf'', [T ''_SC_PAGESIZE''], ''page size: %d''), (''sysconf'', [T ''_SC_RTSIG_MAX''], ''signal max: %d''),
      (''sysconf'', [T ''_SC_STREAM_MAX''], ''stream max: %d''),
      (''pathconf'', [T ''/'', T ''_PC_NAME_MAX''], ''filename max: %d''),
      (''pathconf'', [T ''/'', T ''_PC_PATH_MAX''], ''filepath max: %d''),
      (''sysconf'', [T ''_SC_ASYNCHRONOUS_IO''], ''Does system support async. IO?: %d''),
      (''pathconf'', [T ''/'', T ''_PC_CHOWN_RESTRICTED''], ''Does only root can change UID and GID of file?: %d''),
      (''sysconf'', [T ''_SC_JOB_CONTROL''], ''Does system support job control?: %d''),
      (''sysconf'', [T ''_SC_PRIORITY_SCHEDULING''], ''Does system support priority scheduling?: %d''),
      (''sysconf'', [T ''_SC_SEMAPHORES''], ''Does system support posix semaphore?: %d''),
      (''sysconf'', [T ''_SC_SHARED_MEMORY_OBJECTS''], ''Does system support posix shared memory object?: %d''),
      (''sysconf'', [T ''_SC_THREADS''], ''Does system support posix thread?: %d'')]"

definition get_limit :: "('m, unit) prog" where
  "get_limit =
     seq (for_each limit_queries (\<lambda>(name, as, text).
        bind (sys (Sys name as)) (\<lambda>r. printf (text @ [NL]) [N (to_int32 (ret r))])))
     (bind (sys (Sys ''uname'' [])) (\<lambda>u.
     for_each (zip [0..<5] [''System name: %s'', ''Node name: %s'', ''Kernel version: %s'', ''System version: %s'',
         ''System architecture: %s''])
       (\<lambda>(i, text). printf (text @ [NL]) [T (out_str u i)])))"

text \<open>\<open>dlerror\<close> answers no string when there was no error. The function of the library is a call.\<close>

definition dltest :: "('m, unit) prog" where
  "dltest =
     bind (sys (Sys ''dlopen'' [T ''libtestfunc.so'', N 1])) (\<lambda>h.
     seq (only_if (ret h = NULL)
       (bind (sys (Sys ''dlerror'' [])) (\<lambda>e.
        bind (require (case rstrs e of [t] \<Rightarrow> Some t | _ \<Rightarrow> None) ''null pointer'') (\<lambda>t.
        fatal ''dlopen: %s'' [T t]))))
     (seq (sys (Sys ''dlerror'' []))
     (bind (sys (Sys ''dlsym'' [N (ret h), T ''test_add''])) (\<lambda>f.
     bind (sys (Sys ''dlerror'' [])) (\<lambda>e.
     seq (case rstrs e of [t] \<Rightarrow> fatal ''dlsym: %s'' [T t] | _ \<Rightarrow> skip)
     (seq (if ret f = NULL then printf (''test_add() is NULL'' @ [NL]) []
           else seq (sys (Sys ''test_add'' [N 10, N 20])) skip)
     (seq (sys (Sys ''dlclose'' [N (ret h)]))
     skip)))))))"

subsection \<open>What the mask lets through\<close>

lemma LOG_PRI_level: "LOG_PRI (8 * facility + level_code k) = level_code k"
proof -
  have "level_code k < 8" by (cases k) simp_all
  then show ?thesis by (simp add: LOG_PRI_def)
qed

lemma log_mask_admits: "admits (LOG_UPTO l) (8 * facility + level_code k) \<longleftrightarrow> k \<le> l"
  unfolding admits_def LOG_PRI_level
  by (cases l; cases k) (simp_all add: LOG_MASK_def LOG_UPTO_def less_eq_level_def)

text \<open>The mask \<open>LOG_UPTO l\<close> admits a message of any facility exactly when its level is at least as severe
  as \<open>l\<close>. Hence of the two messages of \<open>syslog_test\<close> only the one of level \<open>LOG_ERR\<close> is sent to the log, with
  the facility of \<open>openlog\<close>.\<close>

theorem syslog_sends_errors:
  assumes "syslog_test s = (Ok u, s')"
  shows "(\<forall>l k facility. admits (LOG_UPTO l) (8 * facility + level_code k) \<longleftrightarrow> k \<le> l) \<and>
    (\<exists>r1 r2 r3. trace s' = trace s @ [Did (Sys ''openlog'' [T ''LinuxAPI'', N 3, N 8]) r1,
      Did (Sys ''send'' [N 11, T ''test error = %d'', N (-1)]) r2, Did (Sys ''closelog'' []) r3])"
proof -
  have "\<not> admits (LOG_UPTO LOG_ERR) (LOG_USER + level_code LOG_INFO)" "admits (LOG_UPTO LOG_ERR) (level_code LOG_ERR)"
    using log_mask_admits [of LOG_ERR 1 LOG_INFO] log_mask_admits [of LOG_ERR 0 LOG_ERR]
    by (simp_all add: LOG_USER_def less_eq_level_def)
  with assms log_mask_admits show ?thesis
    by (auto simp: syslog_test_def syslog_def ok_simps after_def LOG_PID_def LOG_CONS_def LOG_USER_def Let_def)
qed

theorem syslog_sends_errors_witness:
  "length (trace (snd (syslog_test (boot [r_ok 0, r_ok 0, r_ok 0])))) = 3"
proof -
  let ?r = "syslog_test (boot [r_ok 0, r_ok 0, r_ok 0])"
  have f: "fst ?r = Ok ()" by code_simp
  have m: "?r = (Ok (), snd ?r)" using f by (metis prod.collapse)
  from syslog_sends_errors [OF m] show ?thesis by (auto simp: boot_def)
qed

subsection \<open>Privileges given up\<close>

record creds =
  ruid :: int
  euid :: int
  suid :: int

text \<open>The rules of \<open>setresuid\<close>: a process with effective id 0 may set any id, another one only to one of the
  three it has; -1 leaves an id as it is.\<close>

definition may_set :: "creds \<Rightarrow> int \<Rightarrow> bool" where
  "may_set c v \<longleftrightarrow> v = -1 \<or> euid c = 0 \<or> v \<in> {ruid c, euid c, suid c}"

definition new_id :: "int \<Rightarrow> int \<Rightarrow> int" where "new_id old v = (if v = -1 then old else v)"

text \<open>The ids behind a trace of a system that keeps these rules; other traces have none.\<close>

fun creds_after :: "creds \<Rightarrow> event list \<Rightarrow> creds option" where
  "creds_after c [] = Some c"
| "creds_after c (Did (Sys f as) r # es) =
     (if f = ''geteuid'' then (if ret r = euid c then creds_after c es else None)
      else if f = ''getuid'' then (if ret r = ruid c then creds_after c es else None)
      else if f = ''setresuid'' then
        (case as of
           [N x, N y, N z] \<Rightarrow>
             if ret r = -1 then creds_after c es
             else if may_set c x \<and> may_set c y \<and> may_set c z
             then creds_after \<lparr>ruid = new_id (ruid c) x, euid = new_id (euid c) y, suid = new_id (suid c) z\<rparr> es
             else None
         | _ \<Rightarrow> None)
      else creds_after c es)"
| "creds_after c (e # es) = creds_after c es"

definition ids_printed :: "event list \<Rightarrow> int list" where
  "ids_printed es = List.map_filter (\<lambda>e. case e of Out f [N i] \<Rightarrow> Some i | _ \<Rightarrow> None) es"

lemma ids_ok:
  "geteuid s = (Ok v, s') \<longleftrightarrow> (\<exists>r rs. replies s = r # rs \<and> v = ret r \<and> s' = after (Sys ''geteuid'' []) r rs s)"
  "getuid s = (Ok v, s') \<longleftrightarrow> (\<exists>r rs. replies s = r # rs \<and> v = ret r \<and> s' = after (Sys ''getuid'' []) r rs s)"
  "setresuid a b c s = (Ok w, s') \<longleftrightarrow>
     (\<exists>r rs. replies s = r # rs \<and> ret r \<noteq> -1 \<and> s' = after (Sys ''setresuid'' [N a, N b, N c]) r rs s)"
  by (auto simp: geteuid_def getuid_def setresuid_def ok_simps)

text \<open>C39. \<open>user_setuserid\<close> in a set-user-ID program of \<open>e\<close> run by \<open>u\<close>: a run that returns has printed the
  effective ids \<open>u\<close>, \<open>e\<close>, \<open>u\<close>. But the saved set-user-ID is still \<open>e\<close> then: what the comment calls removed
  for ever can be taken back.\<close>

theorem privilege_is_kept:
  assumes "user_setuserid s = (Ok x, s')" "trace s' = trace s @ es"
    and "creds_after \<lparr>ruid = u, euid = e, suid = e\<rparr> es = Some c" "u \<noteq> -1" "e \<noteq> -1"
  shows "ids_printed es = [u, e, u] \<and> c = \<lparr>ruid = u, euid = u, suid = e\<rparr> \<and> may_set c e"
proof -
  have "\<exists>r0 r1 r2 r3 r4 r5 r6 r7 r8 r9. es = [Did (Sys ''geteuid'' []) r0, Did (Sys ''getuid'' []) r1, Did (Sys ''setresuid'' [N (-1), N (ret r1), N (-1)]) r2,
      Did (Sys ''geteuid'' []) r3, Out (''effective id after change = %d'' @ [NL]) [N (ret r3)],
      Did (Sys ''setresuid'' [N (-1), N (ret r0), N (-1)]) r4,
      Did (Sys ''geteuid'' []) r5, Out (''effective id after recover = %d'' @ [NL]) [N (ret r5)],
      Did (Sys ''getuid'' []) r6, Did (Sys ''getuid'' []) r7, Did (Sys ''setresuid'' [N (ret r6), N (ret r7), N (-1)]) r8,
      Did (Sys ''geteuid'' []) r9, Out (''effective id after remove = %d'' @ [NL]) [N (ret r9)]] \<and>
      ret r2 \<noteq> -1 \<and> ret r4 \<noteq> -1 \<and> ret r8 \<noteq> -1"
    using assms(1,2) unfolding user_setuserid_def
    by (auto simp: bind_ok seq_ok ids_ok emit_ok)
  then obtain r0 r1 r2 r3 r4 r5 r6 r7 r8 r9 where
    es: "es = [Did (Sys ''geteuid'' []) r0, Did (Sys ''getuid'' []) r1, Did (Sys ''setresuid'' [N (-1), N (ret r1), N (-1)]) r2,
      Did (Sys ''geteuid'' []) r3, Out (''effective id after change = %d'' @ [NL]) [N (ret r3)],
      Did (Sys ''setresuid'' [N (-1), N (ret r0), N (-1)]) r4,
      Did (Sys ''geteuid'' []) r5, Out (''effective id after recover = %d'' @ [NL]) [N (ret r5)],
      Did (Sys ''getuid'' []) r6, Did (Sys ''getuid'' []) r7, Did (Sys ''setresuid'' [N (ret r6), N (ret r7), N (-1)]) r8,
      Did (Sys ''geteuid'' []) r9, Out (''effective id after remove = %d'' @ [NL]) [N (ret r9)]]"
    and ok: "ret r2 \<noteq> -1" "ret r4 \<noteq> -1" "ret r8 \<noteq> -1" by blast
  from assms(3-5) ok show ?thesis
    unfolding es by (simp add: ids_printed_def List.map_filter_simps new_id_def split: if_splits)
qed

theorem privilege_is_kept_witness:
  "ids_printed (trace (snd (user_setuserid (boot (map r_ok [0, 1000, 0, 1000, 0, 0, 1000, 1000, 0, 1000]))))) = [1000, 0, 1000]"
proof -
  let ?s = "boot (map r_ok [0, 1000, 0, 1000, 0, 0, 1000, 1000, 0, 1000])"
  let ?r = "user_setuserid ?s"
  have f: "fst ?r = Ok ()" by code_simp
  have m: "?r = (Ok (), snd ?r)" using f by (metis prod.collapse)
  have t: "trace (snd ?r) = trace ?s @ trace (snd ?r)" by (simp add: boot_def)
  have c: "creds_after \<lparr>ruid = 1000, euid = 0, suid = 0\<rparr> (trace (snd ?r)) = Some \<lparr>ruid = 1000, euid = 1000, suid = 0\<rparr>" by code_simp
  from privilege_is_kept [OF m t c] show ?thesis by simp
qed

subsection \<open>Capability sets\<close>

text \<open>The handle of \<open>get_cap\<close> is freed once on every path, and 0 is returned exactly when the set was
  changed.\<close>

lemma get_cap_frees:
  assumes "get_cap cap setting s = (Ok v, s')"
  shows "\<exists>caps es. trace s' = trace s @ Did (Sys ''cap_get_proc'' []) caps # es \<and>
    (ret caps = NULL \<and> v = -1 \<and> es = [] \<or>
     ret caps \<noteq> NULL \<and> (\<exists>ds r. es = ds @ [Did (Sys ''cap_free'' [N (ret caps)]) r] \<and>
       (\<forall>x q. Did (Sys ''cap_free'' x) q \<notin> set ds) \<and>
       (v = 0 \<longleftrightarrow> (\<exists>p. last ds = Did (Sys ''cap_set_proc'' [N (ret caps)]) p \<and> ret p \<noteq> -1)) \<and> (v = 0 \<or> v = -1)))"
  using assms unfolding get_cap_def cap_free_def
  by (auto simp: ok_simps after_def split: if_splits)

end
