(* ===== verification/ThreadData.thy ===== *)
theory ThreadData
  imports ErrorFns Flags Protocol
begin

text \<open>
  \<open>LinuxAPI2/pthread_safe.c\<close>: threads that put a message together in a buffer and print it from there.
  The buffer is shared, or belongs to the thread as thread-specific data or as a thread-local variable.
  The thread functions are programs; a step relation interleaves the threads, one byte read or written
  at a time.
\<close>

subsection \<open>The thread functions\<close>

definition BUFFER_LEN :: nat where "BUFFER_LEN = 256"

text \<open>What \<open>"Message: %s"\<close> produces for a string.\<close>

definition message :: "string \<Rightarrow> string" where "message str = ''Message: '' @ str"

definition pthread_self :: "('m, int) prog" where
  "pthread_self = bind (sys (Sys ''pthread_self'' [])) (\<lambda>r. return (ret r))"

definition thread_line :: "int \<Rightarrow> string \<Rightarrow> ('m, int) prog" where
  "thread_line tid t = seq (printf (''thread id = 0x%x, %s'' @ [NL]) [N (tid mod 2 ^ 32), T t]) (return NULL)"

text \<open>\<open>buf\<close> is shared: what \<open>printf\<close> finds in it is answered by the memory all threads write to.\<close>

definition thread_func_unsafe :: "string \<Rightarrow> ('m, int) prog" where
  "thread_func_unsafe str =
     bind pthread_self (\<lambda>tid.
     seq (sys (Sys ''store'' [T ''buf'', T (take (BUFFER_LEN - 1) (message str))]))
     (bind (sys (Sys ''load'' [T ''buf''])) (\<lambda>b.
     thread_line tid (out_str b 0))))"

definition destructor :: "int \<Rightarrow> ('m, unit) prog" where
  "destructor buf = seq (sys (Sys ''free'' [N buf])) skip"

definition create_key :: "('m, unit) prog" where
  "create_key =
     bind (sys (Sys ''pthread_key_create'' [T ''message'', T ''destructor''])) (\<lambda>s.
     only_if (ret s \<noteq> 0) (errExitEN (ret s) ''pthread_key_create'' []))"

text \<open>The reply of \<open>pthread_once\<close> says with its integer whether this call is the one that runs the
  function.\<close>

definition thread_func_safe_with_tsd :: "string \<Rightarrow> ('m, int) prog" where
  "thread_func_safe_with_tsd str =
     bind (sys (Sys ''pthread_once'' [T ''once''])) (\<lambda>s.
     seq (only_if (out_int s 0 = 1) create_key)
     (seq (only_if (ret s \<noteq> 0) (errExitEN (ret s) ''pthread_once'' []))
     (bind (sys (Sys ''pthread_getspecific'' [T ''message''])) (\<lambda>g.
     bind (if ret g = NULL then
             bind (sys (Sys ''malloc'' [N (int BUFFER_LEN)])) (\<lambda>m.
             bind (sys (Sys ''pthread_setspecific'' [T ''message'', N (ret m)])) (\<lambda>s.
             seq (only_if (ret s \<noteq> 0) (errExitEN (ret s) ''pthread_setspecific'' []))
             (return (ret m))))
           else return (ret g)) (\<lambda>tsd_buf.
     bind pthread_self (\<lambda>tid.
     bind (require (if tsd_buf = NULL then None else c_snprintf (uninit BUFFER_LEN) 256 (message str)) ''null pointer'') (\<lambda>b.
     bind (load_string b) (thread_line tid))))))))"

definition thread_func_safe_with_tls :: "string \<Rightarrow> ('m, int) prog" where
  "thread_func_safe_with_tls str =
     bind pthread_self (\<lambda>tid.
     bind (require (c_snprintf (replicate BUFFER_LEN (Some NUL)) BUFFER_LEN (message str)) ''snprintf'') (\<lambda>tbuf.
     bind (load_string tbuf) (thread_line tid)))"

definition str1 :: string where "str1 = ''Hello, This is myunghoon Ahn.''"
definition str2 :: string where
  "str2 = ''I'' @ [CHR 0x27] @ ''m an emproyee of samsung electronics.''"

definition pthread_create :: "string \<Rightarrow> carg \<Rightarrow> ('m, int) prog" where
  "pthread_create f a =
     bind (sys (Sys ''pthread_create'' [T f, a])) (\<lambda>s.
     seq (only_if (ret s \<noteq> 0) (errExitEN (ret s) ''pthread_create'' [])) (return (out_int s 0)))"

definition pthread_safe :: "('m, unit) prog" where
  "pthread_safe =
     bind (pthread_create ''thread_func_safe_with_tls'' (T str1)) (\<lambda>t1.
     bind (pthread_create ''thread_func_safe_with_tls'' (T str2)) (\<lambda>t2.
     seq (sys (Sys ''pthread_join'' [N t1]))
     (seq (sys (Sys ''pthread_join'' [N t2]))
     skip)))"

subsection \<open>The threads, byte by byte\<close>

text \<open>
  A thread first needs a buffer: it has one (a static object) or gets one from \<open>malloc\<close>, which answers an
  address of no object in use. Then it stores its message and the terminator, reads the string back for
  \<open>printf\<close>, prints it, and leaves; a buffer from the heap is then freed by the destructor of the key.
\<close>

datatype wpc = Placing | Writing nat | Reading string | Leaving | Left

record worker =
  wpc :: wpc
  buffer :: "nat option"

record shop =
  workers :: "worker list"
  mem :: "nat \<Rightarrow> cbuf"
  heap :: "nat set"
  shown :: "(nat \<times> string) list"

definition bytes :: "string \<Rightarrow> string" where
  "bytes m = take (BUFFER_LEN - 1) (message m) @ [NUL]"

inductive data_step :: "string list \<Rightarrow> shop \<Rightarrow> shop \<Rightarrow> bool" for msgs where
  alloc: "t < length (workers S) \<Longrightarrow> workers S ! t = \<lparr>wpc = Placing, buffer = None\<rparr> \<Longrightarrow>
    a \<notin> heap S \<Longrightarrow> \<forall>w \<in> set (workers S). buffer w \<noteq> Some a \<Longrightarrow>
    data_step msgs S (S\<lparr>workers := (workers S)[t := \<lparr>wpc = Writing 0, buffer = Some a\<rparr>],
      mem := (mem S)(a := uninit BUFFER_LEN), heap := insert a (heap S)\<rparr>)"
| placed: "t < length (workers S) \<Longrightarrow> workers S ! t = \<lparr>wpc = Placing, buffer = Some a\<rparr> \<Longrightarrow>
    data_step msgs S (S\<lparr>workers := (workers S)[t := \<lparr>wpc = Writing 0, buffer = Some a\<rparr>]\<rparr>)"
| store_byte: "t < length (workers S) \<Longrightarrow> workers S ! t = \<lparr>wpc = Writing i, buffer = Some a\<rparr> \<Longrightarrow>
    i < length (bytes (msgs ! t)) \<Longrightarrow>
    data_step msgs S (S\<lparr>workers := (workers S)[t := \<lparr>wpc = Writing (Suc i), buffer = Some a\<rparr>],
      mem := (mem S)(a := (mem S a)[i := Some (bytes (msgs ! t) ! i)])\<rparr>)"
| written: "t < length (workers S) \<Longrightarrow> workers S ! t = \<lparr>wpc = Writing i, buffer = Some a\<rparr> \<Longrightarrow>
    i = length (bytes (msgs ! t)) \<Longrightarrow>
    data_step msgs S (S\<lparr>workers := (workers S)[t := \<lparr>wpc = Reading [], buffer = Some a\<rparr>]\<rparr>)"
| load_byte: "t < length (workers S) \<Longrightarrow> workers S ! t = \<lparr>wpc = Reading cs, buffer = Some a\<rparr> \<Longrightarrow>
    length cs < length (mem S a) \<Longrightarrow> mem S a ! length cs = Some c \<Longrightarrow> c \<noteq> NUL \<Longrightarrow>
    data_step msgs S (S\<lparr>workers := (workers S)[t := \<lparr>wpc = Reading (cs @ [c]), buffer = Some a\<rparr>]\<rparr>)"
| print: "t < length (workers S) \<Longrightarrow> workers S ! t = \<lparr>wpc = Reading cs, buffer = Some a\<rparr> \<Longrightarrow>
    length cs < length (mem S a) \<Longrightarrow> mem S a ! length cs = Some NUL \<Longrightarrow>
    data_step msgs S (S\<lparr>workers := (workers S)[t := \<lparr>wpc = Leaving, buffer = Some a\<rparr>], shown := shown S @ [(t, cs)]\<rparr>)"
| destroy: "t < length (workers S) \<Longrightarrow> workers S ! t = \<lparr>wpc = Leaving, buffer = Some a\<rparr> \<Longrightarrow> a \<in> heap S \<Longrightarrow>
    data_step msgs S (S\<lparr>workers := (workers S)[t := \<lparr>wpc = Left, buffer = None\<rparr>], heap := heap S - {a}\<rparr>)"
| leave: "t < length (workers S) \<Longrightarrow> workers S ! t = \<lparr>wpc = Leaving, buffer = Some a\<rparr> \<Longrightarrow> a \<notin> heap S \<Longrightarrow>
    data_step msgs S (S\<lparr>workers := (workers S)[t := \<lparr>wpc = Left, buffer = Some a\<rparr>]\<rparr>)"

text \<open>One object for all threads, one static object for each thread, or none yet.\<close>

definition data_start :: "(nat \<Rightarrow> nat option) \<Rightarrow> nat \<Rightarrow> shop" where
  "data_start b n = \<lparr>workers = map (\<lambda>t. \<lparr>wpc = Placing, buffer = b t\<rparr>) [0..<n],
     mem = (\<lambda>_. replicate BUFFER_LEN (Some NUL)), heap = {}, shown = []\<rparr>"

definition unsafe_start :: "nat \<Rightarrow> shop" where "unsafe_start = data_start (\<lambda>_. Some 0)"
definition tls_start :: "nat \<Rightarrow> shop" where "tls_start = data_start Some"
definition tsd_start :: "nat \<Rightarrow> shop" where "tsd_start = data_start (\<lambda>_. None)"

subsection \<open>Threads with buffers of their own\<close>

lemma length_bytes: "length (bytes m) \<le> BUFFER_LEN" "0 < length (bytes m)"
  by (simp_all add: bytes_def BUFFER_LEN_def)

text \<open>What the buffer \<open>b\<close> of a thread that prints \<open>m\<close> holds: behind the thread's steps there is always the
  beginning of its own message.\<close>

definition progress_ok :: "string \<Rightarrow> cbuf \<Rightarrow> wpc \<Rightarrow> bool" where
  "progress_ok m b p \<longleftrightarrow> length b = BUFFER_LEN \<and>
     (case p of
        Writing i \<Rightarrow> i \<le> length (bytes m) \<and> take i b = lit (take i (bytes m))
      | Reading cs \<Rightarrow> take (length (bytes m)) b = lit (bytes m) \<and> (\<exists>ds. take (BUFFER_LEN - 1) (message m) = cs @ ds)
      | _ \<Rightarrow> True)"

definition worker_ok :: "string \<Rightarrow> (nat \<Rightarrow> cbuf) \<Rightarrow> worker \<Rightarrow> bool" where
  "worker_ok m M w \<longleftrightarrow> c_string m \<and>
     (case buffer w of None \<Rightarrow> wpc w = Placing \<or> wpc w = Left | Some a \<Rightarrow> progress_ok m (M a) (wpc w))"

definition over :: "wpc \<Rightarrow> bool" where "over p \<longleftrightarrow> p = Leaving \<or> p = Left"

text \<open>No buffer belongs to two threads; the heap holds exactly the buffers of the threads that got theirs
  from \<open>malloc\<close> (all if \<open>dyn\<close>, none otherwise).\<close>

definition own_buffers :: "bool \<Rightarrow> shop \<Rightarrow> bool" where
  "own_buffers dyn S \<longleftrightarrow>
     (\<forall>t u a. t < length (workers S) \<longrightarrow> u < length (workers S) \<longrightarrow>
        buffer (workers S ! t) = Some a \<longrightarrow> buffer (workers S ! u) = Some a \<longrightarrow> t = u) \<and>
     (if dyn then heap S = {a. \<exists>t < length (workers S). buffer (workers S ! t) = Some a} \<and>
          (\<forall>t < length (workers S). wpc (workers S ! t) = Left \<longrightarrow> buffer (workers S ! t) = None)
      else heap S = {} \<and> (\<forall>t < length (workers S). buffer (workers S ! t) \<noteq> None))"

text \<open>What was shown, by whom, and that nothing is shown twice.\<close>

definition own_messages :: "string list \<Rightarrow> shop \<Rightarrow> bool" where
  "own_messages msgs S \<longleftrightarrow> distinct (map fst (shown S)) \<and>
     fst ` set (shown S) = {t. t < length (workers S) \<and> over (wpc (workers S ! t))} \<and>
     (\<forall>(t, cs) \<in> set (shown S). cs = take (BUFFER_LEN - 1) (message (msgs ! t)))"

definition data_inv :: "string list \<Rightarrow> bool \<Rightarrow> shop \<Rightarrow> bool" where
  "data_inv msgs dyn S \<longleftrightarrow> length (workers S) = length msgs \<and>
     (\<forall>t < length msgs. worker_ok (msgs ! t) (mem S) (workers S ! t)) \<and>
     own_buffers dyn S \<and> own_messages msgs S"

lemma worker_ok_frame:
  "worker_ok m M w \<Longrightarrow> (\<And>a. buffer w = Some a \<Longrightarrow> M' a = M a) \<Longrightarrow> worker_ok m M' w"
  by (auto simp: worker_ok_def split: option.splits)

text \<open>A step of one thread changes its own entry and its own buffer.\<close>

lemma workers_ok_update:
  assumes "\<forall>t < length msgs. worker_ok (msgs ! t) M (ws ! t)" "length ws = length msgs" "k < length ws"
    and "worker_ok (msgs ! k) M' w"
    and "\<And>t a. t < length ws \<Longrightarrow> t \<noteq> k \<Longrightarrow> buffer (ws ! t) = Some a \<Longrightarrow> M' a = M a"
  shows "\<forall>t < length msgs. worker_ok (msgs ! t) M' (ws[k := w] ! t)"
proof (intro allI impI)
  fix t assume "t < length msgs"
  with assms show "worker_ok (msgs ! t) M' (ws[k := w] ! t)"
    by (cases "t = k") (auto intro: worker_ok_frame)
qed

lemma message_no_NUL: "c_string m \<Longrightarrow> c \<in> set (take n (message m)) \<Longrightarrow> c \<noteq> NUL"
  by (auto simp: message_def c_string_def dest!: in_set_takeD)

text \<open>The next byte of the buffer is the next character of the message, or the terminator behind it.\<close>

lemma next_byte:
  assumes "take (length (bytes m)) b = lit (bytes m)" "take (BUFFER_LEN - 1) (message m) = cs @ ds"
  shows "b ! length cs = Some (case ds of [] \<Rightarrow> NUL | d # _ \<Rightarrow> d)" "length cs < length b"
proof -
  have l: "length cs < length (bytes m)" using assms(2) by (simp add: bytes_def)
  with assms(1) show "length cs < length b" by (metis lit_simps(3) length_take min_less_iff_conj)
  have "b ! length cs = take (length (bytes m)) b ! length cs" using l by simp
  also have "\<dots> = Some (bytes m ! length cs)" using l assms(1) by (simp add: lit_def)
  also have "bytes m ! length cs = (case ds of [] \<Rightarrow> NUL | d # _ \<Rightarrow> d)"
    using assms(2) by (simp add: bytes_def nth_append split: list.splits)
  finally show "b ! length cs = Some (case ds of [] \<Rightarrow> NUL | d # _ \<Rightarrow> d)" .
qed

lemma progress_write:
  assumes "progress_ok m b (Writing i)" "i < length (bytes m)"
  shows "progress_ok m (b[i := Some (bytes m ! i)]) (Writing (Suc i))"
proof -
  from assms length_bytes(1) [of m] have "i < length b" by (simp add: progress_ok_def)
  with assms show ?thesis
    by (simp add: progress_ok_def take_Suc_conv_app_nth lit_def take_map take_update_swap [symmetric])
qed

lemma progress_read:
  assumes "progress_ok m b (Reading cs)" "b ! length cs = Some c" "c \<noteq> NUL"
  shows "progress_ok m b (Reading (cs @ [c]))"
proof -
  from assms(1) obtain ds where ds: "take (length (bytes m)) b = lit (bytes m)" "take (BUFFER_LEN - 1) (message m) = cs @ ds"
    by (auto simp: progress_ok_def)
  with next_byte(1) [OF ds] assms(2,3) obtain es where "ds = c # es" by (cases ds) auto
  with ds assms(1) show ?thesis by (auto simp: progress_ok_def)
qed

lemma progress_end:
  assumes "progress_ok m b (Reading cs)" "b ! length cs = Some NUL" "c_string m"
  shows "cs = take (BUFFER_LEN - 1) (message m)"
proof -
  from assms(1) obtain ds where ds: "take (length (bytes m)) b = lit (bytes m)" "take (BUFFER_LEN - 1) (message m) = cs @ ds"
    by (auto simp: progress_ok_def)
  have "ds = []"
  proof (cases ds)
    case (Cons d es)
    with next_byte(1) [OF ds] assms(2) have "d = NUL" by simp
    moreover have "d \<in> set (take (BUFFER_LEN - 1) (message m))" using ds(2) Cons by simp
    ultimately show ?thesis using message_no_NUL [OF assms(3)] by blast
  qed
  with ds show ?thesis by simp
qed

subsection \<open>Every step keeps the messages apart\<close>

lemma own_buffers_same:
  assumes "own_buffers dyn S" "k < length (workers S)" "workers S' = (workers S)[k := w]"
    and "buffer w = buffer (workers S ! k)" "heap S' = heap S"
    and "wpc w = Left \<Longrightarrow> dyn \<Longrightarrow> buffer w = None"
  shows "own_buffers dyn S'"
proof -
  have "buffer (workers S' ! t) = buffer (workers S ! t)" for t
    using assms(2,3,4) by (cases "t = k") simp_all
  moreover have "wpc (workers S' ! t) = Left \<Longrightarrow> dyn \<Longrightarrow> t < length (workers S) \<Longrightarrow> buffer (workers S' ! t) = None" for t
    using assms by (cases "t = k") (auto simp: own_buffers_def split: if_splits)
  ultimately show ?thesis using assms(1,3,5) by (simp add: own_buffers_def)
qed

text \<open>A buffer that is taken from or given back to the heap.\<close>

lemma own_buffers_dyn:
  assumes d: dyn and o: "own_buffers dyn S" and k: "k < length (workers S)" and S': "workers S' = (workers S)[k := w]"
    and h: "heap S' = (heap S - set_option (buffer (workers S ! k))) \<union> set_option (buffer w)"
    and w: "wpc w = Left \<Longrightarrow> buffer w = None"
    and fresh: "\<And>u a. u < length (workers S) \<Longrightarrow> u \<noteq> k \<Longrightarrow> buffer w = Some a \<Longrightarrow> buffer (workers S ! u) \<noteq> Some a"
  shows "own_buffers dyn S'"
proof -
  from k S' have b: "workers S' ! u = (if u = k then w else workers S ! u)" for u by simp
  from o have inj: "t < length (workers S) \<Longrightarrow> u < length (workers S) \<Longrightarrow> buffer (workers S ! t) = Some a \<Longrightarrow>
      buffer (workers S ! u) = Some a \<Longrightarrow> t = u" for t u a by (auto simp: own_buffers_def)
  from o have l: "t < length (workers S) \<Longrightarrow> wpc (workers S ! t) = Left \<Longrightarrow> buffer (workers S ! t) = None" for t
    by (simp add: own_buffers_def d)
  from o have "heap S = {a. \<exists>t < length (workers S). buffer (workers S ! t) = Some a}" by (simp add: own_buffers_def d)
  with h have "x \<in> heap S' \<longleftrightarrow> (\<exists>t < length (workers S). t \<noteq> k \<and> buffer (workers S ! t) = Some x) \<or> buffer w = Some x" for x
    using inj [OF _ k] by (auto simp: elem_set)
  then have "x \<in> heap S' \<longleftrightarrow> (\<exists>t < length (workers S). buffer (workers S' ! t) = Some x)" for x
    using k unfolding b by auto
  then have "heap S' = {a. \<exists>t < length (workers S'). buffer (workers S' ! t) = Some a}" using S' by auto
  moreover have "t = u" if "t < length (workers S')" "u < length (workers S')" "buffer (workers S' ! t) = Some a"
      "buffer (workers S' ! u) = Some a" for t u a
    using that inj fresh S' unfolding b by (auto split: if_splits)
  moreover have "buffer (workers S' ! t) = None" if "t < length (workers S')" "wpc (workers S' ! t) = Left" for t
    using that l w S' unfolding b by (auto split: if_splits)
  ultimately show ?thesis by (simp add: own_buffers_def d)
qed

lemma own_messages_same:
  assumes "own_messages msgs S" "k < length (workers S)" "workers S' = (workers S)[k := w]"
    and "over (wpc w) \<longleftrightarrow> over (wpc (workers S ! k))" "shown S' = shown S"
  shows "own_messages msgs S'"
proof -
  have "over (wpc (workers S' ! t)) \<longleftrightarrow> over (wpc (workers S ! t))" for t
    using assms(2,3,4) by (cases "t = k") simp_all
  with assms(1,3,5) show ?thesis by (simp add: own_messages_def)
qed

text \<open>The threads other than \<open>k\<close> do not notice a change of the buffer of \<open>k\<close>.\<close>

lemma others_apart:
  assumes "own_buffers dyn S" "k < length (workers S)" "buffer (workers S ! k) = Some a"
    and "t < length (workers S)" "t \<noteq> k" "buffer (workers S ! t) = Some b"
  shows "b \<noteq> a"
  using assms unfolding own_buffers_def by metis

lemma data_invD:
  assumes "data_inv msgs dyn S"
  shows "length (workers S) = length msgs" "t < length msgs \<Longrightarrow> worker_ok (msgs ! t) (mem S) (workers S ! t)"
    and "own_buffers dyn S" "own_messages msgs S"
  using assms by (simp_all add: data_inv_def)

text \<open>A step that neither takes nor gives back a buffer nor shows anything.\<close>

lemma data_inv_move:
  assumes S: "data_inv msgs dyn S" and k: "k < length (workers S)" and S': "workers S' = (workers S)[k := w]"
    and b: "buffer w = buffer (workers S ! k)" "heap S' = heap S" "wpc w = Left \<Longrightarrow> dyn \<Longrightarrow> buffer w = None"
    and m: "over (wpc w) \<longleftrightarrow> over (wpc (workers S ! k))" "shown S' = shown S"
    and ok: "worker_ok (msgs ! k) (mem S') w" "\<And>c. buffer w \<noteq> Some c \<Longrightarrow> mem S' c = mem S c"
  shows "data_inv msgs dyn S'"
proof -
  note d = data_invD [OF S]
  have "\<forall>u < length msgs. worker_ok (msgs ! u) (mem S') (workers S' ! u)"
    unfolding S'
  proof (rule workers_ok_update [OF _ d(1) k ok(1)])
    show "\<forall>t < length msgs. worker_ok (msgs ! t) (mem S) (workers S ! t)" using d(2) by simp
  next
    fix t c assume "t < length (workers S)" "t \<noteq> k" "buffer (workers S ! t) = Some c"
    with others_apart [OF d(3) k] b(1) ok(2) show "mem S' c = mem S c" by metis
  qed
  with d(1) S' own_buffers_same [OF d(3) k S' b] own_messages_same [OF d(4) k S' m] show ?thesis
    by (simp add: data_inv_def)
qed

lemma data_inv_step: "data_step msgs S S' \<Longrightarrow> data_inv msgs dyn S \<Longrightarrow> data_inv msgs dyn S'"
proof (induction rule: data_step.induct)
  case (alloc t S a)
  note d = data_invD [OF alloc.prems]
  have dyn: dyn using d(3) alloc.hyps(1,2) by (cases dyn) (auto simp: own_buffers_def)
  from alloc.hyps have fresh: "u < length (workers S) \<Longrightarrow> buffer (workers S ! u) \<noteq> Some a" for u by simp
  let ?w = "\<lparr>wpc = Writing 0, buffer = Some a\<rparr>"
  let ?S = "S\<lparr>workers := (workers S)[t := ?w], mem := (mem S)(a := uninit BUFFER_LEN), heap := insert a (heap S)\<rparr>"
  have nw: "worker_ok (msgs ! t) ((mem S)(a := uninit BUFFER_LEN)) ?w"
    using d(1) d(2) [of t] alloc.hyps(1) by (simp add: worker_ok_def progress_ok_def)
  have "\<forall>u < length msgs. worker_ok (msgs ! u) ((mem S)(a := uninit BUFFER_LEN)) ((workers S)[t := ?w] ! u)"
    by (rule workers_ok_update [OF _ d(1) alloc.hyps(1) nw, where M = "mem S"]) (use d(2) fresh in auto)
  moreover have "own_buffers dyn ?S"
    by (rule own_buffers_dyn [OF dyn d(3), where k = t and w = ?w]) (use alloc.hyps fresh in \<open>simp_all\<close>)
  moreover have "own_messages msgs ?S"
    by (rule own_messages_same [OF d(4), where k = t and w = ?w]) (use alloc.hyps in \<open>simp_all add: over_def\<close>)
  ultimately show ?case using d(1) by (simp add: data_inv_def)
next
  case (placed t S a)
  note d = data_invD [OF placed.prems]
  show ?case
    by (rule data_inv_move [OF placed.prems placed.hyps(1)])
      (use placed.hyps d(1) d(2) [of t] in \<open>auto simp: over_def worker_ok_def progress_ok_def\<close>)
next
  case (store_byte t S i a)
  note d = data_invD [OF store_byte.prems]
  show ?case
    by (rule data_inv_move [OF store_byte.prems store_byte.hyps(1)])
      (use store_byte.hyps d(1) d(2) [of t] in \<open>auto simp: over_def worker_ok_def progress_write\<close>)
next
  case (written t S i a)
  note d = data_invD [OF written.prems]
  show ?case
    by (rule data_inv_move [OF written.prems written.hyps(1)])
      (use written.hyps d(1) d(2) [of t] in \<open>auto simp: over_def worker_ok_def progress_ok_def\<close>)
next
  case (load_byte t S cs a c)
  note d = data_invD [OF load_byte.prems]
  show ?case
    by (rule data_inv_move [OF load_byte.prems load_byte.hyps(1)])
      (use load_byte.hyps d(1) d(2) [of t] in \<open>auto simp: over_def worker_ok_def intro: progress_read\<close>)
next
  case (print t S cs a)
  note d = data_invD [OF print.prems]
  let ?w = "\<lparr>wpc = Leaving, buffer = Some a\<rparr>"
  let ?S = "S\<lparr>workers := (workers S)[t := ?w], shown := shown S @ [(t, cs)]\<rparr>"
  have w: "worker_ok (msgs ! t) (mem S) (workers S ! t)" using d(1,2) print.hyps(1) by simp
  with print.hyps have "progress_ok (msgs ! t) (mem S a) (Reading cs)" "c_string (msgs ! t)" by (simp_all add: worker_ok_def)
  with print.hyps(4) have cs: "cs = take (BUFFER_LEN - 1) (message (msgs ! t))" by (intro progress_end)
  have nw: "worker_ok (msgs ! t) (mem S) ?w" using w print.hyps by (simp add: worker_ok_def progress_ok_def)
  have "\<forall>u < length msgs. worker_ok (msgs ! u) (mem S) ((workers S)[t := ?w] ! u)"
    by (rule workers_ok_update [OF _ d(1) print.hyps(1) nw, where M = "mem S"]) (use d(2) in auto)
  moreover have "own_buffers dyn ?S"
    by (rule own_buffers_same [OF d(3) print.hyps(1), where w = ?w]) (use print.hyps in simp_all)
  moreover have "own_messages msgs ?S"
    using d(4) print.hyps(1,2) cs by (auto simp: own_messages_def over_def nth_list_update)
  ultimately show ?case using d(1) by (simp add: data_inv_def)
next
  case (destroy t S a)
  note d = data_invD [OF destroy.prems]
  have dyn: dyn using d(3) destroy.hyps(3) by (cases dyn) (auto simp: own_buffers_def)
  let ?w = "\<lparr>wpc = Left, buffer = None\<rparr>"
  let ?S = "S\<lparr>workers := (workers S)[t := ?w], heap := heap S - {a}\<rparr>"
  have nw: "worker_ok (msgs ! t) (mem S) ?w" using d(1) d(2) [of t] destroy.hyps(1) by (simp add: worker_ok_def)
  have "\<forall>u < length msgs. worker_ok (msgs ! u) (mem S) ((workers S)[t := ?w] ! u)"
    by (rule workers_ok_update [OF _ d(1) destroy.hyps(1) nw, where M = "mem S"]) (use d(2) in auto)
  moreover have "own_buffers dyn ?S"
    by (rule own_buffers_dyn [OF dyn d(3), where k = t and w = ?w]) (use destroy.hyps in \<open>simp_all\<close>)
  moreover have "own_messages msgs ?S"
    by (rule own_messages_same [OF d(4), where k = t and w = ?w]) (use destroy.hyps in \<open>simp_all add: over_def\<close>)
  ultimately show ?case using d(1) by (simp add: data_inv_def)
next
  case (leave t S a)
  note d = data_invD [OF leave.prems]
  have dyn: "\<not> dyn" using d(3) leave.hyps by (fastforce simp: own_buffers_def)
  show ?case
    by (rule data_inv_move [OF leave.prems leave.hyps(1)])
      (use leave.hyps d(1) d(2) [of t] dyn in \<open>auto simp: over_def worker_ok_def progress_ok_def\<close>)
qed

text \<open>The steps a thread has left.\<close>

definition worker_weight :: "string \<Rightarrow> worker \<Rightarrow> nat" where
  "worker_weight m w =
     (let n = length (bytes m) in
      case wpc w of Placing \<Rightarrow> 2 * n + 4 | Writing i \<Rightarrow> 2 * n + 3 - i | Reading cs \<Rightarrow> n + 2 - length cs
        | Leaving \<Rightarrow> 1 | Left \<Rightarrow> 0)"

definition data_weight :: "string list \<Rightarrow> shop \<Rightarrow> nat" where
  "data_weight msgs S = (\<Sum>t < length (workers S). worker_weight (msgs ! t) (workers S ! t))"

lemma reading_short: "progress_ok m b (Reading cs) \<Longrightarrow> length cs < length (bytes m)"
  unfolding progress_ok_def bytes_def by (auto dest: arg_cong [where f = length])

text \<open>Every step moves one thread, and moves it forward.\<close>

lemma data_step_moves:
  assumes "data_step msgs S S'" "data_inv msgs dyn S"
  shows "\<exists>t w. t < length (workers S) \<and> workers S' = (workers S)[t := w] \<and>
    worker_weight (msgs ! t) w < worker_weight (msgs ! t) (workers S ! t)"
  using assms
proof (induction rule: data_step.induct)
  case (load_byte t S cs a c)
  then have "length cs < length (bytes (msgs ! t))"
    using data_invD(1,2) [OF load_byte.prems] reading_short by (fastforce simp: worker_ok_def)
  with load_byte.hyps show ?case
    by (intro exI [of _ t] exI [of _ "\<lparr>wpc = Reading (cs @ [c]), buffer = Some a\<rparr>"]) (simp add: worker_weight_def)
next
  case (print t S cs a)
  then have "length cs < length (bytes (msgs ! t))"
    using data_invD(1,2) [OF print.prems] reading_short by (fastforce simp: worker_ok_def)
  with print.hyps show ?case
    by (intro exI [of _ t] exI [of _ "\<lparr>wpc = Leaving, buffer = Some a\<rparr>"]) (simp add: worker_weight_def)
qed (rule exI conjI | assumption | simp add: worker_weight_def Let_def)+

lemma data_weight_decreases:
  assumes "data_step msgs S S'" "data_inv msgs dyn S"
  shows "data_weight msgs S' < data_weight msgs S"
proof -
  from data_step_moves [OF assms] obtain t w where t: "t < length (workers S)" "workers S' = (workers S)[t := w]"
    "worker_weight (msgs ! t) w < worker_weight (msgs ! t) (workers S ! t)" by blast
  then show ?thesis
    unfolding data_weight_def by (auto simp: nth_list_update intro!: sum_strict_mono_ex1)
qed

definition data_final :: "string list \<Rightarrow> shop \<Rightarrow> bool" where
  "data_final msgs S \<longleftrightarrow> (\<forall>t < length (workers S). wpc (workers S ! t) = Left)"

text \<open>A thread that has not left can always go on.\<close>

lemma data_stuck:
  assumes inv: "data_inv msgs dyn S" and stuck: "\<And>S'. \<not> data_step msgs S S'"
  shows "data_final msgs S"
  unfolding data_final_def
proof (intro allI impI)
  fix t assume t: "t < length (workers S)"
  note d = data_invD [OF inv]
  obtain p b where w: "workers S ! t = \<lparr>wpc = p, buffer = b\<rparr>" by (metis worker.cases)
  have ok: "worker_ok (msgs ! t) (mem S) (workers S ! t)" using d(1,2) t by simp
  have "\<exists>S'. data_step msgs S S'" if "p \<noteq> Left"
  proof (cases b)
    case None
    with ok w that have p: "p = Placing" by (simp add: worker_ok_def)
    have "finite (\<Union>w \<in> set (workers S). set_option (buffer w))" by simp
    then obtain a where a: "a \<notin> (\<Union>w \<in> set (workers S). set_option (buffer w))" by (meson ex_new_if_finite infinite_UNIV_nat)
    then have u: "\<forall>w \<in> set (workers S). buffer w \<noteq> Some a" by (auto simp: elem_set)
    moreover have "a \<notin> heap S" using d(3) u by (auto simp: own_buffers_def split: if_splits)
    ultimately show ?thesis using data_step.alloc [OF t] w None p by auto
  next
    case (Some a)
    with ok w have pr: "progress_ok (msgs ! t) (mem S a) p" by (simp add: worker_ok_def)
    show ?thesis
    proof (cases p)
      case Placing
      with data_step.placed [OF t] w Some show ?thesis by auto
    next
      case (Writing i)
      with pr have "i < length (bytes (msgs ! t)) \<or> i = length (bytes (msgs ! t))" by (auto simp: progress_ok_def)
      with data_step.store_byte [OF t] data_step.written [OF t] w Some Writing show ?thesis by blast
    next
      case (Reading cs)
      from pr Reading obtain ds where ds: "take (length (bytes (msgs ! t))) (mem S a) = lit (bytes (msgs ! t))"
        "take (BUFFER_LEN - 1) (message (msgs ! t)) = cs @ ds" by (auto simp: progress_ok_def)
      note n = next_byte [OF ds]
      show ?thesis
        using data_step.load_byte [OF t _ n(2) n(1)] data_step.print [OF t _ n(2)] n(1) w Some Reading by (metis (full_types))
    next
      case Leaving
      with data_step.destroy [OF t] data_step.leave [OF t] w Some show ?thesis by blast
    qed (use that in simp)
  qed
  with stuck w show "wpc (workers S ! t) = Left" by auto
qed

interpretation data: terminating "data_step msgs" "data_inv msgs dyn" "data_weight msgs" "data_final msgs" for msgs dyn
  by unfold_locales (blast intro: data_inv_step data_weight_decreases dest: data_stuck)+

lemma data_inv_start:
  assumes "\<forall>m \<in> set msgs. c_string m"
  shows "data_inv msgs False (tls_start (length msgs))" "data_inv msgs True (tsd_start (length msgs))"
  using assms
  by (auto simp: data_inv_def tls_start_def tsd_start_def data_start_def worker_ok_def progress_ok_def
      own_buffers_def own_messages_def over_def BUFFER_LEN_def)

text \<open>C35. Threads with a buffer of their own, thread-local or thread-specific: in every interleaving each
  line shown is the message of the thread that shows it, cut to the size of the buffer; no thread shows two
  lines; every run is finite, and when no step is left each thread has shown its line and every buffer taken
  from the heap has been freed.\<close>

theorem private_messages:
  assumes "\<forall>m \<in> set msgs. c_string m" "S0 = tls_start (length msgs) \<or> S0 = tsd_start (length msgs)"
    and "(data_step msgs)\<^sup>*\<^sup>* S0 S"
  shows "(\<forall>(t, cs) \<in> set (shown S). t < length msgs \<and> cs = take 255 (message (msgs ! t))) \<and>
    distinct (map fst (shown S)) \<and>
    (\<forall>k S'. (data_step msgs ^^ k) S S' \<longrightarrow> k \<le> data_weight msgs S) \<and>
    ((\<exists>S'. data_step msgs S S') \<or> set (map fst (shown S)) = {0..<length msgs} \<and> heap S = {})"
proof -
  from assms(1,2) data_inv_start obtain dyn where i0: "data_inv msgs dyn S0" by blast
  note inv = data.inv_run [OF assms(3) i0]
  note d = data_invD [OF inv]
  have "set (map fst (shown S)) = {0..<length msgs} \<and> heap S = {}" if "\<forall>S'. \<not> data_step msgs S S'"
  proof -
    from data.final_or_step [OF assms(3) i0] that have f: "data_final msgs S" by blast
    then have "heap S = {}" using d(3) by (auto simp: own_buffers_def data_final_def split: if_splits)
    moreover have "fst ` set (shown S) = {0..<length msgs}"
      using d(1,4) f by (auto simp: own_messages_def data_final_def over_def)
    ultimately show ?thesis by simp
  qed
  moreover have "k \<le> data_weight msgs S" if "(data_step msgs ^^ k) S S'" for k S'
    using data.bounded [OF that inv] by simp
  moreover have "t < length msgs \<and> cs = take 255 (message (msgs ! t))" if "(t, cs) \<in> set (shown S)" for t cs
  proof -
    from d(4) have A: "fst ` set (shown S) = {t. t < length (workers S) \<and> over (wpc (workers S ! t))}"
      "\<forall>(t, cs) \<in> set (shown S). cs = take (BUFFER_LEN - 1) (message (msgs ! t))" by (simp_all add: own_messages_def)
    from that have "t \<in> fst ` set (shown S)" by force
    with A that d(1) show ?thesis by (auto simp: BUFFER_LEN_def)
  qed
  moreover have "distinct (map fst (shown S))" using d(4) by (simp add: own_messages_def)
  ultimately show ?thesis by blast
qed

theorem private_messages_witness:
  "\<exists>S. (data_step [str1, str2])\<^sup>*\<^sup>* (tls_start 2) S \<and> heap S = {} \<and> set (map fst (shown S)) = {0..<2}"
proof -
  have c: "\<forall>m \<in> set [str1, str2]. c_string m" by (simp add: c_string_def str1_def str2_def)
  from data_inv_start(1) [OF c] have "data_inv [str1, str2] False (tls_start 2)" by (simp add: numeral_2_eq_2)
  from data.completes [OF this] obtain S where S: "(data_step [str1, str2])\<^sup>*\<^sup>* (tls_start 2) S" "data_final [str1, str2] S"
    by blast
  from S(2) have "\<not> (\<exists>S'. data_step [str1, str2] S S')" by (fastforce simp: data_final_def elim: data_step.cases)
  with private_messages [OF c, of "tls_start 2" S] S(1) show ?thesis by (auto simp: numeral_2_eq_2)
qed

subsection \<open>Threads that share one buffer\<close>

text \<open>One thread alone can store its whole message, and can read a whole message.\<close>

lemma stores_message:
  assumes "t < length (workers S)" "workers S ! t = \<lparr>wpc = Writing i, buffer = Some a\<rparr>"
    and "progress_ok (msgs ! t) (mem S a) (Writing i)"
  shows "\<exists>S'. (data_step msgs)\<^sup>*\<^sup>* S S' \<and> workers S' = (workers S)[t := \<lparr>wpc = Reading [], buffer = Some a\<rparr>] \<and>
    shown S' = shown S \<and> progress_ok (msgs ! t) (mem S' a) (Reading [])"
  using assms
proof (induction "length (bytes (msgs ! t)) - i" arbitrary: i S)
  case 0
  then have "i = length (bytes (msgs ! t))" by (simp add: progress_ok_def)
  from data_step.written [OF 0(2,3) this] this 0(4) show ?case
    by (intro exI [of _ "S\<lparr>workers := (workers S)[t := \<lparr>wpc = Reading [], buffer = Some a\<rparr>]\<rparr>"]) (auto simp: progress_ok_def)
next
  case (Suc n)
  then have i: "i < length (bytes (msgs ! t))" by simp
  let ?S = "S\<lparr>workers := (workers S)[t := \<lparr>wpc = Writing (Suc i), buffer = Some a\<rparr>],
    mem := (mem S)(a := (mem S a)[i := Some (bytes (msgs ! t) ! i)])\<rparr>"
  have "\<exists>S'. (data_step msgs)\<^sup>*\<^sup>* ?S S' \<and> workers S' = (workers ?S)[t := \<lparr>wpc = Reading [], buffer = Some a\<rparr>] \<and>
    shown S' = shown ?S \<and> progress_ok (msgs ! t) (mem S' a) (Reading [])"
    using Suc progress_write [OF Suc(5) i] by (intro Suc.hyps(1) [of "Suc i"]) auto
  then obtain S' where S': "(data_step msgs)\<^sup>*\<^sup>* ?S S'" "workers S' = (workers ?S)[t := \<lparr>wpc = Reading [], buffer = Some a\<rparr>]"
    "shown S' = shown ?S" "progress_ok (msgs ! t) (mem S' a) (Reading [])" by blast
  moreover have "data_step msgs S ?S" by (rule data_step.store_byte [OF Suc(3,4) i])
  ultimately show ?case by (intro exI [of _ S']) (auto intro: converse_rtranclp_into_rtranclp)
qed

lemma reads_message:
  assumes "t < length (workers S)" "workers S ! t = \<lparr>wpc = Reading cs, buffer = Some a\<rparr>"
    and "progress_ok m (mem S a) (Reading cs)" "c_string m"
  shows "\<exists>S'. (data_step msgs)\<^sup>*\<^sup>* S S' \<and> shown S' = shown S @ [(t, take (BUFFER_LEN - 1) (message m))]"
proof -
  from assms(3) obtain ds where "take (BUFFER_LEN - 1) (message m) = cs @ ds" by (auto simp: progress_ok_def)
  with assms show ?thesis
  proof (induction ds arbitrary: cs S)
    case Nil
    then have b: "take (length (bytes m)) (mem S a) = lit (bytes m)" by (simp add: progress_ok_def)
    from next_byte [OF b Nil(5)] have "mem S a ! length cs = Some NUL" "length cs < length (mem S a)" by simp_all
    from data_step.print [OF Nil(1,2) this(2,1), of msgs] Nil(5) show ?case
      by (intro exI [of _ "S\<lparr>workers := (workers S)[t := \<lparr>wpc = Leaving, buffer = Some a\<rparr>], shown := shown S @ [(t, cs)]\<rparr>"]) auto
  next
    case (Cons c ds)
    then have b: "take (length (bytes m)) (mem S a) = lit (bytes m)" by (simp add: progress_ok_def)
    from next_byte [OF b Cons(6)] have n: "mem S a ! length cs = Some c" "length cs < length (mem S a)" by simp_all
    have "c \<in> set (take (BUFFER_LEN - 1) (message m))" using Cons(6) by simp
    then have c: "c \<noteq> NUL" using message_no_NUL [OF Cons(5)] by blast
    let ?S = "S\<lparr>workers := (workers S)[t := \<lparr>wpc = Reading (cs @ [c]), buffer = Some a\<rparr>]\<rparr>"
    have "data_step msgs S ?S" by (rule data_step.load_byte [OF Cons(2,3) n(2,1) c])
    moreover have "\<exists>S'. (data_step msgs)\<^sup>*\<^sup>* ?S S' \<and> shown S' = shown ?S @ [(t, take (BUFFER_LEN - 1) (message m))]"
      using Cons progress_read [OF Cons(4) n(1) c] by (intro Cons.IH [of _ "cs @ [c]"]) auto
    ultimately show ?case by (auto intro: converse_rtranclp_into_rtranclp)
  qed
qed

text \<open>\<open>thread_func_unsafe\<close>: two threads that share the buffer can be interleaved such that the first one
  shows the message of the second.\<close>

theorem shared_buffer_mixes:
  assumes "c_string m1" "c_string m2"
  shows "\<exists>S. (data_step [m1, m2])\<^sup>*\<^sup>* (unsafe_start 2) S \<and> (0, take 255 (message m2)) \<in> set (shown S)"
proof -
  let ?msgs = "[m1, m2]" and ?P = "\<lparr>wpc = Placing, buffer = Some 0\<rparr>" and ?R = "\<lparr>wpc = Reading [], buffer = Some 0\<rparr>"
  let ?W = "\<lparr>wpc = Writing 0, buffer = Some 0\<rparr>" and ?b = "replicate BUFFER_LEN (Some NUL)"
  let ?S0 = "unsafe_start 2"
  have w0: "workers ?S0 = [?P, ?P]" by (simp add: unsafe_start_def data_start_def numeral_2_eq_2)
  let ?S1 = "?S0\<lparr>workers := [?W, ?P]\<rparr>"
  have s1: "data_step ?msgs ?S0 ?S1" using data_step.placed [of 0 ?S0 0 ?msgs] w0 by simp
  have "progress_ok m1 (mem ?S1 0) (Writing 0)" by (simp add: progress_ok_def unsafe_start_def data_start_def)
  with stores_message [of 0 ?S1 0 0 ?msgs] obtain S2 where s2: "(data_step ?msgs)\<^sup>*\<^sup>* ?S1 S2" "workers S2 = [?R, ?P]"
    "length (mem S2 0) = BUFFER_LEN" by (auto simp: progress_ok_def)
  let ?S3 = "S2\<lparr>workers := [?R, ?W]\<rparr>"
  have s3: "data_step ?msgs S2 ?S3" using data_step.placed [of 1 S2 0 ?msgs] s2(2) by simp
  have "progress_ok m2 (mem ?S3 0) (Writing 0)" using s2(3) by (simp add: progress_ok_def)
  with stores_message [of 1 ?S3 0 0 ?msgs] obtain S4 where s4: "(data_step ?msgs)\<^sup>*\<^sup>* ?S3 S4" "workers S4 = [?R, ?R]"
    "progress_ok m2 (mem S4 0) (Reading [])" by auto
  from reads_message [of 0 S4 "[]" 0 m2 ?msgs] s4(2,3) assms(2) obtain S5 where
    s5: "(data_step ?msgs)\<^sup>*\<^sup>* S4 S5" "(0, take (BUFFER_LEN - 1) (message m2)) \<in> set (shown S5)" by auto
  from s1 s2(1) s3 s4(1) s5(1) have "(data_step ?msgs)\<^sup>*\<^sup>* ?S0 S5"
    by (meson converse_rtranclp_into_rtranclp rtranclp.rtrancl_into_rtrancl rtranclp_trans)
  with s5(2) show ?thesis by (auto simp: BUFFER_LEN_def)
qed

theorem shared_buffer_mixes_witness:
  "\<exists>S. (data_step [str1, str2])\<^sup>*\<^sup>* (unsafe_start 2) S \<and> (0, take 255 (message str2)) \<in> set (shown S)"
  by (rule shared_buffer_mixes) (simp_all add: c_string_def str1_def str2_def)

text \<open>The program of a thread with a thread-local buffer shows what the steps show.\<close>

lemma tls_thread_line:
  assumes "c_string str" "replies s = r # rs"
  shows "\<exists>s'. thread_func_safe_with_tls str s = (Ok NULL, s') \<and>
    trace s' = trace s @ [Did (Sys ''pthread_self'' []) r,
      Out (''thread id = 0x%x, %s'' @ [NL]) [N (ret r mod 2 ^ 32), T (take 255 (message str))]]"
proof -
  have "c_string (message str)" using assms(1) by (auto simp: message_def c_string_def)
  moreover obtain b where b: "c_snprintf (replicate BUFFER_LEN (Some NUL)) BUFFER_LEN (message str) = Some b"
    by (auto simp: c_snprintf_def poke_def BUFFER_LEN_def)
  ultimately have "cstr b = Some (take 255 (message str))"
    using snprintf_cstr [of "message str" BUFFER_LEN] by (simp add: BUFFER_LEN_def)
  with b assms(2) show ?thesis
    by (auto simp: ok_simps thread_func_safe_with_tls_def pthread_self_def thread_line_def after_def logged_def)
qed

end
