(* ===== verification/Memory.thy ===== *)
theory Memory
  imports IpcObjects Processes
begin

text \<open>
  Memory: \<open>api3/mem_alloc.c\<close>, \<open>api3/mem_handle.c\<close>, \<open>LinuxAPI/memory_alloc.c\<close> and
  \<open>LinuxAPI2/mmap_func.c\<close>. The addresses the allocators return are the results of replies; the objects
  behind them are values of type \<open>cbuf\<close>.
\<close>

subsection \<open>Allocators\<close>

text \<open>\<open>if ((p = f (...)) == NULL) errexit (...)\<close>.\<close>

definition alloc_or_errexit :: "call \<Rightarrow> string \<Rightarrow> ('m, int) prog" where
  "alloc_or_errexit c msg =
     bind (sys c) (\<lambda>r. seq (only_if (ret r = NULL) (errexit msg)) (return (ret r)))"

definition c_free :: "int \<Rightarrow> ('m, unit) prog" where
  "c_free p = seq (sys (Sys ''free'' [N p])) skip"

text \<open>\<open>posix_memalign (&buf, getpagesize (), 1024)\<close> returns an error number and stores the address.\<close>

definition aligned_alloc :: "('m, int) prog" where
  "aligned_alloc =
     bind (sys (Sys ''getpagesize'' [])) (\<lambda>g.
     bind (sys (Sys ''posix_memalign'' [N (ret g), N 1024])) (\<lambda>r.
     seq (only_if (ret r \<noteq> 0) (errexit ''posix_memalign''))
     (seq (printf (''aligned allocated memory = %p'' @ [NL]) [N (out_int r 0)])
     (return (out_int r 0)))))"

definition mem_alloc :: "('m, unit) prog" where
  "mem_alloc =
     bind (alloc_or_errexit (Sys ''calloc'' [N 100, N 1]) ''calloc'') (\<lambda>x.
     seq (printf (''allocated memory = %p'' @ [NL]) [N x])
     (seq (c_free x)
     (bind (alloc_or_errexit (Sys ''realloc'' [N NULL, N 20]) ''calloc'') (\<lambda>y.
     seq (printf (''allocated memory = %p'' @ [NL]) [N y])
     (bind (alloc_or_errexit (Sys ''realloc'' [N y, N 196608]) ''calloc'') (\<lambda>re_y.
     seq (printf (''re-allocated memory = %p'' @ [NL]) [N re_y])
     (seq (c_free re_y)
     (bind aligned_alloc c_free))))))))"

definition PROT_NONE :: int where "PROT_NONE = 0"
definition MAP_PRIVATE :: int where "MAP_PRIVATE = 2"
definition MAP_ANONYMOUS :: int where "MAP_ANONYMOUS = 32"

definition mem_anonymous_mmap :: "('m, unit) prog" where
  "mem_anonymous_mmap =
     bind (sys (Sys ''mmap'' [N NULL, N 8192, N PROT_RW, N (MAP_ANONYMOUS OR MAP_PRIVATE), N (-1), N 0])) (\<lambda>p.
     seq (only_if (ret p = MAP_FAILED) (errexit ''mmap''))
     (seq (printf (''allocated anonymous memory map = %p'' @ [NL]) [N (ret p)])
     (seq (or_errexit (Sys ''munmap'' [N (ret p), N 8192]) ''munmap'')
     skip)))"

definition M_MMAP_THRESHOLD :: int where "M_MMAP_THRESHOLD = -3"

definition mem_alloc_control :: "('m, unit) prog" where
  "mem_alloc_control =
     bind (sys (Sys ''mallopt'' [N M_MMAP_THRESHOLD, N 4096])) (\<lambda>m.
     seq (only_if (ret m = 0) (errexit ''mallopt''))
     (bind (alloc_or_errexit (Sys ''calloc'' [N 8192, N 1]) ''calloc'') (\<lambda>y.
     seq (printf (''allocated memory = %p'' @ [NL]) [N y])
     (bind (sys (Sys ''mallinfo'' [])) (\<lambda>i.
     seq (printf (''data segment size used by malloc = %d'' @ [NL]) [N (out_int i 0)])
     (seq (printf (''count of anonymous map = %d'' @ [NL]) [N (out_int i 1)])
     (seq (printf (''size of anonymous map = %d'' @ [NL]) [N (out_int i 2)])
     (seq (sys (Sys ''malloc_stats'' []))
     (c_free y)))))))))"

subsection \<open>A path put together in an object of its length\<close>

definition c_strcat :: "cbuf \<Rightarrow> string \<Rightarrow> cbuf option" where
  "c_strcat b t = (case cstr b of Some h \<Rightarrow> poke b (length h) (t @ [NUL]) | None \<Rightarrow> None)"

definition etc :: string where "etc = ''/etc/''"

text \<open>\<open>strcpy (name, etc); strcat (name, argv[1]);\<close>\<close>

definition etc_path :: "cbuf \<Rightarrow> string \<Rightarrow> ('m, string) prog" where
  "etc_path name t =
     bind (require (c_strcpy name etc) ''write past the end of a buffer'') (\<lambda>name.
     bind (require (c_strcat name t) ''write past the end of a buffer'') (\<lambda>name.
     load_string name))"

definition mem_alloca :: "string list \<Rightarrow> ('m, unit) prog" where
  "mem_alloca argv =
     bind (argv_nth argv 1) (\<lambda>a.
     let n = length etc + length a + 1 in
     bind (alloc_or_errexit (Sys ''alloca'' [N (int n)]) ''alloca'') (\<lambda>_.
     bind (etc_path (uninit n) a) (\<lambda>name.
     bind (or_errexit (Open name O_RDONLY None) ''open'') (\<lambda>f.
     seq (printf (''fd = %d'' @ [NL]) [N (ret f)])
     (bind (sys (Sys ''alloca'' [N 15])) (\<lambda>str_s.
     bind (sys (Sys ''malloc'' [N 15])) (\<lambda>str_h.
     seq (printf (''stack = %p %s'' @ [NL]) [N (ret str_s), T ''strdupa sample''])
     (bind (require (if ret str_h = NULL then None else Some ''strdupa sample'') ''null pointer'') (\<lambda>t.
     seq (printf (''heap = %p %s'' @ [NL]) [N (ret str_h), T t])
     (c_free (ret str_h)))))))))))"

definition mem_variable_len_array :: "string list \<Rightarrow> ('m, unit) prog" where
  "mem_variable_len_array argv =
     bind (argv_nth argv 1) (\<lambda>a.
     bind (etc_path (uninit (length etc + length a + 1)) a) (\<lambda>name.
     bind (or_errexit (Open name O_RDONLY None) ''open'') (\<lambda>f.
     printf (''fd = %d'' @ [NL]) [N (ret f)])))"

subsection \<open>\<open>mem_handle.c\<close>\<close>

text \<open>\<open>memmem (b, n, key, strlen (key))\<close>: the offset of the first occurrence.\<close>

fun memmem :: "cbuf \<Rightarrow> string \<Rightarrow> nat option" where
  "memmem b key =
     (if take (length key) b = lit key then Some 0
      else case b of [] \<Rightarrow> None | x # b' \<Rightarrow> map_option Suc (memmem b' key))"

definition mem_handle_sample :: "('m, unit) prog" where
  "mem_handle_sample =
     bind (sys (Sys ''malloc'' [N 100])) (\<lambda>s.
     bind (sys (Sys ''malloc'' [N 100])) (\<lambda>d.
     bind (require (if ret s = NULL then None else c_memset (uninit 100) NUL 100) ''null pointer'') (\<lambda>src.
     bind (require (c_strcpy src ''sample:test:hello'') ''write past the end of a buffer'') (\<lambda>src.
     seq (printf (''src = %p, find = %p'' @ [NL])
            [N (ret s), N (case memmem (take 20 src) ''test'' of Some i \<Rightarrow> ret s + int i | None \<Rightarrow> NULL)])
     (bind (load_string src) (\<lambda>t.
     seq (printf (''src = %s'' @ [NL]) [T t])
     (bind (require (if ret d = NULL then None else cstr (uninit 100)) ''uninitialised dst'') (\<lambda>u.
     seq (printf (''dst = %s'' @ [NL]) [T u])
     (seq (c_free (ret s)) (c_free (ret d)))))))))))"

definition mlock_sample :: "('m, unit) prog" where
  "mlock_sample =
     bind aligned_alloc (\<lambda>p.
     seq (or_errexit (Sys ''mlock'' [N p, N 1024]) ''mlock'')
     (bind (store (uninit 1024) 0 (take 10 ''this is test'')) (\<lambda>buf.
     bind (load_string buf) (\<lambda>t.
     seq (printf (''%s'' @ [NL]) [T t])
     (seq (or_errexit (Sys ''munlock'' [N p, N 10]) ''munlock'')
     (c_free p))))))"

subsection \<open>\<open>LinuxAPI/memory_alloc.c\<close>\<close>

definition memory_alloc :: "('m, unit) prog" where
  "memory_alloc =
     seq (sys (Sys ''setenv'' [T ''MALLOC_TRACE'', T ''mallog'', N 1]))
     (seq (sys (Sys ''mtrace'' []))
     (bind (sys (Sys ''malloc'' [N 400])) (\<lambda>imem.
     seq (c_free (ret imem))
     (seq (sys (Sys ''muntrace'' []))
     (seq (sys (Sys ''unsetenv'' [T ''MALLOC_TRACE'']))
     (seq (sys (Sys ''mallinfo'' []))
     (bind (sys (Sys ''calloc'' [N 100, N 48])) (\<lambda>test_arr.
     seq (c_free (ret test_arr))
     (bind (sys (Sys ''memalign'' [N 4096, N 400])) (\<lambda>memptr.
     printf (''address = 0x%8p'' @ [NL]) [N (ret memptr)]))))))))))"

text \<open>\<open>realloc_test (&ptr, size)\<close>: the pointer goes in and out.\<close>

definition realloc_test :: "int \<Rightarrow> int \<Rightarrow> ('m, int) prog" where
  "realloc_test ptr n =
     bind (sys (Sys ''realloc'' [N ptr, N n])) (\<lambda>r.
     if ret r = NULL then errExit ''realloc'' [] else return (ret r))"

subsection \<open>Mapped files\<close>

text \<open>The bytes of a mapping come with the reply of \<open>mmap\<close>. \<open>%.*s\<close> reads at most \<open>n\<close> bytes.\<close>

fun c_precision :: "nat \<Rightarrow> cbuf \<Rightarrow> string option" where
  "c_precision 0 b = Some []"
| "c_precision (Suc n) [] = None"
| "c_precision (Suc n) (None # b) = None"
| "c_precision (Suc n) (Some c # b) = (if c = NUL then Some [] else map_option (Cons c) (c_precision n b))"

definition mmap_file_privated :: "string list \<Rightarrow> ('m, unit) prog" where
  "mmap_file_privated argv =
     bind (argv_nth argv 1) (\<lambda>name.
     bind (sys (Open name O_RDONLY None)) (\<lambda>f.
     bind (or_errExit (Sys ''fstat'' [N (ret f)]) ''fstat()'' []) (\<lambda>sb.
     let st_size = out_int sb 0 in
     bind (sys (Sys ''mmap'' [N NULL, N st_size, N PROT_READ, N MAP_PRIVATE, N (ret f), N 0])) (\<lambda>a.
     seq (only_if (ret a = MAP_FAILED) (errExit ''mmap()'' []))
     (bind (write_from STDOUT_FILENO (lit (rdata a)) 0 (nat st_size)) (\<lambda>w.
     seq (only_if (w \<noteq> st_size) (fatal ''write()'' []))
     (seq (or_errExit (Sys ''munmap'' [N (ret a), N st_size]) ''munmap()'' [])
     skip)))))))"

definition MEM_SIZE :: nat where "MEM_SIZE = 10"
definition MS_SYNC :: int where "MS_SYNC = 4"

text \<open>What \<open>msync\<close> writes to the file is the content of the mapping, an argument of the call.\<close>

definition mmap_file_shared :: "string list \<Rightarrow> ('m, unit) prog" where
  "mmap_file_shared argv =
     bind (argv_nth argv 1) (\<lambda>name.
     bind (sys (Open name O_RDWR None)) (\<lambda>f.
     bind (sys (Sys ''mmap'' [N NULL, N (int MEM_SIZE), N PROT_RW, N MAP_SHARED, N (ret f), N 0])) (\<lambda>a.
     seq (only_if (ret a = MAP_FAILED) (errExit ''mmap()'' []))
     (seq (sys (Close (ret f)))
     (bind (require (c_precision MEM_SIZE (lit (rdata a))) ''read past the end of a buffer'') (\<lambda>t.
     seq (printf (''current value = %.*s'' @ [NL]) [N (int MEM_SIZE), T t])
     (if length argv \<le> 2 then skip
      else
        bind (require (c_memset (lit (rdata a)) NUL MEM_SIZE) ''write past the end of a buffer'') (\<lambda>addr.
        bind (require (c_strncpy addr (argv ! 2) MEM_SIZE) ''write past the end of a buffer'') (\<lambda>addr.
        seq (or_errExit (Sys ''msync'' [N (ret a), T (map the addr), N MS_SYNC]) ''msync()'' [])
        (bind (require (c_precision MEM_SIZE addr) ''read past the end of a buffer'') (\<lambda>t.
        printf (''new value = %.*s'' @ [NL]) [N (int MEM_SIZE), T t])))))))))))"

text \<open>The integer behind \<open>shared\<close> is answered by the memory both processes see.\<close>

definition mmap_anonymous_shared :: "('m, unit) prog" where
  "mmap_anonymous_shared =
     bind (sys (Sys ''mmap'' [N NULL, N 4, N PROT_RW, N (MAP_SHARED OR MAP_ANONYMOUS), N (-1), N 0])) (\<lambda>p.
     seq (only_if (ret p = MAP_FAILED) (errExit ''mmap()'' []))
     (seq (sys (Sys ''store'' [T ''shared'', N 1]))
     (bind (sys (Sys ''malloc'' [N 4])) (\<lambda>l.
     bind (require (if ret l = NULL then None else Some (1 :: int)) ''null pointer'') (\<lambda>local.
     bind (sys Fork) (\<lambda>f.
     if ret f = -1 then stop (QuickExited EXIT_FAILURE)
     else if ret f = 0 then
       seq (sys (Sys ''++'' [T ''shared'']))
       (bind (sys (Sys ''load'' [T ''shared''])) (\<lambda>v.
       seq (printf (''child shared address = %p, shared = %d, normal = %d'' @ [NL]) [N (ret p), N (ret v), N (local + 1)])
       (seq (sys (Sys ''munmap'' [N (ret p), N 4]))
       (stop (Exited EXIT_SUCCESS)))))
     else
       seq (sys (Sys ''wait'' [N NULL]))
       (bind (sys (Sys ''load'' [T ''shared''])) (\<lambda>v.
       seq (printf (''parent shared address = %p, shared = %d, normal = %d'' @ [NL]) [N (ret p), N (ret v), N local])
       (seq (sys (Sys ''munmap'' [N (ret p), N 4]))
       (stop (Exited EXIT_SUCCESS)))))))))))"

definition LEN :: int where "LEN = 1024"
definition SHELL_FMT :: string where "SHELL_FMT = ''cat /proc/%ld/maps | grep zero''"

definition CMD_SIZE :: nat where "CMD_SIZE = length SHELL_FMT + 1 + 20"

definition run_cmd :: "cbuf \<Rightarrow> ('m, cbuf) prog" where
  "run_cmd cmd =
     bind getpid (\<lambda>p.
     bind (require (cformat SHELL_FMT [N p]) ''format'') (\<lambda>t.
     bind (require (c_snprintf cmd CMD_SIZE t) ''write past the end of a buffer'') (\<lambda>cmd.
     bind (load_string cmd) (\<lambda>c.
     seq (sys (Sys ''system'' [T c]))
     (return cmd)))))"

definition mmap_ops :: "('m, unit) prog" where
  "mmap_ops =
     bind (sys (Sys ''mmap'' [N NULL, N LEN, N PROT_NONE, N (MAP_SHARED OR MAP_ANONYMOUS), N (-1), N 0])) (\<lambda>a.
     seq (only_if (ret a = MAP_FAILED) (errExit ''mmap()'' []))
     (bind (run_cmd (uninit CMD_SIZE)) (\<lambda>cmd.
     seq (or_errExit (Sys ''mprotect'' [N (ret a), N LEN, N PROT_RW]) ''mprotect()'' [])
     (seq (run_cmd cmd)
     (seq (or_errExit (Sys ''mlock'' [N (ret a), N LEN]) ''mlock()'' [])
     (seq (or_errExit (Sys ''munlock'' [N (ret a), N LEN]) ''munlock()'' [])
     skip))))))"

subsection \<open>Paths\<close>

lemma etc_facts: "c_string etc" "length etc = 5"
  by (simp_all add: etc_def c_string_def)

lemma strcat_cstr:
  assumes "cstr b = Some h" "c_string t" "c_strcat b t = Some b'"
  shows "cstr b' = Some (h @ t)"
proof -
  have h: "take (length h) b = lit h"
    using assms(1) by (induction b arbitrary: h rule: cstr.induct) (auto simp: lit_def split: if_splits)
  have l: "length h \<le> length b" using cstr_length [OF assms(1)] by simp
  have c: "c_string (h @ t)" using cstr_c_string [OF assms(1)] assms(2) by (simp add: c_string_def)
  from assms(1,3) h have "\<exists>r. b' = lit (h @ t) @ Some NUL # r"
    by (auto simp: c_strcat_def poke_def lit_def split: if_splits)
  then obtain r where "b' = lit (h @ t) @ Some NUL # r" by blast
  with cstr_append_NUL [OF c] show ?thesis by simp
qed

lemma etc_copy:
  assumes "5 < n"
  obtains b where "c_strcpy (uninit n) etc = Some b" "cstr b = Some etc" "length b = n"
proof -
  obtain b where b: "c_strcpy (uninit n) etc = Some b" "length b = n"
    using assms poke_start [of "etc @ [NUL]" "uninit n"] by (auto simp: c_strcpy_def etc_facts)
  with strcpy_cstr [OF etc_facts(1) b(1)] that show thesis by blast
qed

lemma etc_path_fits:
  assumes "c_string a" "length etc + length a < n"
  shows "etc_path (uninit n) a s = (Ok (etc @ a), s)"
proof -
  from assms(2) obtain b where b: "c_strcpy (uninit n) etc = Some b" "cstr b = Some etc" "length b = n"
    using etc_copy [of n] by (auto simp: etc_facts)
  obtain b' where b': "c_strcat b a = Some b'"
    using b assms(2) by (cases "c_strcat b a") (auto simp: c_strcat_def poke_def)
  from strcat_cstr [OF b(2) assms(1) b'] b b' show ?thesis
    by (simp add: etc_path_def load_string_def require_def bind_def return_def)
qed

lemma etc_path_too_long:
  assumes "n \<le> length etc + length a"
  shows "\<exists>why. etc_path (uninit n) a s = (Stop (Undefined why), s)"
proof (cases "5 < n")
  case True
  then obtain b where "c_strcpy (uninit n) etc = Some b" "cstr b = Some etc" "length b = n"
    by (rule etc_copy)
  with assms show ?thesis
    by (simp add: etc_path_def load_string_def require_def bind_def return_def undef_def stop_def c_strcat_def poke_def)
next
  case False
  then have "c_strcpy (uninit n) etc = None" by (simp add: strcpy_overflow etc_facts)
  then show ?thesis by (simp add: etc_path_def require_def bind_def undef_def stop_def)
qed

text \<open>The object in which \<open>mem_variable_len_array\<close> puts the path together has exactly the size it needs:
  for every argument the file opened is \<open>/etc/\<close> followed by the argument, and with one byte less the
  copy would be written past the end.\<close>

theorem variable_len_array_fits:
  assumes "1 < length argv" "c_string (argv ! 1)" "replies s = r # rs"
    and "mem_variable_len_array argv s = (out, s')"
  shows "out = (if ret r = -1 then Stop (Exited 1) else Ok ()) \<and>
    (\<exists>e. trace s' = trace s @ [Did (Open (''/etc/'' @ argv ! 1) O_RDONLY None) r, e] \<and>
      (ret r \<noteq> -1 \<longrightarrow> e = Out (''fd = %d'' @ [NL]) [N (ret r)])) \<and>
    (n < length etc + length (argv ! 1) + 1 \<longrightarrow>
      (\<exists>why. etc_path (uninit n) (argv ! 1) s = (Stop (Undefined why), s)))"
proof -
  obtain a where a: "argv ! 1 = a" by simp
  have p: "wp (etc_path (uninit (length etc + length a + 1)) a) Q s0 = Q (Ok (etc @ a)) s0" for Q
    and s0 :: "'a proc_scheme"
  proof -
    have "etc_path (uninit (length etc + length a + 1)) a s0 = (Ok (etc @ a), s0)"
      by (rule etc_path_fits) (use assms(2) a in simp_all)
    then show ?thesis unfolding wp_def by simp
  qed
  have "wp (mem_variable_len_array argv) (\<lambda>out s'. out = (if ret r = -1 then Stop (Exited 1) else Ok ()) \<and>
    (\<exists>e. trace s' = trace s @ [Did (Open (etc @ argv ! 1) O_RDONLY None) r, e] \<and>
      (ret r \<noteq> -1 \<longrightarrow> e = Out (''fd = %d'' @ [NL]) [N (ret r)]))) s"
    unfolding mem_variable_len_array_def
    using assms(1,3) a by (simp add: wp_rules p EXIT_FAILURE_def cong: wp_cong)
  from wpD [OF this assms(4)] etc_path_too_long [of n "argv ! 1" s] show ?thesis by (simp add: etc_def)
qed

theorem variable_len_array_fits_witness:
  "fst (mem_variable_len_array [''api3'', ''hosts''] (boot [r_ok 3])) = Ok ()"
proof -
  let ?run = "mem_variable_len_array [''api3'', ''hosts''] (boot [r_ok 3])"
  have m: "?run = (fst ?run, snd ?run)" by simp
  have "replies (boot [r_ok 3]) = r_ok 3 # []" by (simp add: boot_def)
  from variable_len_array_fits [OF _ _ this m] show ?thesis by (simp add: c_string_def r_ok_def)
qed

subsection \<open>Mappings\<close>

text \<open>A run of \<open>mmap_file_privated\<close> that returns has mapped as many bytes as the file has and written all
  of them, unchanged, to its standard output in one call.\<close>

theorem mmap_privated_copies:
  assumes "mmap_file_privated argv s = (Ok u, s')"
  shows "\<exists>f sb a w m. trace s' = trace s @ [Did (Open (argv ! 1) O_RDONLY None) f, Did (Sys ''fstat'' [N (ret f)]) sb,
      Did (Sys ''mmap'' [N NULL, N (out_int sb 0), N PROT_READ, N MAP_PRIVATE, N (ret f), N 0]) a,
      Did (Write STDOUT_FILENO (lit (take (nat (out_int sb 0)) (rdata a)))) w,
      Did (Sys ''munmap'' [N (ret a), N (out_int sb 0)]) m] \<and>
    ret w = out_int sb 0 \<and> out_int sb 0 \<le> int (length (rdata a))"
proof -
  from assms show ?thesis
    unfolding mmap_file_privated_def write_from_def
    by (auto simp: ok_simps peek_def lit_def take_map split: if_splits)
qed

theorem mmap_privated_copies_witness:
  "\<exists>s'. mmap_file_privated [''x'', ''f''] (boot [r_ok 3, (r_ok 0)\<lparr>rints := [2]\<rparr>, (r_got ''hi'')\<lparr>ret := 4096\<rparr>, r_ok 2, r_ok 0]) = (Ok (), s') \<and>
    length (trace s') = 5"
proof -
  let ?run = "mmap_file_privated [''x'', ''f''] (boot [r_ok 3, (r_ok 0)\<lparr>rints := [2]\<rparr>, (r_got ''hi'')\<lparr>ret := 4096\<rparr>, r_ok 2, r_ok 0])"
  have f: "fst ?run = Ok ()" by code_simp
  have m: "?run = (Ok (), snd ?run)" using f by (metis prod.collapse)
  from mmap_privated_copies [OF m] have "length (trace (snd ?run)) = 5" by (auto simp: boot_def)
  with m show ?thesis by blast
qed

lemma c_precision_text: "c_string t \<Longrightarrow> length t = n \<Longrightarrow> c_precision n (lit t @ b) = Some t"
  by (induction t arbitrary: n) (auto simp: lit_def c_string_def)

lemma c_precision_stops: "c_string t \<Longrightarrow> length t < n \<Longrightarrow> c_precision n (lit t @ Some NUL # b) = Some t"
proof (induction t arbitrary: n)
  case Nil
  then show ?case by (cases n) (auto simp: lit_def)
next
  case (Cons c t)
  then show ?case by (cases n) (auto simp: lit_def c_string_def)
qed

text \<open>A padded copy reads back as the first \<open>n\<close> characters.\<close>

lemma strncpy_precision:
  assumes "c_string t" "n \<le> length b" "c_strncpy b t n = Some b'"
  shows "c_precision n b' = Some (take n t)"
    and "b' = lit (take n t @ replicate (n - length t) NUL) @ drop n b"
proof -
  have c: "c_string (take n t)" using assms(1) by (auto simp: c_string_def dest: in_set_takeD)
  show b': "b' = lit (take n t @ replicate (n - length t) NUL) @ drop n b"
    using assms(2,3) by (auto simp: c_strncpy_def poke_def lit_def min_def split: if_splits)
  show "c_precision n b' = Some (take n t)"
  proof (cases "n \<le> length t")
    case True
    with c_precision_text [OF c, of n "drop n b"] show ?thesis by (simp add: b')
  next
    case False
    then obtain k where "n - length t = Suc k" by (metis Suc_diff_Suc not_le_imp_less)
    with c_precision_stops [of t n] assms(1) False show ?thesis
      by (simp add: b' lit_def)
  qed
qed

text \<open>C34. \<open>mmap_file_shared\<close> with a new value: the first ten characters of the argument, padded with NUL
  bytes, replace the first ten bytes of the mapping and no other byte, they reach the file, and what is
  printed is these characters.\<close>

theorem mmap_shared_updates:
  assumes "2 < length argv" "c_string (argv ! 2)" "replies s = f # a # c # y # rs"
    and "ret a \<noteq> -1" "10 \<le> length (rdata a)" "ret y \<noteq> -1" "mmap_file_shared argv s = (out, s')"
  shows "out = Ok () \<and>
    Did (Sys ''msync'' [N (ret a), T (take 10 (argv ! 2) @ replicate (10 - length (argv ! 2)) NUL @ drop 10 (rdata a)), N MS_SYNC]) y
      \<in> set (trace s') \<and>
    last (trace s') = Out (''new value = %.*s'' @ [NL]) [N 10, T (take 10 (argv ! 2))]"
proof -
  have "\<exists>t. c_precision n (lit bs) = Some t" if "n \<le> length bs" for n bs
    using that by (induction bs arbitrary: n) (auto simp: lit_def, case_tac n, auto)
  with assms(5) obtain t where t: "c_precision 10 (lit (rdata a)) = Some t" by blast
  obtain b1 where b1: "c_memset (lit (rdata a)) NUL 10 = Some b1" "length b1 = length (rdata a)" "drop 10 b1 = drop 10 (lit (rdata a))"
    using assms(5) by (auto simp: c_memset_def poke_def)
  have "length (take 10 (argv ! 2) @ replicate (10 - length (argv ! 2)) NUL) = 10" by (simp add: min_def)
  then have "c_strncpy b1 (argv ! 2) 10 \<noteq> None" using b1(2) assms(5) by (simp only: c_strncpy_def poke_def) simp
  then obtain b2 where b2: "c_strncpy b1 (argv ! 2) 10 = Some b2" by blast
  note p = strncpy_precision [OF assms(2) _ b2]
  have m: "map the b2 = take 10 (argv ! 2) @ replicate (10 - length (argv ! 2)) NUL @ drop 10 (rdata a)"
    using p(2) b1 assms(5) by (simp add: lit_def drop_map comp_def)
  have "wp (mmap_file_shared argv) (\<lambda>out s'. out = Ok () \<and>
    Did (Sys ''msync'' [N (ret a), T (take 10 (argv ! 2) @ replicate (10 - length (argv ! 2)) NUL @ drop 10 (rdata a)), N MS_SYNC]) y
      \<in> set (trace s') \<and>
    last (trace s') = Out (''new value = %.*s'' @ [NL]) [N 10, T (take 10 (argv ! 2))]) s"
    unfolding mmap_file_shared_def MEM_SIZE_def MAP_FAILED_def
    using assms(1,3-6) t b1 b2 p(1) m
    by (simp add: wp_rules wp_errExit [OF cformat_plain] cong: wp_cong)
  from wpD [OF this assms(7)] show ?thesis .
qed

theorem mmap_shared_updates_witness:
  "\<exists>s'. mmap_file_shared [''x'', ''f'', ''new''] (boot [r_ok 3, (r_got ''0123456789ab'')\<lparr>ret := 4096\<rparr>, r_ok 0, r_ok 0]) = (Ok (), s') \<and>
    last (trace s') = Out (''new value = %.*s'' @ [NL]) [N 10, T ''new'']"
proof -
  let ?s = "boot [r_ok 3, (r_got ''0123456789ab'')\<lparr>ret := 4096\<rparr>, r_ok 0, r_ok 0]"
  let ?run = "mmap_file_shared [''x'', ''f'', ''new''] ?s"
  have m: "?run = (fst ?run, snd ?run)" by simp
  have r: "replies ?s = r_ok 3 # (r_got ''0123456789ab'')\<lparr>ret := 4096\<rparr> # r_ok 0 # r_ok 0 # []" by (simp add: boot_def)
  from mmap_shared_updates [OF _ _ r _ _ _ m] show ?thesis
    by (intro exI [of _ "snd ?run"]) (auto simp: c_string_def r_ok_def r_got_def prod_eq_iff)
qed

end
