(* ===== verification/ThreadControl.thy ===== *)
theory ThreadControl
  imports ThreadData Memory
begin

text \<open>
  Threads that are created, joined, cancelled and signalled: \<open>LinuxAPI2/pthread_introduce.c\<close>,
  \<open>LinuxAPI2/pthread_cancellation.c\<close>, \<open>LinuxAPI2/pthread_signal.c\<close> and \<open>api3/pthread_example.c\<close>.
  A thread function is a program that answers what the thread returns.
\<close>

subsection \<open>\<open>pthread_introduce\<close>\<close>

definition thread_func_introduce :: "string \<Rightarrow> ('m, int) prog" where
  "thread_func_introduce str =
     bind pthread_self (\<lambda>tid.
     seq (printf (''thread id = 0x%x, arg = %s'' @ [NL]) [N (tid mod 2 ^ 32), T str])
     (return (int (length str))))"

definition pthread_introduce :: "('m, unit) prog" where
  "pthread_introduce =
     bind (pthread_create ''thread_func'' (T ''hello thread'')) (\<lambda>t1.
     bind (sys (Sys ''pthread_join'' [N t1])) (\<lambda>j.
     seq (only_if (ret j \<noteq> 0) (errExitEN (ret j) ''pthread_join'' []))
     (printf (''thread id = 0x%x, ret = %ld'' @ [NL]) [N (t1 mod 2 ^ 32), N (out_int j 0)])))"

subsection \<open>Cancellation\<close>

definition PTHREAD_CANCELED :: int where "PTHREAD_CANCELED = -1"

text \<open>A request to cancel a thread takes effect at a cancellation point; the reply of the call says whether
  it does. \<open>printf\<close> is one as well, so it is preceded by a call that answers.\<close>

definition cancel_point :: "call \<Rightarrow> ('m, bool) prog" where
  "cancel_point c = bind (sys c) (\<lambda>r. return (rstrs r = [''PTHREAD_CANCELED'']))"

definition thread_func :: "('m, int) prog" where
  "thread_func =
     loop (\<lambda>i.
       if i < (10 :: int) then
         bind (sys (Sys ''malloc'' [N 100])) (\<lambda>arr.
         bind (cancel_point (Sys ''sleep'' [N 1])) (\<lambda>c.
         if c then leave PTHREAD_CANCELED
         else
           bind (cancel_point (Sys ''testcancel'' [])) (\<lambda>c.
           if c then leave PTHREAD_CANCELED
           else
             seq (printf (''count = %d'' @ [NL]) [N i])
             (seq (c_free (ret arr))
             (again (i + 1))))))
       else leave NULL) 0"

definition cleanup_func :: "int \<Rightarrow> ('m, unit) prog" where
  "cleanup_func arr =
     seq (only_if (arr \<noteq> NULL) (c_free arr))
     (printf (''cleanup function'' @ [NL]) [])"

text \<open>A cancelled thread runs the cleanup function that was pushed; \<open>pthread_cleanup_pop (0)\<close> removes it
  without running it.\<close>

definition thread_func_cleanup :: "('m, int) prog" where
  "thread_func_cleanup =
     loop (\<lambda>i.
       if i < (10 :: int) then
         bind (sys (Sys ''malloc'' [N 100])) (\<lambda>arr.
         bind (cancel_point (Sys ''sleep'' [N 1])) (\<lambda>c.
         if c then seq (cleanup_func (ret arr)) (leave PTHREAD_CANCELED)
         else
           bind (cancel_point (Sys ''testcancel'' [])) (\<lambda>c.
           if c then seq (cleanup_func (ret arr)) (leave PTHREAD_CANCELED)
           else
             seq (printf (''count = %d'' @ [NL]) [N i])
             (seq (only_if (ret arr \<noteq> NULL) (c_free (ret arr)))
             (again (i + 1))))))
       else leave NULL) 0"

text \<open>The results of the calls are not tested: \<open>retval\<close> is only set by a join that succeeds.\<close>

definition pthread_cancellation :: "('m, unit) prog" where
  "pthread_cancellation =
     bind (sys (Sys ''pthread_create'' [T ''thread_func_cleanup''])) (\<lambda>c.
     bind (require (if ret c = 0 then Some (out_int c 0) else None) ''uninitialised t1'') (\<lambda>t1.
     seq (sys (Sys ''sleep'' [N 3]))
     (seq (sys (Sys ''pthread_cancel'' [N t1]))
     (bind (sys (Sys ''pthread_join'' [N t1])) (\<lambda>j.
     bind (require (if ret j = 0 then Some (out_int j 0) else None) ''uninitialised retval'') (\<lambda>retval.
     only_if (retval = PTHREAD_CANCELED) (printf (''Thread was canceled'' @ [NL]) [])))))))"

subsection \<open>\<open>pthread_signal\<close>\<close>

definition thread_worker :: "('m, int) prog" where
  "thread_worker =
     bind pthread_self (\<lambda>t.
     seq (printf (''worker thread id = %x was started.'' @ [NL]) [N (t mod 2 ^ 32)])
     (loop (\<lambda>_. seq (sys (Sys ''sleep'' [N 1])) (again ())) ()))"

text \<open>\<open>SIGKILL\<close> cannot be caught, and its action is on the process: a \<open>pthread_kill\<close> that succeeds ends all
  threads.\<close>

definition kill_worker :: "int \<Rightarrow> ('m, unit) prog" where
  "kill_worker t =
     bind (sys (Sys ''pthread_kill'' [N t, N SIGKILL])) (\<lambda>s.
     if ret s \<noteq> 0 then errExitEN (ret s) ''sigwait'' [] else stop (Killed SIGKILL))"

definition thread_signal_handler :: "int \<Rightarrow> int \<Rightarrow> ('m, unit) prog" where
  "thread_signal_handler t1 t2 =
     bind pthread_self (\<lambda>t.
     seq (printf (''signal handler thread id = %x was started.'' @ [NL]) [N (t mod 2 ^ 32)])
     (bind (sys (Sys ''sigwait'' [N SIGINT])) (\<lambda>s.
     if ret s \<noteq> 0 then errExitEN (ret s) ''sigwait'' []
     else
       seq (printf (''signal %d was signaled.'' @ [NL]) [N (out_int s 0)])
       (seq (kill_worker t1)
       (kill_worker t2)))))"

text \<open>The thread identifiers are global and 0 until \<open>pthread_create\<close> stores one.\<close>

definition pthread_signal :: "('m, unit) prog" where
  "pthread_signal =
     bind (sys (Sys ''pthread_sigmask'' [N SIG_BLOCK])) (\<lambda>m.
     seq (only_if (ret m \<noteq> 0) (errExit ''pthread_sigmask()'' []))
     (bind (sys (Sys ''pthread_create'' [T ''thread_worker''])) (\<lambda>t1.
     bind (sys (Sys ''pthread_create'' [T ''thread_worker''])) (\<lambda>t2.
     bind (sys (Sys ''pthread_create'' [T ''thread_signal_handler''])) (\<lambda>t3.
     seq (sys (Sys ''pthread_join'' [N (out_int t1 0)]))
     (seq (sys (Sys ''pthread_join'' [N (out_int t2 0)]))
     (seq (sys (Sys ''pthread_join'' [N (out_int t3 0)]))
     skip)))))))"

subsection \<open>\<open>api3/pthread_example.c\<close>\<close>

definition start_routine_create :: "string \<Rightarrow> ('m, int) prog" where
  "start_routine_create msg = seq (printf (''%s'' @ [NL]) [T msg]) (return 0)"

definition create_thread :: "string \<Rightarrow> carg list \<Rightarrow> ('m, int) prog" where
  "create_thread f as =
     bind (sys (Sys ''pthread_create'' (T f # as))) (\<lambda>r.
     seq (only_if (ret r \<noteq> 0) (errexit ''pthread_create''))
     (return (out_int r 0)))"

definition create :: "('m, unit) prog" where
  "create =
     bind (create_thread ''start_routine_create'' [T ''Thread 1'']) (\<lambda>t1.
     bind (create_thread ''start_routine_create'' [T ''Thread 2'']) (\<lambda>t2.
     bind (create_thread ''start_routine_create'' [T ''Thread 3'']) (\<lambda>t3.
     seq (sys (Sys ''pthread_join'' [N t1]))
     (seq (sys (Sys ''pthread_join'' [N t2]))
     (seq (sys (Sys ''pthread_detach'' [N t3]))
     skip)))))"

definition start_routine_exit_cancel :: "('m, int) prog" where
  "start_routine_exit_cancel =
     bind (loop (\<lambda>i.
       if i < (5 :: int) then
         bind pthread_self (\<lambda>t.
         bind (cancel_point (Sys ''testcancel'' [])) (\<lambda>c.
         if c then leave PTHREAD_CANCELED
         else
           seq (printf (''tid = %x, %d'' @ [NL]) [N (t mod 2 ^ 32), N i])
           (bind (cancel_point (Sys ''sleep'' [N 2])) (\<lambda>c.
            if c then leave PTHREAD_CANCELED else again (i + 1)))))
       else leave (-1)) 0) return"

text \<open>\<open>pthread_join (t2, (void **) &retval)\<close> stores a pointer of eight bytes, \<open>retval\<close> is an \<open>int\<close>.\<close>

definition exit_cancel :: "('m, unit) prog" where
  "exit_cancel =
     bind (create_thread ''start_routine_exit_cancel'' []) (\<lambda>t1.
     bind (create_thread ''start_routine_exit_cancel'' []) (\<lambda>t2.
     seq (sys (Sys ''sleep'' [N 5]))
     (bind (sys (Sys ''pthread_cancel'' [N t1])) (\<lambda>c.
     seq (only_if (ret c > 0) (errexit ''pthread_cancel''))
     (bind (sys (Sys ''pthread_join'' [N t2])) (\<lambda>j.
     bind (require (if ret j = 0 then map_option (\<lambda>_. out_int j 0) (poke (uninit 4) 0 (replicate 8 NUL)) else None)
       ''write past the end of an object, or uninitialised retval'') (\<lambda>retval.
     printf (''%d'' @ [NL]) [N retval])))))))"

subsection \<open>What a cancelled thread leaves behind\<close>

text \<open>The blocks in use after the events of a thread; freeing what is not in use has no result.\<close>

fun heap_after :: "int list \<Rightarrow> event list \<Rightarrow> int list option" where
  "heap_after h [] = Some h"
| "heap_after h (Did (Sys c as) r # es) =
     (if c = ''malloc'' then heap_after (if ret r = NULL then h else ret r # h) es
      else if c = ''free'' then
        (case as of
           [N p] \<Rightarrow> if p = NULL then heap_after h es else if p \<in> set h then heap_after (remove1 p h) es else None
         | _ \<Rightarrow> None)
      else heap_after h es)"
| "heap_after h (e # es) = heap_after h es"

lemma heap_after_append:
  "heap_after h (es @ fs) = (case heap_after h es of None \<Rightarrow> None | Some h' \<Rightarrow> heap_after h' fs)"
  by (induction h es rule: heap_after.induct) (auto split: list.splits carg.splits)

text \<open>Rounds that give back what they take, and a last one that leaves \<open>rest\<close>.\<close>

lemma traced_blocks:
  fixes body :: "int \<Rightarrow> ('m, int + int) prog"
  assumes body: "\<And>i. traced (\<lambda>_. True) (body i) (\<lambda>out fs. case out of
      Ok (Inl i') \<Rightarrow> heap_after [] fs = Some [] | Ok (Inr v) \<Rightarrow> \<exists>h. heap_after [] fs = Some h \<and> rest v h | Stop x \<Rightarrow> True)"
    and t: "\<And>i. tame (body i)" and c: "\<And>i. consumes (body i)"
  shows "traced (\<lambda>_. True) (loop body i) (\<lambda>out es. case out of Ok v \<Rightarrow> \<exists>h. heap_after [] es = Some h \<and> rest v h | Stop x \<Rightarrow> True)"
proof (rule traced_loop [where I = "\<lambda>i es. heap_after [] es = Some []"])
  fix i :: int and es :: "event list"
  assume "heap_after [] es = Some []"
  then show "traced (\<lambda>_. True) (body i) (\<lambda>out fs. case out of
      Ok (Inl i') \<Rightarrow> heap_after [] (es @ fs) = Some []
    | Ok (Inr v) \<Rightarrow> (case Ok v of Ok v \<Rightarrow> \<exists>h. heap_after [] (es @ fs) = Some h \<and> rest v h | Stop x \<Rightarrow> True)
    | Stop x \<Rightarrow> (case Stop x of Ok v \<Rightarrow> \<exists>h. heap_after [] (es @ fs) = Some h \<and> rest v h | Stop x \<Rightarrow> True))"
    by (intro traced_mono [OF body [of i]]) (auto simp: heap_after_append split: outcome.splits sum.splits)
qed (simp_all add: t c)

text \<open>The condition on the outcomes that are values.\<close>

lemma traced_values:
  assumes "\<And>s v s' es. m s = (Ok v, s') \<Longrightarrow> trace s' = trace s @ es \<Longrightarrow> Q v es"
  shows "traced (\<lambda>_. True) m (\<lambda>out es. case out of Ok v \<Rightarrow> Q v es | Stop x \<Rightarrow> True)"
  using assms by (auto simp: traced_def split: outcome.splits)

lemmas thread_defs = cancel_point_def cleanup_func_def c_free_def

lemma thread_func_heap:
  "traced (\<lambda>_. True) thread_func (\<lambda>out es. case out of
     Ok v \<Rightarrow> \<exists>h. heap_after [] es = Some h \<and> (v = NULL \<and> h = [] \<or> v = PTHREAD_CANCELED \<and> length h \<le> 1) | Stop x \<Rightarrow> True)"
  unfolding thread_func_def
proof (rule traced_blocks, goal_cases)
  case (1 i)
  show ?case
    unfolding thread_defs
    by (auto simp: traced_def ok_simps after_def logged_def split: outcome.splits sum.splits)
next
  case (2 i)
  show ?case unfolding thread_defs by (intro tame_rules)
next
  case (3 i)
  show ?case unfolding thread_defs by (intro consumes_if progress_rules tame_rules)
qed

lemma thread_func_cleanup_heap:
  "traced (\<lambda>_. True) thread_func_cleanup (\<lambda>out es. case out of
     Ok v \<Rightarrow> \<exists>h. heap_after [] es = Some h \<and> h = [] \<and> (v = NULL \<or> v = PTHREAD_CANCELED) | Stop x \<Rightarrow> True)"
  unfolding thread_func_cleanup_def
proof (rule traced_blocks, goal_cases)
  case (1 i)
  show ?case
    unfolding thread_defs
    by (auto simp: traced_def ok_simps after_def logged_def split: outcome.splits sum.splits)
next
  case (2 i)
  show ?case unfolding thread_defs by (intro tame_rules)
next
  case (3 i)
  show ?case unfolding thread_defs by (intro consumes_if progress_rules tame_rules)
qed

text \<open>C36. A thread that runs \<open>thread_func_cleanup\<close> to its end or is cancelled at any of its cancellation points
  has freed every block it allocated, exactly once; one that runs \<open>thread_func\<close> has as well when it is not
  cancelled, and otherwise leaves at most the block of its last round.\<close>

theorem cleanup_frees_blocks:
  assumes "thread_func_cleanup s = (Ok v, s')" "trace s' = trace s @ es"
    and "thread_func s = (Ok w, t')" "trace t' = trace s @ fs"
  shows "heap_after [] es = Some [] \<and> (v = NULL \<or> v = PTHREAD_CANCELED) \<and>
    (\<exists>h. heap_after [] fs = Some h \<and> (w = NULL \<and> h = [] \<or> w = PTHREAD_CANCELED \<and> length h \<le> 1))"
  using tracedD [OF thread_func_cleanup_heap assms(1,2)] tracedD [OF thread_func_heap assms(3,4)]
  by (simp add: list_all_iff)

text \<open>The block of the second round is freed by the cleanup function; without it, it is left.\<close>

definition two_rounds :: "reply list" where
  "two_rounds = [r_ok 4096, r_ok 0, r_ok 0, r_ok 0, r_ok 8192, (r_ok 0)\<lparr>rstrs := [''PTHREAD_CANCELED'']\<rparr>, r_ok 0]"

theorem cleanup_frees_blocks_witness:
  "heap_after [] (trace (snd (thread_func_cleanup (boot two_rounds)))) = Some [] \<and>
   heap_after [] (trace (snd (thread_func (boot two_rounds)))) = Some [8192]"
proof -
  let ?r = "thread_func_cleanup (boot two_rounds)" and ?q = "thread_func (boot two_rounds)"
  have f: "fst ?r = Ok PTHREAD_CANCELED" "fst ?q = Ok PTHREAD_CANCELED" by code_simp+
  have m: "?r = (Ok PTHREAD_CANCELED, snd ?r)" "?q = (Ok PTHREAD_CANCELED, snd ?q)" using f by (metis prod.collapse)+
  have "trace (snd ?r) = trace (boot two_rounds) @ trace (snd ?r)" "trace (snd ?q) = trace (boot two_rounds) @ trace (snd ?q)"
    by (simp_all add: boot_def)
  from cleanup_frees_blocks [OF m(1) this(1) m(2) this(2)] have "heap_after [] (trace (snd ?r)) = Some []" by simp
  moreover have "heap_after [] (trace (snd ?q)) = Some [8192]" by code_simp
  ultimately show ?thesis by simp
qed

subsection \<open>Ends\<close>

text \<open>The store of the joined thread's result goes past the end of \<open>retval\<close>: no run of \<open>exit_cancel\<close> gets
  to its last line.\<close>

lemma exit_cancel_never_returns: "exit_cancel s \<noteq> (Ok u, s')"
  by (auto simp: exit_cancel_def ok_simps poke_def uninit_def split: if_splits)

text \<open>The first \<open>pthread_kill\<close> that succeeds ends the process, not a worker.\<close>

lemma kill_worker_kills:
  assumes "replies s = r # rs" "ret r = 0"
  shows "fst (seq (kill_worker t1) (kill_worker t2) s) = Stop (Killed SIGKILL)"
  using assms by (simp add: kill_worker_def seq_def bind_def sys_def stop_def)

end
