(* ===== verification/Actions.thy ===== *)
theory Actions
  imports ErrorFns
begin

text \<open>
  From the trace of a program to the moves of a participant in a step relation. The events of a run stand
  for actions on what the participants share (\<open>A\<close> gives the actions of an event), and a participant goes
  from one of its states to another with each action (\<open>step\<close>). \<open>moves A ok step l m post\<close> says that a run of
  \<open>m\<close> that returns \<open>v\<close>, and whose actions are all \<open>ok\<close>, takes the participant from \<open>l\<close> to \<open>post v\<close>. The rules
  derive this for whole programs.
\<close>

text \<open>Addition of type \<open>int\<close>; an overflow is undefined.\<close>

definition int_add :: "int \<Rightarrow> int \<Rightarrow> int option" where
  "int_add a b = (if INT_MIN \<le> a + b \<and> a + b \<le> INT_MAX then Some (a + b) else None)"

definition acts :: "(event \<Rightarrow> 'a list) \<Rightarrow> event list \<Rightarrow> 'a list" where
  "acts A es = concat (map A es)"

lemma acts_simps [simp]:
  "acts A [] = []" "acts A (e # es) = A e @ acts A es" "acts A (es @ fs) = acts A es @ acts A fs"
  by (simp_all add: acts_def)

fun act_run :: "('a \<Rightarrow> 'l \<Rightarrow> 'l option) \<Rightarrow> 'a list \<Rightarrow> 'l \<Rightarrow> 'l option" where
  "act_run step [] l = Some l"
| "act_run step (a # as) l = (case step a l of None \<Rightarrow> None | Some l' \<Rightarrow> act_run step as l')"

lemma act_run_append: "act_run step (as @ bs) l = Option.bind (act_run step as l) (act_run step bs)"
  by (induction as arbitrary: l) (simp_all split: option.split)

lemma act_run_Some_append [simp]: "act_run step as l = Some l' \<Longrightarrow> act_run step (as @ bs) l = act_run step bs l'"
  by (simp add: act_run_append)

definition moves :: "(event \<Rightarrow> 'a list) \<Rightarrow> ('a \<Rightarrow> bool) \<Rightarrow> ('a \<Rightarrow> 'l \<Rightarrow> 'l option) \<Rightarrow> 'l \<Rightarrow> ('m, 'v) prog \<Rightarrow> ('v \<Rightarrow> 'l) \<Rightarrow> bool" where
  "moves A ok step l m post \<longleftrightarrow> (\<forall>s v s'. m s = (Ok v, s') \<longrightarrow> (\<exists>es. trace s' = trace s @ es \<and>
     (list_all ok (acts A es) \<longrightarrow> act_run step (acts A es) l = Some (post v))))"

named_theorems moves_rules \<open>composition rules of programs whose events are moves\<close>

lemma movesI:
  "(\<And>s v s'. m s = (Ok v, s') \<Longrightarrow> \<exists>es. trace s' = trace s @ es \<and>
     (list_all ok (acts A es) \<longrightarrow> act_run step (acts A es) l = Some (post v))) \<Longrightarrow> moves A ok step l m post"
  unfolding moves_def by blast

lemma movesD:
  "moves A ok step l m post \<Longrightarrow> m s = (Ok v, s') \<Longrightarrow> trace s' = trace s @ es \<Longrightarrow> list_all ok (acts A es) \<Longrightarrow>
    act_run step (acts A es) l = Some (post v)"
  unfolding moves_def by (metis same_append_eq)

lemma moves_bind [moves_rules]:
  assumes m: "moves A ok step l m post" and f: "\<And>a. moves A ok step (post a) (f a) post'"
  shows "moves A ok step l (bind m f) post'"
proof (rule movesI)
  fix s v s'
  assume "bind m f s = (Ok v, s')"
  then obtain a s1 where 1: "m s = (Ok a, s1)" and 2: "f a s1 = (Ok v, s')" by (auto simp: ok_simps)
  from m 1 obtain es where "trace s1 = trace s @ es" "list_all ok (acts A es) \<longrightarrow> act_run step (acts A es) l = Some (post a)"
    unfolding moves_def by blast
  moreover from f [of a] 2 obtain fs where "trace s' = trace s1 @ fs"
    "list_all ok (acts A fs) \<longrightarrow> act_run step (acts A fs) (post a) = Some (post' v)"
    unfolding moves_def by blast
  ultimately show "\<exists>es. trace s' = trace s @ es \<and> (list_all ok (acts A es) \<longrightarrow> act_run step (acts A es) l = Some (post' v))"
    by (intro exI [of _ "es @ fs"]) simp
qed

lemma moves_seq [moves_rules]:
  "moves A ok step l m (\<lambda>_. l1) \<Longrightarrow> moves A ok step l1 n post \<Longrightarrow> moves A ok step l (seq m n) post"
  unfolding seq_def by (rule moves_bind)

lemma moves_value: "post0 a = l \<Longrightarrow> moves A ok step l (return a) post0" "post () = l \<Longrightarrow> moves A ok step l skip post"
  "post' (Inl a) = l \<Longrightarrow> moves A ok step l (again a) post'" "post'' (Inr b) = l \<Longrightarrow> moves A ok step l (leave b) post''"
  by (auto simp: moves_def ok_simps intro!: exI [of _ "[]"])

lemma moves_return [moves_rules]: "moves A ok step l (return a) (\<lambda>_. l)" "moves A ok step l skip (\<lambda>_. l)"
  by (auto simp: moves_def ok_simps intro!: exI [of _ "[]"])

lemma moves_for_each:
  assumes "\<And>x xs. moves A ok step (st (x # xs)) (f x) (\<lambda>_. st xs)"
  shows "moves A ok step (st xs) (for_each xs f) (\<lambda>_. st [])"
  by (induction xs) (auto intro: moves_return moves_seq assms)

lemma moves_fold_each:
  "(\<And>x b. moves A ok step (st b) (f x b) st) \<Longrightarrow> moves A ok step (st b) (fold_each xs f b) st"
  by (induction xs arbitrary: b) (auto intro: moves_bind moves_value)

text \<open>A program whose events are no actions leaves the participant where it is.\<close>

lemma moves_quiet:
  assumes "emits (\<lambda>e. A e = []) m"
  shows "moves A ok step l m (\<lambda>_. l)"
proof (rule movesI)
  fix s v s'
  assume "m s = (Ok v, s')"
  with assms obtain es where es: "trace s' = trace s @ es" "list_all (\<lambda>e. A e = []) es"
    unfolding emits_def by (metis snd_conv)
  from es(2) have "acts A es = []" by (induction es) auto
  with es(1) show "\<exists>es. trace s' = trace s @ es \<and> (list_all ok (acts A es) \<longrightarrow> act_run step (acts A es) l = Some l)" by auto
qed

lemma moves_loop:
  assumes body: "\<And>a. moves A ok step (pre a) (body a) (\<lambda>r. case r of Inl a' \<Rightarrow> pre a' | Inr b \<Rightarrow> post b)"
  shows "moves A ok step (pre a) (loop body a) post"
proof (rule movesI)
  fix s v s'
  assume "loop body a s = (Ok v, s')"
  then show "\<exists>es. trace s' = trace s @ es \<and> (list_all ok (acts A es) \<longrightarrow> act_run step (acts A es) (pre a) = Some (post v))"
  proof (induction "length (replies s)" arbitrary: a s rule: less_induct)
    case less
    from less.prems obtain r s1 where b: "body a s = (Ok r, s1)"
      by (auto simp: loop.simps [of body a s] split: prod.splits outcome.splits)
    from body [of a] b obtain es where es: "trace s1 = trace s @ es"
      "list_all ok (acts A es) \<longrightarrow> act_run step (acts A es) (pre a) = Some (case r of Inl a' \<Rightarrow> pre a' | Inr b \<Rightarrow> post b)"
      unfolding moves_def by blast
    show ?case
    proof (cases r)
      case (Inl a')
      with b less.prems have l: "length (replies s1) < length (replies s)" "loop body a' s1 = (Ok v, s')"
        by (auto simp: loop.simps [of body a s] split: if_splits)
      from less.hyps [OF l] obtain fs where "trace s' = trace s1 @ fs"
        "list_all ok (acts A fs) \<longrightarrow> act_run step (acts A fs) (pre a') = Some (post v)" by blast
      with es Inl show ?thesis by (intro exI [of _ "es @ fs"]) simp
    next
      case (Inr x)
      with b less.prems have "v = x" "s' = s1" by (auto simp: loop.simps [of body a s])
      with es Inr show ?thesis by auto
    qed
  qed
qed

text \<open>What is known of the value a program returns.\<close>

lemma moves_returns:
  assumes m: "moves A ok step l m post" and r: "\<And>s a s'. m s = (Ok a, s') \<Longrightarrow> R a"
    and f: "\<And>a. R a \<Longrightarrow> moves A ok step (post a) (f a) post'"
  shows "moves A ok step l (bind m f) post'"
proof -
  let ?f = "\<lambda>a. if R a then f a else undef []"
  have "bind m f s = bind m ?f s" for s
    using r [of s] by (auto simp: bind_def split: prod.splits outcome.splits)
  then have "bind m f = bind m ?f" by blast
  moreover have "moves A ok step l (bind m ?f) post'"
    by (rule moves_bind [OF m]) (simp add: f, simp add: moves_def undef_def stop_def)
  ultimately show ?thesis by simp
qed

lemma loop_returns:
  assumes body: "\<And>a s b s'. body a s = (Ok (Inr b), s') \<Longrightarrow> R b"
  shows "loop body a s = (Ok b, s') \<Longrightarrow> R b"
proof (induction "length (replies s)" arbitrary: a s rule: less_induct)
  case less
  then show ?case
    using body [of a s b] by (auto simp: loop.simps [of body a s] split: prod.splits outcome.splits sum.splits if_splits)
qed

lemma moves_only_if [moves_rules]: "(b \<Longrightarrow> moves A ok step l m (\<lambda>_. l)) \<Longrightarrow> moves A ok step l (only_if b m) (\<lambda>_. l)"
  by (simp add: only_if_def moves_return)

lemma moves_stop [moves_rules]:
  "moves A ok step l (errExitEN n f as) post" "moves A ok step l (errExit f as) post" "moves A ok step l (require x why) (\<lambda>_. l)"
  "moves A ok step l (stop q) post"
  by (auto simp: moves_def ok_simps intro!: exI [of _ "[]"])

lemma moves_checked [moves_rules]:
  assumes "moves A ok step l (sys c :: ('m, reply) prog) (\<lambda>_. l')"
  shows "moves A ok step l (or_errExit c f as :: ('m, reply) prog) (\<lambda>_. l')"
  unfolding or_errExit_def checked_def
  by (rule moves_bind [OF assms] moves_seq moves_only_if moves_stop moves_return)+

subsection \<open>Orders of the actions of several participants\<close>

text \<open>\<open>tr\<close> holds the actions of all participants, each with the number of the one that made it.\<close>

definition proj :: "nat \<Rightarrow> (nat \<times> 'a) list \<Rightarrow> 'a list" where
  "proj t tr = map snd (filter (\<lambda>(u, a). u = t) tr)"

definition interleaves :: "'a list list \<Rightarrow> (nat \<times> 'a) list \<Rightarrow> bool" where
  "interleaves ps tr \<longleftrightarrow> list_all (\<lambda>(t, a). t < length ps) tr \<and> list_all (\<lambda>t. proj t tr = ps ! t) [0..<length ps]"

lemma proj_simps [simp]: "proj t [] = []" "proj t ((u, a) # tr) = (if u = t then a # proj t tr else proj t tr)"
  by (simp_all add: proj_def)

lemma proj_map: "proj t (map (Pair u) as) = (if t = u then as else [])"
  by (induction as) auto

lemma proj_append: "proj t (tr @ tr') = proj t tr @ proj t tr'"
  by (simp add: proj_def)

lemma solo_interleaves: "interleaves [as, bs] (map (Pair 0) as @ map (Pair 1) bs)"
  by (auto simp: interleaves_def proj_map proj_append list_all_iff upt_rec)

end
