(* ===== verification/ThreadPrograms.thy ===== *)
theory ThreadPrograms
  imports Actions CondVar ThreadData
begin

text \<open>
  The threads of \<open>LinuxAPI2/pthread_sync.c\<close>, \<open>LinuxAPI2/ipc_posix_unnamed_sem.c\<close> and \<open>api3/pthread_lock.c\<close> as
  programs, with the loads and stores of the shared variable as calls the memory answers. Whatever it
  answers, a thread that returns has made the moves of the thread of the step relation with the same
  numbers; so an order of the events of all threads that the lock and the memory allow is a run of the
  step relation, and the sum it proves is the one the main function prints.
\<close>

subsection \<open>The threads\<close>

text \<open>\<open>var += i\<close> on a variable other threads use.\<close>

definition add_to :: "string \<Rightarrow> int \<Rightarrow> ('m, unit) prog" where
  "add_to var i =
     bind (sys (Sys ''load'' [T var])) (\<lambda>r.
     bind (require (int_add (ret r) i) ''integer overflow'') (\<lambda>v.
     seq (sys (Sys ''store'' [T var, N v])) skip))"

definition locked_add :: "int \<Rightarrow> ('m, unit) prog" where
  "locked_add i =
     seq (sys (Sys ''pthread_mutex_lock'' [T ''mutex'']))
     (seq (add_to ''gsum'' i)
     (seq (sys (Sys ''pthread_mutex_unlock'' [T ''mutex''])) skip))"

definition sync_thread_func :: "int \<Rightarrow> ('m, int) prog" where
  "sync_thread_func st = seq (for_each [st..st + 99] locked_add) (return NULL)"

definition thread_func_error_checking_mutex :: "int \<Rightarrow> ('m, int) prog" where
  "thread_func_error_checking_mutex st =
     seq (for_each [st..st + 99] (\<lambda>i.
       bind (sys (Sys ''pthread_mutex_lock'' [T ''mtx''])) (\<lambda>s.
       seq (only_if (ret s \<noteq> 0) (errExitEN (ret s) ''pthread_mutex_lock'' []))
       (seq (add_to ''gsum'' i)
       (bind (sys (Sys ''pthread_mutex_unlock'' [T ''mtx''])) (\<lambda>s.
       only_if (ret s \<noteq> 0) (errExitEN (ret s) ''pthread_mutex_unlock'' [])))))))
     (return NULL)"

definition sem_thread_func :: "int \<Rightarrow> ('m, int) prog" where
  "sem_thread_func st =
     seq (for_each [st..st + 99] (\<lambda>i.
       seq (or_errExit (Sys ''sem_wait'' [T ''sem'']) ''sem_wait()'' [])
       (seq (add_to ''gsum'' i)
       (seq (or_errExit (Sys ''sem_post'' [T ''sem'']) ''sem_post()'' []) skip))))
     (return NULL)"

text \<open>\<open>start_routine_lock\<close> of \<open>api3\<close>; \<open>data\<close> names the structure with the value and the mutex.\<close>

definition lock_start_routine :: "string \<Rightarrow> ('m, int) prog" where
  "lock_start_routine data =
     seq (sys (Sys ''pthread_mutex_lock'' [T data]))
     (seq (for_each [0..9999] (add_to data))
     (seq (sys (Sys ''pthread_mutex_unlock'' [T data]))
     (return 0)))"

text \<open>The producers and consumers of \<open>LinuxAPI2/pthread_condition_variable.c\<close> and of \<open>api3/pthread_lock.c\<close>.
  The counter is read where the code reads it, in \<open>printf\<close> as well.\<close>

definition shared :: "string \<Rightarrow> ('m, int) prog" where
  "shared var = bind (sys (Sys ''load'' [T var])) (\<lambda>r. return (ret r))"

definition produce_one :: "string \<Rightarrow> string \<Rightarrow> int \<Rightarrow> ('m, unit) prog" where
  "produce_one var msg sec =
     seq (sys (Sys ''sleep'' [N sec]))
     (seq (sys (Sys ''pthread_mutex_lock'' [T ''mtx'']))
     (seq (add_to var 1)
     (bind pthread_self (\<lambda>t.
     bind (shared var) (\<lambda>n.
     seq (printf msg [N (t mod 2 ^ 32), N n])
     (seq (sys (Sys ''pthread_mutex_unlock'' [T ''mtx'']))
     (seq (sys (Sys ''pthread_cond_signal'' [T ''con''])) skip)))))))"

definition cond_thread_func :: "int \<Rightarrow> ('m, int) prog" where
  "cond_thread_func sec =
     seq (for_each [0..<1000] (\<lambda>i. produce_one ''work'' (''thread(tid: %x) make a work = %d'' @ [NL]) sec))
     (bind pthread_self (\<lambda>t.
     seq (sys (Sys ''pthread_detach'' [N t]))
     (return NULL)))"

definition start_routine_cond :: "int \<Rightarrow> ('m, int) prog" where
  "start_routine_cond period =
     seq (for_each [0..<10] (\<lambda>i. produce_one ''job'' (''thread(tid: %x) add a job = %d'' @ [NL]) period))
     (return 0)"

text \<open>\<open>while (var == 0) pthread_cond_wait (&con, &mtx);\<close>\<close>

definition await_nonzero :: "string \<Rightarrow> ('m, unit) prog" where
  "await_nonzero var =
     loop (\<lambda>_.
       bind (shared var) (\<lambda>n.
       if n = 0 then seq (sys (Sys ''pthread_cond_wait'' [T ''con'', T ''mtx''])) (again ())
       else leave ())) ()"

definition pthread_cond_var :: "('m, unit) prog" where
  "pthread_cond_var =
     bind (create_or_die ''thread_func'' 1) (\<lambda>t1.
     bind (create_or_die ''thread_func'' 2) (\<lambda>t2.
     seq (sys (Sys ''pthread_mutex_lock'' [T ''mtx'']))
     (loop (\<lambda>_.
        seq (await_nonzero ''work'')
        (seq (loop (\<lambda>_.
           bind (shared ''work'') (\<lambda>n.
           if n > 0
           then seq (add_to ''work'' (-1))
                (bind (shared ''work'') (\<lambda>n.
                seq (printf (''main thread consumed a work = %d'' @ [NL]) [N n])
                (again ())))
           else leave ())) ())
        (again ()))) ())))"

definition mutex_cond_example :: "('m, unit) prog" where
  "mutex_cond_example =
     (let create = (\<lambda>period. bind (sys (Sys ''pthread_create'' [T ''start_routine_cond'', N period])) (\<lambda>r.
        only_if (ret r \<noteq> 0) (errexit ''pthread_create''))) in
     seq (create 1)
     (seq (create 2)
     (seq (sys (Sys ''pthread_mutex_lock'' [T ''mtx'']))
     (loop (\<lambda>_.
        seq (await_nonzero ''job'')
        (seq (loop (\<lambda>_.
           bind (shared ''job'') (\<lambda>n.
           if n \<noteq> 0
           then bind (shared ''job'') (\<lambda>n.
                seq (printf (''job consuming... %d'' @ [NL]) [N n])
                (seq (add_to ''job'' (-1))
                (again ())))
           else leave ())) ())
        (again ()))) ()))))"

subsection \<open>What a thread does to lock and variable\<close>

datatype act = Lock | Unlock | Load int | Store int | Refused

fun act_of :: "event \<Rightarrow> act list" where
  "act_of (Did (Sys f as) r) =
     (if f = ''pthread_mutex_lock'' \<or> f = ''sem_wait'' then [if ret r = 0 then Lock else Refused]
      else if f = ''pthread_mutex_unlock'' \<or> f = ''sem_post'' then [if ret r = 0 then Unlock else Refused]
      else if f = ''load'' then [Load (ret r)]
      else if f = ''store'' then (case as of [_, N v] \<Rightarrow> [Store v] | _ \<Rightarrow> [])
      else [])"
| "act_of _ = []"

text \<open>The moves of a thread of the step relation, one per action.\<close>

fun act_step :: "act \<Rightarrow> thread \<Rightarrow> thread option" where
  "act_step Lock th = (case (todo th, phase th) of (xs # rest, Outside) \<Rightarrow> Some \<lparr>todo = rest, phase = Inside xs\<rparr> | _ \<Rightarrow> None)"
| "act_step (Load v) th = (case phase th of Inside (x # xs) \<Rightarrow> Some \<lparr>todo = todo th, phase = Loaded v (x # xs)\<rparr> | _ \<Rightarrow> None)"
| "act_step (Store w) th = (case phase th of
      Loaded v (x # xs) \<Rightarrow> if int_add v x = Some w then Some \<lparr>todo = todo th, phase = Inside xs\<rparr> else None
    | _ \<Rightarrow> None)"
| "act_step Unlock th = (case phase th of Inside [] \<Rightarrow> Some \<lparr>todo = todo th, phase = Outside\<rparr> | _ \<Rightarrow> None)"
| "act_step Refused th = None"

abbreviation thread_acts :: "event list \<Rightarrow> act list" where
  "thread_acts \<equiv> acts act_of"

text \<open>A program moves a thread when it returns and was never refused the lock.\<close>

abbreviation moves_thread :: "thread \<Rightarrow> ('m, 'a) prog \<Rightarrow> thread \<Rightarrow> bool" where
  "moves_thread th m th' \<equiv> moves act_of (\<lambda>a. a \<noteq> Refused) act_step th m (\<lambda>_. th')"

lemma moves_add_to [moves_rules]: "moves_thread \<lparr>todo = rest, phase = Inside (i # xs)\<rparr> (add_to var i) \<lparr>todo = rest, phase = Inside xs\<rparr>"
  by (rule movesI) (fastforce simp: add_to_def ok_simps)

lemma moves_lock [moves_rules]:
  "moves_thread \<lparr>todo = xs # rest, phase = Outside\<rparr> (sys (Sys ''pthread_mutex_lock'' as)) \<lparr>todo = rest, phase = Inside xs\<rparr>"
  "moves_thread \<lparr>todo = xs # rest, phase = Outside\<rparr> (sys (Sys ''sem_wait'' as)) \<lparr>todo = rest, phase = Inside xs\<rparr>"
  "moves_thread \<lparr>todo = rest, phase = Inside []\<rparr> (sys (Sys ''pthread_mutex_unlock'' as)) \<lparr>todo = rest, phase = Outside\<rparr>"
  "moves_thread \<lparr>todo = rest, phase = Inside []\<rparr> (sys (Sys ''sem_post'' as)) \<lparr>todo = rest, phase = Outside\<rparr>"
  by (rule movesI, auto simp: ok_simps)+

text \<open>The threads move through the sections the step relation gives them.\<close>

lemma sections_upto: "Threads.thread_func st = map (\<lambda>i. [i]) [st..st + 99]"
  by (simp add: Threads.thread_func_def)

lemma moves_sections:
  assumes "\<And>i rest. moves_thread \<lparr>todo = [i] # rest, phase = Outside\<rparr> (f i) \<lparr>todo = rest, phase = Outside\<rparr>"
  shows "moves_thread \<lparr>todo = Threads.thread_func st, phase = Outside\<rparr> (seq (for_each [st..st + 99] f) (return NULL))
    \<lparr>todo = [], phase = Outside\<rparr>"
proof -
  have "moves_thread \<lparr>todo = map (\<lambda>i. [i]) xs, phase = Outside\<rparr> (for_each xs f) \<lparr>todo = [], phase = Outside\<rparr>" for xs
    using moves_for_each [of act_of "\<lambda>a. a \<noteq> Refused" act_step "\<lambda>xs. \<lparr>todo = map (\<lambda>i. [i]) xs, phase = Outside\<rparr>" f xs]
      assms by simp
  then show ?thesis unfolding sections_upto by (rule moves_seq) (rule moves_return)
qed

lemma moves_threads:
  "moves_thread \<lparr>todo = Threads.thread_func st, phase = Outside\<rparr> (sync_thread_func st) \<lparr>todo = [], phase = Outside\<rparr>"
  "moves_thread \<lparr>todo = Threads.thread_func st, phase = Outside\<rparr> (thread_func_error_checking_mutex st) \<lparr>todo = [], phase = Outside\<rparr>"
  "moves_thread \<lparr>todo = Threads.thread_func st, phase = Outside\<rparr> (sem_thread_func st) \<lparr>todo = [], phase = Outside\<rparr>"
  unfolding sync_thread_func_def locked_add_def thread_func_error_checking_mutex_def sem_thread_func_def
  by (rule moves_sections; (rule moves_rules)+)+

lemma moves_lock_start_routine:
  "moves_thread \<lparr>todo = start_routine_lock, phase = Outside\<rparr> (lock_start_routine data) \<lparr>todo = [], phase = Outside\<rparr>"
proof -
  have "moves_thread \<lparr>todo = [], phase = Inside [0..9999]\<rparr> (for_each [0..9999] (add_to data)) \<lparr>todo = [], phase = Inside []\<rparr>"
    using moves_for_each [where st = "\<lambda>xs. \<lparr>todo = [], phase = Inside xs\<rparr>"] moves_add_to by blast
  then show ?thesis unfolding lock_start_routine_def start_routine_lock_def
    by - (assumption | rule moves_rules)+
qed

subsection \<open>Orders of the events of all threads\<close>

text \<open>An order of the actions of several threads that the lock and the memory allow: a lock is granted
  when the model of the lock grants it, and a load is answered with what was stored last.\<close>

fun obeys :: "(nat \<Rightarrow> 'l \<Rightarrow> 'l option) \<Rightarrow> (nat \<Rightarrow> 'l \<Rightarrow> 'l) \<Rightarrow> 'l \<Rightarrow> int \<Rightarrow> (nat \<times> act) list \<Rightarrow> bool" where
  "obeys acq rel l v [] = True"
| "obeys acq rel l v ((t, a) # tr) =
     (case a of
        Lock \<Rightarrow> (case acq t l of Some l' \<Rightarrow> obeys acq rel l' v tr | None \<Rightarrow> False)
      | Unlock \<Rightarrow> obeys acq rel (rel t l) v tr
      | Load w \<Rightarrow> w = v \<and> obeys acq rel l v tr
      | Store w \<Rightarrow> obeys acq rel l w tr
      | Refused \<Rightarrow> False)"

fun last_value :: "int \<Rightarrow> (nat \<times> act) list \<Rightarrow> int" where
  "last_value v [] = v"
| "last_value v ((t, a) # tr) = last_value (case a of Store w \<Rightarrow> w | _ \<Rightarrow> v) tr"

lemma obeys_not_refused: "obeys acq rel l v tr \<Longrightarrow> list_all (\<lambda>a. a \<noteq> Refused) (proj t tr)"
  by (induction acq rel l v tr rule: obeys.induct) (auto split: act.splits option.splits)

text \<open>One action is one step.\<close>

lemma act_step_adder:
  assumes t: "t < length ths" and a: "act_step a (ths ! t) = Some th"
    and o: "obeys acq rel l v ((t, a) # tr)"
  shows "\<exists>l' v'. adder_step acq rel \<lparr>lck = l, gsum = v, threads = ths\<rparr> \<lparr>lck = l', gsum = v', threads = ths[t := th]\<rparr> \<and>
    obeys acq rel l' v' tr \<and> last_value v ((t, a) # tr) = last_value v' tr"
proof (cases a)
  case Lock
  with a obtain xs rest where th: "ths ! t = \<lparr>todo = xs # rest, phase = Outside\<rparr>" "th = \<lparr>todo = rest, phase = Inside xs\<rparr>"
    by (cases "ths ! t") (auto split: list.splits phase.splits)
  from o Lock obtain l' where "acq t l = Some l'" "obeys acq rel l' v tr" by (auto split: option.splits)
  with adder_step.enter [of t "\<lparr>lck = l, gsum = v, threads = ths\<rparr>" xs rest acq l' rel] t th Lock show ?thesis
    by (auto simp: put_def)
next
  case (Load w)
  with a obtain x xs rest where th: "ths ! t = \<lparr>todo = rest, phase = Inside (x # xs)\<rparr>"
      "th = \<lparr>todo = rest, phase = Loaded w (x # xs)\<rparr>"
    by (cases "ths ! t") (auto split: list.splits phase.splits)
  with adder_step.load [of t "\<lparr>lck = l, gsum = v, threads = ths\<rparr>" rest x xs acq rel] t o Load show ?thesis
    by (auto simp: put_def)
next
  case (Store w)
  with a obtain u x xs rest where th: "ths ! t = \<lparr>todo = rest, phase = Loaded u (x # xs)\<rparr>"
      "th = \<lparr>todo = rest, phase = Inside xs\<rparr>" "int_add u x = Some w"
    by (cases "ths ! t") (auto split: list.splits phase.splits if_splits)
  then have "to_int32 (u + x) = w" by (auto simp: int_add_def to_int32_id split: if_splits)
  with adder_step.store [of t "\<lparr>lck = l, gsum = v, threads = ths\<rparr>" rest u x xs acq rel] t th o Store show ?thesis
    by (auto simp: put_def)
next
  case Unlock
  with a obtain rest where th: "ths ! t = \<lparr>todo = rest, phase = Inside []\<rparr>" "th = \<lparr>todo = rest, phase = Outside\<rparr>"
    by (cases "ths ! t") (auto split: list.splits phase.splits)
  with adder_step.exit [of t "\<lparr>lck = l, gsum = v, threads = ths\<rparr>" rest acq rel] t o Unlock show ?thesis
    by (auto simp: put_def)
next
  case Refused
  with a show ?thesis by simp
qed

text \<open>So an order that is allowed is a run.\<close>

lemma obeys_run:
  "obeys acq rel l v tr \<Longrightarrow> list_all (\<lambda>(t, a). t < length ths) tr \<Longrightarrow> length ths' = length ths \<Longrightarrow>
   \<forall>t < length ths. act_run act_step (proj t tr) (ths ! t) = Some (ths' ! t) \<Longrightarrow>
   \<exists>l'. (adder_step acq rel)\<^sup>*\<^sup>* \<lparr>lck = l, gsum = v, threads = ths\<rparr> \<lparr>lck = l', gsum = last_value v tr, threads = ths'\<rparr>"
proof (induction tr arbitrary: l v ths)
  case Nil
  then have "ths = ths'" by (auto intro: nth_equalityI)
  then show ?case by auto
next
  case (Cons e tr)
  obtain t a where e: "e = (t, a)" by fastforce
  with Cons.prems have t: "t < length ths" by simp
  from Cons.prems(4) [rule_format, OF t] e have "act_run act_step (a # proj t tr) (ths ! t) = Some (ths' ! t)" by simp
  then obtain th where th: "act_step a (ths ! t) = Some th" "act_run act_step (proj t tr) th = Some (ths' ! t)"
    by (auto split: option.splits)
  from act_step_adder [OF t th(1) Cons.prems(1) [unfolded e]] obtain l' v' where
    1: "adder_step acq rel \<lparr>lck = l, gsum = v, threads = ths\<rparr> \<lparr>lck = l', gsum = v', threads = ths[t := th]\<rparr>"
    and o: "obeys acq rel l' v' tr" and v: "last_value v ((t, a) # tr) = last_value v' tr" by blast
  have "\<exists>l''. (adder_step acq rel)\<^sup>*\<^sup>* \<lparr>lck = l', gsum = v', threads = ths[t := th]\<rparr>
      \<lparr>lck = l'', gsum = last_value v' tr, threads = ths'\<rparr>"
  proof (rule Cons.IH [OF o])
    show "list_all (\<lambda>(u, a). u < length (ths[t := th])) tr" using Cons.prems(2) by simp
    show "\<forall>u < length (ths[t := th]). act_run act_step (proj u tr) (ths[t := th] ! u) = Some (ths' ! u)"
    proof (intro allI impI)
      fix u assume "u < length (ths[t := th])"
      with Cons.prems(4) [rule_format, of u] th(2) e
      show "act_run act_step (proj u tr) (ths[t := th] ! u) = Some (ths' ! u)" by (cases "u = t") simp_all
    qed
  qed (simp add: Cons.prems(3))
  then obtain l'' where 2: "(adder_step acq rel)\<^sup>*\<^sup>* \<lparr>lck = l', gsum = v', threads = ths[t := th]\<rparr>
      \<lparr>lck = l'', gsum = last_value v' tr, threads = ths'\<rparr>" by blast
  from converse_rtranclp_into_rtranclp [of "adder_step acq rel", OF 1 2] show ?case
    unfolding e v by blast
qed

context lock
begin

lemma workers_sum:
  assumes l: "holds l None" and w: "\<forall>x \<in> set (concat (concat work)). 0 \<le> x" "sum_list (concat (concat work)) \<le> INT_MAX"
    and tr: "obeys acquire release l 0 tr" "interleaves ps tr" "length ps = length work"
    and runs: "\<And>t. t < length work \<Longrightarrow> list_all (\<lambda>a. a \<noteq> Refused) (ps ! t) \<Longrightarrow>
      act_run act_step (ps ! t) \<lparr>todo = work ! t, phase = Outside\<rparr> = Some \<lparr>todo = [], phase = Outside\<rparr>"
  shows "last_value 0 tr = sum_list (concat (concat work))"
proof -
  let ?S = "\<lambda>l'. \<lparr>lck = l', gsum = last_value 0 tr, threads = replicate (length work) \<lparr>todo = [], phase = Outside\<rparr>\<rparr>"
  from tr(2,3) have p: "\<And>t. t < length work \<Longrightarrow> proj t tr = ps ! t" and b: "list_all (\<lambda>(t, a). t < length work) tr"
    by (simp_all add: interleaves_def list_all_iff)
  have "act_run act_step (proj t tr) (map (\<lambda>w. \<lparr>todo = w, phase = Outside\<rparr>) work ! t) =
      Some (replicate (length work) \<lparr>todo = [], phase = Outside\<rparr> ! t)" if "t < length work" for t
    using runs [OF that] obeys_not_refused [OF tr(1), of t] p [OF that] that by simp
  then obtain l' where "(adder_step acquire release)\<^sup>*\<^sup>* (start l work) (?S l')"
    using obeys_run [OF tr(1), of "map (\<lambda>w. \<lparr>todo = w, phase = Outside\<rparr>) work"
        "replicate (length work) \<lparr>todo = [], phase = Outside\<rparr>"] b
    unfolding start_def by auto
  from adder_sound [OF l w this] show ?thesis by (simp add: all_done_def thread_done_def list_all_iff)
qed

lemma two_threads_sum:
  assumes l: "holds l None" and f: "\<And>st. moves_thread \<lparr>todo = Threads.thread_func st, phase = Outside\<rparr> (f st) \<lparr>todo = [], phase = Outside\<rparr>"
    and 1: "f 0 p1 = (Ok a, p1')" "trace p1' = trace p1 @ es1"
    and 2: "f 100 p2 = (Ok b, p2')" "trace p2' = trace p2 @ es2"
    and tr: "interleaves [thread_acts es1, thread_acts es2] tr" "obeys acquire release l 0 tr"
  shows "last_value 0 tr = 19900"
proof -
  have "last_value 0 tr = sum_list (concat (concat two_workers))"
  proof (rule workers_sum [OF l _ _ tr(2,1)])
    fix t assume "t < length two_workers" "list_all (\<lambda>a. a \<noteq> Refused) ([thread_acts es1, thread_acts es2] ! t)"
    then show "act_run act_step ([thread_acts es1, thread_acts es2] ! t) \<lparr>todo = two_workers ! t, phase = Outside\<rparr> =
        Some \<lparr>todo = [], phase = Outside\<rparr>"
      using movesD [OF f 1] movesD [OF f 2] by (auto simp: two_workers_def less_Suc_eq)
  qed (simp_all add: two_workers_facts INT_MAX_def, simp add: two_workers_def)
  then show ?thesis by (simp add: two_workers_facts)
qed

end

text \<open>The main function prints the value it finds when both threads have been joined.\<close>

lemma pthread_sync_prints:
  assumes "replies p = c1 # c2 # j1 # j2 # rs" "ret c1 = 0" "ret c2 = 0"
  shows "\<exists>p'. pthread_sync v p = (Ok (), p') \<and> trace p' = trace p @
    [Did (Sys ''pthread_create'' [T ''thread_func'', N 0]) c1, Did (Sys ''pthread_create'' [T ''thread_func'', N 100]) c2,
     Did (Sys ''pthread_join'' [N (out_int c1 0)]) j1, Did (Sys ''pthread_join'' [N (out_int c2 0)]) j2,
     Out (''result = %d'' @ [NL]) [N v]]"
  unfolding pthread_sync_def create_or_die_def by (auto simp: ok_simps assms)

text \<open>The sums of the other programs.\<close>

lemma other_sums:
  fixes p1 p2 :: "'m proc_scheme"
  shows "thread_func_error_checking_mutex 0 p1 = (Ok a, p1') \<Longrightarrow> trace p1' = trace p1 @ es1 \<Longrightarrow>
     thread_func_error_checking_mutex 100 p2 = (Ok b, p2') \<Longrightarrow> trace p2' = trace p2 @ es2 \<Longrightarrow>
     interleaves [thread_acts es1, thread_acts es2] tr \<Longrightarrow> obeys ec_acquire ec_release None 0 tr \<Longrightarrow> last_value 0 tr = 19900"
    and "sem_thread_func 0 p1 = (Ok a, p1') \<Longrightarrow> trace p1' = trace p1 @ es1 \<Longrightarrow>
     sem_thread_func 100 p2 = (Ok b, p2') \<Longrightarrow> trace p2' = trace p2 @ es2 \<Longrightarrow>
     interleaves [thread_acts es1, thread_acts es2] tr \<Longrightarrow> obeys sem_wait sem_post 1 0 tr \<Longrightarrow> last_value 0 tr = 19900"
  using error_checking.two_threads_sum [OF refl moves_threads(2)]
    semaphore.two_threads_sum [OF _ moves_threads(3), of 1] by (simp_all add: sem_holds_def)

text \<open>The structure of \<open>mutex_example\<close> that two threads share.\<close>

lemma shared_data_sum:
  fixes p1 p2 :: "'m proc_scheme"
  assumes 1: "lock_start_routine ''data2'' p1 = (Ok a, p1')" "trace p1' = trace p1 @ es1"
    and 2: "lock_start_routine ''data2'' p2 = (Ok b, p2')" "trace p2' = trace p2 @ es2"
    and tr: "interleaves [thread_acts es1, thread_acts es2] tr" "obeys mutex_lock mutex_unlock None 0 tr"
  shows "last_value 0 tr = 99990000"
proof -
  have "last_value 0 tr = sum_list (concat (concat [start_routine_lock, start_routine_lock]))"
  proof (rule mutex.workers_sum [OF refl _ _ tr(2,1)])
    fix t assume "t < length [start_routine_lock, start_routine_lock]" "list_all (\<lambda>a. a \<noteq> Refused) ([thread_acts es1, thread_acts es2] ! t)"
    then show "act_run act_step ([thread_acts es1, thread_acts es2] ! t) \<lparr>todo = [start_routine_lock, start_routine_lock] ! t, phase = Outside\<rparr> =
        Some \<lparr>todo = [], phase = Outside\<rparr>"
      using movesD [OF moves_lock_start_routine 1] movesD [OF moves_lock_start_routine 2] by (auto simp: less_Suc_eq)
  qed (use lock_workers_facts in \<open>simp_all add: INT_MAX_def\<close>)
  then show ?thesis by (simp only: lock_workers_facts)
qed

text \<open>One thread behind the other is such an order.\<close>

fun solo :: "int \<Rightarrow> int list \<Rightarrow> act list" where
  "solo v [] = []"
| "solo v (x # xs) = Lock # Load v # Store (v + x) # Unlock # solo (v + x) xs"

lemma solo_obeys:
  "obeys mutex_lock mutex_unlock None v (map (Pair t) (solo v xs) @ tr) = obeys mutex_lock mutex_unlock None (v + sum_list xs) tr"
  by (induction v xs rule: solo.induct) (simp_all add: mutex_lock_def mutex_unlock_def add.assoc)

lemma locked_add_runs:
  assumes "replies s = r_ok 0 # r_ok v # r_ok 0 # r_ok 0 # rs" "int_add v x = Some w"
  shows "\<exists>s' es. locked_add x s = (Ok (), s') \<and> replies s' = rs \<and> trace s' = trace s @ es \<and>
    thread_acts es = [Lock, Load v, Store w, Unlock]"
  using assms by (auto simp: locked_add_def add_to_def ok_simps r_ok_def)

lemma locked_adds_run:
  "0 \<le> v \<Longrightarrow> \<forall>x \<in> set xs. 0 \<le> x \<Longrightarrow> v + sum_list xs \<le> INT_MAX \<Longrightarrow>
   \<exists>rs. \<forall>(s :: 'm proc_scheme) rest. replies s = rs @ rest \<longrightarrow> (\<exists>s' es. for_each xs locked_add s = (Ok (), s') \<and>
     replies s' = rest \<and> trace s' = trace s @ es \<and> thread_acts es = solo v xs)"
proof (induction v xs rule: solo.induct)
  case (1 v)
  then show ?case by (intro exI [of _ "[]"]) (simp add: ok_simps)
next
  case (2 v x xs)
  have n: "0 \<le> v + x" "0 \<le> sum_list xs" using 2(2,3) by (auto intro: sum_list_nonneg)
  have "\<forall>x \<in> set xs. 0 \<le> x" "v + x + sum_list xs \<le> INT_MAX" using 2(3,4) by (auto simp: add.assoc)
  from 2(1) [OF n(1) this] obtain rs where rs: "\<And>(s :: 'm proc_scheme) rest. replies s = rs @ rest \<Longrightarrow>
      (\<exists>s' es. for_each xs locked_add s = (Ok (), s') \<and>
     replies s' = rest \<and> trace s' = trace s @ es \<and> thread_acts es = solo (v + x) xs)" by blast
  have i: "int_add v x = Some (v + x)"
    using 2(4) n by (auto simp: int_add_def INT_MIN_def)
  show ?case
  proof (intro exI [of _ "r_ok 0 # r_ok v # r_ok 0 # r_ok 0 # rs"] allI impI)
    fix s :: "'m proc_scheme" and rest
    assume "replies s = (r_ok 0 # r_ok v # r_ok 0 # r_ok 0 # rs) @ rest"
    then obtain s1 es1 where 1: "locked_add x s = (Ok (), s1)" "replies s1 = rs @ rest" "trace s1 = trace s @ es1"
        "thread_acts es1 = [Lock, Load v, Store (v + x), Unlock]"
      using locked_add_runs [OF _ i] by fastforce
    from rs [OF 1(2)] obtain s2 es2 where "for_each xs locked_add s1 = (Ok (), s2)" "replies s2 = rest"
        "trace s2 = trace s1 @ es2" "thread_acts es2 = solo (v + x) xs" by blast
    with 1 show "\<exists>s' es. for_each (x # xs) locked_add s = (Ok (), s') \<and> replies s' = rest \<and> trace s' = trace s @ es \<and>
        thread_acts es = solo v (x # xs)"
      by (intro exI [of _ s2] exI [of _ "es1 @ es2"]) (auto simp: ok_simps)
  qed
qed

lemma sync_thread_runs:
  assumes "0 \<le> v" "0 \<le> st" "v + sum_list [st..st + 99] \<le> INT_MAX"
  shows "\<exists>(p :: 'm proc_scheme) p' es. sync_thread_func st p = (Ok NULL, p') \<and> trace p' = trace p @ es \<and> thread_acts es = solo v [st..st + 99]"
proof -
  obtain rs where rs: "\<And>(s :: 'm proc_scheme) rest. replies s = rs @ rest \<Longrightarrow>
      (\<exists>s' es. for_each [st..st + 99] locked_add s = (Ok (), s') \<and>
     replies s' = rest \<and> trace s' = trace s @ es \<and> thread_acts es = solo v [st..st + 99])"
    using locked_adds_run [of v "[st..st + 99]"] assms by fastforce
  have "replies ((undefined :: 'm proc_scheme)\<lparr>replies := rs\<rparr>) = rs @ []" by simp
  from rs [OF this] show ?thesis unfolding sync_thread_func_def by (fastforce simp: ok_simps)
qed



end
