(* ===== verification/SharedMemory.thy ===== *)
theory SharedMemory
  imports FdIO
begin

text \<open>
  \<open>LinuxAPI2/ipc_systemv_shm_writer.c\<close> and \<open>LinuxAPI2/ipc_systemv_shm/ipc_systemv_shm_reader.c\<close>: a writer
  hands what it reads from its standard input to a reader, block by block, through a shared memory
  segment guarded by a pair of semaphores. Both loops are sequential programs; a step relation
  interleaves them, one access of the segment or of a semaphore at a time.
\<close>

subsection \<open>The segment and the two processes\<close>

definition WRITE_SEM :: int where "WRITE_SEM = 0"
definition READ_SEM :: int where "READ_SEM = 1"
definition SEM_KEY :: int where "SEM_KEY = 4096"
definition SHM_KEY :: int where "SHM_KEY = 4097"
definition BUF_SIZE :: nat where "BUF_SIZE = 1024"

record shmmsg =
  cnt :: int
  buf :: cbuf

text \<open>The places of the writer: waiting for \<open>WRITE_SEM\<close>; about to read its input into the segment;
  about to post \<open>READ_SEM\<close>; about to test \<open>shmp->cnt\<close>; about to add it to \<open>bytes\<close>; waiting for the
  reader's last post; done.\<close>

datatype wpc = W_wait | W_read | W_post | W_test | W_count | W_last | W_done

datatype rpc = R_wait | R_test | R_write | R_post | R_count | R_detach | R_last | R_done

text \<open>The input is what the writer's calls of \<open>read\<close> deliver: the bytes, or \<open>None\<close> for -1. The output
  is what the reader hands to \<open>write\<close>; \<open>None\<close> stands for the count -1, which \<open>write\<close> takes as the
  largest \<open>size_t\<close>.\<close>

record shm =
  write_sem :: nat
  read_sem :: nat
  seg :: shmmsg
  wr :: wpc
  rd :: rpc
  to_read :: "string option list"
  written :: "cbuf option list"
  wbytes :: int
  rbytes :: int

definition read_cnt :: "string option \<Rightarrow> int" where
  "read_cnt b = (case b of Some bs \<Rightarrow> int (length bs) | None \<Rightarrow> -1)"

definition read_buf :: "string option \<Rightarrow> cbuf \<Rightarrow> cbuf" where
  "read_buf b old = (case b of Some bs \<Rightarrow> map Some bs @ drop (length bs) old | None \<Rightarrow> old)"

definition write_arg :: "shmmsg \<Rightarrow> cbuf option" where
  "write_arg m = (if cnt m < 0 then None else peek (buf m) 0 (nat (cnt m)))"

inductive shm_step :: "shm \<Rightarrow> shm \<Rightarrow> bool" where
  w_wait: "wr S = W_wait \<Longrightarrow> write_sem S = Suc n \<Longrightarrow> shm_step S (S\<lparr>write_sem := n, wr := W_read\<rparr>)"
| w_read: "wr S = W_read \<Longrightarrow> to_read S = b # rest \<Longrightarrow>
    shm_step S (S\<lparr>seg := \<lparr>cnt = read_cnt b, buf = read_buf b (buf (seg S))\<rparr>, to_read := rest, wr := W_post\<rparr>)"
| w_post: "wr S = W_post \<Longrightarrow> shm_step S (S\<lparr>read_sem := read_sem S + 1, wr := W_test\<rparr>)"
| w_break: "wr S = W_test \<Longrightarrow> cnt (seg S) = 0 \<Longrightarrow> shm_step S (S\<lparr>wr := W_last\<rparr>)"
| w_next: "wr S = W_test \<Longrightarrow> cnt (seg S) \<noteq> 0 \<Longrightarrow> shm_step S (S\<lparr>wr := W_count\<rparr>)"
| w_count: "wr S = W_count \<Longrightarrow> shm_step S (S\<lparr>wbytes := wbytes S + cnt (seg S), wr := W_wait\<rparr>)"
| w_last: "wr S = W_last \<Longrightarrow> write_sem S = Suc n \<Longrightarrow> shm_step S (S\<lparr>write_sem := n, wr := W_done\<rparr>)"
| r_wait: "rd S = R_wait \<Longrightarrow> read_sem S = Suc n \<Longrightarrow> shm_step S (S\<lparr>read_sem := n, rd := R_test\<rparr>)"
| r_break: "rd S = R_test \<Longrightarrow> cnt (seg S) = 0 \<Longrightarrow> shm_step S (S\<lparr>rd := R_detach\<rparr>)"
| r_go: "rd S = R_test \<Longrightarrow> cnt (seg S) \<noteq> 0 \<Longrightarrow> shm_step S (S\<lparr>rd := R_write\<rparr>)"
| r_write: "rd S = R_write \<Longrightarrow> shm_step S (S\<lparr>written := written S @ [write_arg (seg S)], rd := R_post\<rparr>)"
| r_post: "rd S = R_post \<Longrightarrow> shm_step S (S\<lparr>write_sem := write_sem S + 1, rd := R_count\<rparr>)"
| r_count: "rd S = R_count \<Longrightarrow> shm_step S (S\<lparr>rbytes := rbytes S + cnt (seg S), rd := R_wait\<rparr>)"
| r_detach: "rd S = R_detach \<Longrightarrow> shm_step S (S\<lparr>rd := R_last\<rparr>)"
| r_last: "rd S = R_last \<Longrightarrow> shm_step S (S\<lparr>write_sem := write_sem S + 1, rd := R_done\<rparr>)"

text \<open>After the writer's \<open>SETVAL\<close> calls the semaphores are 1 and 0.\<close>

definition shm_start :: "string option list \<Rightarrow> shm" where
  "shm_start bs = \<lparr>write_sem = 1, read_sem = 0, seg = \<lparr>cnt = 0, buf = replicate BUF_SIZE (Some NUL)\<rparr>,
     wr = W_wait, rd = R_wait, to_read = bs, written = [], wbytes = 0, rbytes = 0\<rparr>"

subsection \<open>Whose turn it is\<close>

text \<open>Exactly one of the semaphores, the writer and the reader holds the turn.\<close>

definition turns :: "shm \<Rightarrow> nat" where
  "turns S = write_sem S + read_sem S + (if wr S \<in> {W_read, W_post, W_done} then 1 else 0) +
     (if rd S \<in> {R_test, R_write, R_post, R_detach, R_last} then 1 else 0)"

text \<open>What \<open>write\<close> gets for a block; whether the block in the segment has yet to be written.\<close>

definition block :: "string option \<Rightarrow> cbuf option" where
  "block b = map_option (map Some) b"

definition full :: "shm \<Rightarrow> bool" where
  "full S \<longleftrightarrow> wr S = W_post \<or> read_sem S > 0 \<or> rd S = R_test \<or> rd S = R_write"

definition holds_block :: "shmmsg \<Rightarrow> string option \<Rightarrow> bool" where
  "holds_block m b \<longleftrightarrow> cnt m = read_cnt b \<and> write_arg m = block b"

definition at_end :: "shm \<Rightarrow> bool" where
  "at_end S \<longleftrightarrow> rd S \<in> {R_detach, R_last, R_done}"

definition good_input :: "string option list \<Rightarrow> bool" where
  "good_input bs \<longleftrightarrow> list_all (\<lambda>b. b \<noteq> Some [] \<and> (\<forall>t. b = Some t \<longrightarrow> length t \<le> BUF_SIZE)) bs"

text \<open>\<open>ws\<close> are the blocks the writer has read.\<close>

definition shm_inv :: "string option list \<Rightarrow> string option list \<Rightarrow> shm \<Rightarrow> bool" where
  "shm_inv bs ws S \<longleftrightarrow> turns S = 1 \<and> length (buf (seg S)) = BUF_SIZE \<and>
     bs @ [Some []] = ws @ to_read S \<and>
     (ws \<noteq> [] \<longrightarrow> holds_block (seg S) (last ws)) \<and>
     written S = map block (if full S \<or> at_end S then butlast ws else ws) \<and>
     (at_end S \<longrightarrow> to_read S = [] \<and> \<not> full S) \<and> (\<not> full S \<and> \<not> at_end S \<longrightarrow> to_read S \<noteq> []) \<and>
     (rd S = R_write \<longrightarrow> to_read S \<noteq> []) \<and> (full S \<longrightarrow> ws \<noteq> []) \<and>
     (wr S \<in> {W_last, W_done} \<longrightarrow> to_read S = []) \<and> (wr S \<in> {W_wait, W_read, W_count} \<longrightarrow> to_read S \<noteq> []) \<and>
     (wr S \<in> {W_post, W_test, W_count} \<longrightarrow> ws \<noteq> []) \<and> (wr S = W_done \<longrightarrow> rd S = R_done) \<and>
     wbytes S = sum_list (map read_cnt (if wr S \<in> {W_post, W_test, W_count} then butlast ws else ws))"

lemma read_cnt_0: "read_cnt b = 0 \<longleftrightarrow> b = Some []"
  by (auto simp: read_cnt_def split: option.splits)

lemma holds_block_read:
  assumes "b = None \<or> (\<exists>t. b = Some t \<and> length t \<le> length old)"
  shows "holds_block \<lparr>cnt = read_cnt b, buf = read_buf b old\<rparr> b"
  using assms by (auto simp: holds_block_def read_cnt_def read_buf_def write_arg_def block_def peek_def)

lemma length_read_buf: "b = None \<or> (\<exists>t. b = Some t \<and> length t \<le> length old) \<Longrightarrow> length (read_buf b old) = length old"
  by (auto simp: read_buf_def)

text \<open>The last block read is the empty one exactly when nothing is left to read.\<close>

lemma last_block:
  assumes "good_input bs" "bs @ [Some []] = ws @ rest" "ws \<noteq> []"
  shows "last ws = Some [] \<longleftrightarrow> rest = []"
proof (cases rest rule: rev_cases)
  case Nil
  with assms(2) show ?thesis by (metis append_Nil2 last_snoc)
next
  case (snoc r x)
  with assms(2) have "bs = ws @ r" by simp
  with assms(3) have "last ws \<in> set bs" by simp
  with assms(1) have "last ws \<noteq> Some []" by (auto simp: good_input_def list_all_iff)
  with snoc show ?thesis by simp
qed

lemma good_input_bound:
  assumes "good_input bs" "bs @ [Some []] = ws @ b # rest"
  shows "b = None \<or> (\<exists>t. b = Some t \<and> length t \<le> BUF_SIZE)"
proof -
  have "b \<in> set (bs @ [Some []])" using assms(2) by simp
  with assms(1) show ?thesis by (auto simp: good_input_def list_all_iff)
qed

text \<open>The weight of what is left to do.\<close>

definition w_weight :: "wpc \<Rightarrow> nat" where
  "w_weight w = (case w of W_wait \<Rightarrow> 2 | W_read \<Rightarrow> 1 | W_post \<Rightarrow> 14 | W_test \<Rightarrow> 5 | W_count \<Rightarrow> 4 | W_last \<Rightarrow> 1 | W_done \<Rightarrow> 0)"

definition r_weight :: "rpc \<Rightarrow> nat" where
  "r_weight r = (case r of R_wait \<Rightarrow> 0 | R_test \<Rightarrow> 6 | R_write \<Rightarrow> 5 | R_post \<Rightarrow> 4 | R_count \<Rightarrow> 3 | R_detach \<Rightarrow> 3
     | R_last \<Rightarrow> 2 | R_done \<Rightarrow> 0)"

definition shm_weight :: "shm \<Rightarrow> nat" where
  "shm_weight S = 14 * length (to_read S) + w_weight (wr S) + 7 * read_sem S + r_weight (rd S)"

lemma shm_weight_decreases: "shm_step S S' \<Longrightarrow> shm_weight S' < shm_weight S"
  by (induction rule: shm_step.induct) (simp_all add: shm_weight_def w_weight_def r_weight_def)

lemma sum_butlast: "ws \<noteq> [] \<Longrightarrow> sum_list (map read_cnt (butlast ws)) + read_cnt (last ws) = sum_list (map read_cnt ws)"
  by (cases ws rule: rev_cases) simp_all

lemma block_butlast: "ws \<noteq> [] \<Longrightarrow> map block (butlast ws) @ [block (last ws)] = map block ws"
  by (cases ws rule: rev_cases) simp_all

lemma shm_inv_cnt: "shm_inv bs ws S \<Longrightarrow> ws \<noteq> [] \<Longrightarrow> cnt (seg S) = read_cnt (last ws) \<and> write_arg (seg S) = block (last ws)"
  by (simp add: shm_inv_def holds_block_def)

lemma shm_inv_taken:
  assumes "shm_inv bs ws S" "wr S \<in> {W_post, W_test, W_count} \<or> rd S \<in> {R_test, R_write}"
  shows "ws \<noteq> []"
  using assms unfolding shm_inv_def full_def by auto

lemma shm_inv_left:
  assumes "shm_inv bs ws S" "good_input bs" "ws \<noteq> []"
  shows "cnt (seg S) = 0 \<longleftrightarrow> to_read S = []"
proof -
  from assms(1) have "bs @ [Some []] = ws @ to_read S" by (simp add: shm_inv_def)
  from last_block [OF assms(2) this assms(3)] shm_inv_cnt [OF assms(1,3)] show ?thesis
    by (simp add: read_cnt_0)
qed

lemma shm_inv_step:
  assumes "shm_step S S'" "shm_inv bs ws S" "good_input bs"
  shows "\<exists>ws'. shm_inv bs ws' S'"
  using assms
proof (induction rule: shm_step.induct)
  case (w_read S b rest)
  from w_read have i: "bs @ [Some []] = (ws @ [b]) @ rest" "length (buf (seg S)) = BUF_SIZE"
    by (simp_all add: shm_inv_def)
  from good_input_bound [OF w_read(4), of ws b rest] i
    holds_block_read [of b "buf (seg S)"] length_read_buf [of b "buf (seg S)"]
  have "holds_block \<lparr>cnt = read_cnt b, buf = read_buf b (buf (seg S))\<rparr> b" "length (read_buf b (buf (seg S))) = BUF_SIZE"
    by simp_all
  with i w_read(1-3) show ?case
    by (intro exI [of _ "ws @ [b]"])
       (auto simp: shm_inv_def turns_def full_def at_end_def split: if_splits)
next
  case (w_count S)
  then have ws: "ws \<noteq> []" using shm_inv_taken by (metis insert_iff)
  note shm_inv_left [OF w_count(2,3) ws] shm_inv_cnt [OF w_count(2) ws] sum_butlast [OF ws] block_butlast [OF ws]
  with w_count show ?case
    by (intro exI [of _ ws], cases "rd S") (simp_all add: shm_inv_def turns_def full_def at_end_def)
next
  case (w_break S)
  then have ws: "ws \<noteq> []" using shm_inv_taken by (metis insert_iff)
  note shm_inv_left [OF w_break(3,4) ws] shm_inv_cnt [OF w_break(3) ws] sum_butlast [OF ws] block_butlast [OF ws]
  with w_break show ?case
    by (intro exI [of _ ws], cases "rd S") (simp_all add: shm_inv_def turns_def full_def at_end_def)
next
  case (w_next S)
  then have ws: "ws \<noteq> []" using shm_inv_taken by (metis insert_iff)
  note shm_inv_left [OF w_next(3,4) ws] shm_inv_cnt [OF w_next(3) ws] sum_butlast [OF ws] block_butlast [OF ws]
  with w_next show ?case
    by (intro exI [of _ ws], cases "rd S") (simp_all add: shm_inv_def turns_def full_def at_end_def)
next
  case (r_break S)
  then have ws: "ws \<noteq> []" using shm_inv_taken by (metis insert_iff)
  note shm_inv_left [OF r_break(3,4) ws] shm_inv_cnt [OF r_break(3) ws] sum_butlast [OF ws] block_butlast [OF ws]
  with r_break show ?case
    by (intro exI [of _ ws], cases "wr S") (simp_all add: shm_inv_def turns_def full_def at_end_def)
next
  case (r_go S)
  then have ws: "ws \<noteq> []" using shm_inv_taken by (metis insert_iff)
  note shm_inv_left [OF r_go(3,4) ws] shm_inv_cnt [OF r_go(3) ws] sum_butlast [OF ws] block_butlast [OF ws]
  with r_go show ?case
    by (intro exI [of _ ws], cases "wr S") (simp_all add: shm_inv_def turns_def full_def at_end_def)
next
  case (r_write S)
  then have ws: "ws \<noteq> []" using shm_inv_taken by (metis insert_iff)
  note shm_inv_left [OF r_write(2,3) ws] shm_inv_cnt [OF r_write(2) ws] sum_butlast [OF ws] block_butlast [OF ws]
  with r_write show ?case
    by (intro exI [of _ ws], cases "wr S") (simp_all add: shm_inv_def turns_def full_def at_end_def)
qed (intro exI [of _ ws]; auto simp: shm_inv_def turns_def full_def at_end_def split: if_splits)+

lemma shm_inv_start: "shm_inv bs [] (shm_start (bs @ [Some []]))"
  by (simp add: shm_inv_def shm_start_def turns_def full_def at_end_def)

definition shm_run :: "shm \<Rightarrow> shm \<Rightarrow> bool" where
  "shm_run = shm_step\<^sup>*\<^sup>*"

lemma shm_inv_run:
  assumes "shm_run (shm_start (bs @ [Some []])) S" "good_input bs"
  obtains ws where "shm_inv bs ws S"
proof -
  have "\<exists>ws. shm_inv bs ws S"
    using assms(1) unfolding shm_run_def
  proof (induction rule: rtranclp_induct)
    case base
    show ?case using shm_inv_start by blast
  next
    case (step S S')
    then show ?case using shm_inv_step assms(2) by blast
  qed
  with that show ?thesis by blast
qed

lemma shm_stuck_pcs:
  assumes "\<And>S'. \<not> shm_step S S'"
  shows "wr S = W_wait \<and> write_sem S = 0 \<or> wr S = W_read \<and> to_read S = [] \<or> wr S = W_last \<and> write_sem S = 0 \<or>
     wr S = W_done"
    and "rd S = R_wait \<and> read_sem S = 0 \<or> rd S = R_done"
proof -
  show "wr S = W_wait \<and> write_sem S = 0 \<or> wr S = W_read \<and> to_read S = [] \<or> wr S = W_last \<and> write_sem S = 0 \<or>
     wr S = W_done"
    using assms shm_step.w_wait [of S "write_sem S - 1"] shm_step.w_read [of S "hd (to_read S)" "tl (to_read S)"]
      shm_step.w_post [of S] shm_step.w_break [of S] shm_step.w_next [of S] shm_step.w_count [of S]
      shm_step.w_last [of S "write_sem S - 1"]
    by (cases "wr S"; cases "write_sem S"; cases "to_read S"; cases "cnt (seg S) = 0") simp_all
  show "rd S = R_wait \<and> read_sem S = 0 \<or> rd S = R_done"
    using assms shm_step.r_wait [of S "read_sem S - 1"] shm_step.r_break [of S] shm_step.r_go [of S]
      shm_step.r_write [of S] shm_step.r_post [of S] shm_step.r_count [of S] shm_step.r_detach [of S]
      shm_step.r_last [of S]
    by (cases "rd S"; cases "read_sem S"; cases "cnt (seg S) = 0") simp_all
qed

lemma shm_stuck:
  assumes "shm_inv bs ws S" "\<And>S'. \<not> shm_step S S'"
  shows "wr S = W_done \<and> rd S = R_done \<and> written S = map block bs \<and> wbytes S = sum_list (map read_cnt bs)"
proof -
  note pcs = shm_stuck_pcs [OF assms(2)]
  have rd: "rd S = R_done"
    using assms(1) pcs by (auto simp: shm_inv_def turns_def)
  have wr: "wr S = W_done"
    using assms(1) pcs rd by (auto simp: shm_inv_def turns_def at_end_def full_def)
  have "to_read S = []" "bs @ [Some []] = ws @ to_read S"
    "written S = map block (butlast ws)" "wbytes S = sum_list (map read_cnt ws)"
    using assms(1) rd wr by (simp_all add: shm_inv_def at_end_def)
  moreover from this(1,2) have "ws = bs @ [Some []]" by simp
  ultimately show ?thesis using rd wr by (simp add: read_cnt_def)
qed

lemma shm_prefix:
  assumes "shm_inv bs ws S"
  shows "\<exists>zs. map block bs = written S @ zs"
proof -
  have i: "bs @ [Some []] = ws @ to_read S" using assms by (simp add: shm_inv_def)
  show ?thesis
  proof (cases "full S \<or> at_end S")
    case True
    with assms have w: "written S = map block (butlast ws)" by (auto simp: shm_inv_def)
    show ?thesis
    proof (cases ws rule: rev_cases)
      case Nil
      with w show ?thesis by simp
    next
      case (snoc vs v)
      with i have "bs = vs @ butlast (v # to_read S)"
        by (metis append.assoc append_Cons append_Nil butlast_append butlast_snoc list.simps(3))
      with w snoc show ?thesis by simp
    qed
  next
    case False
    with assms have w: "written S = map block ws" "to_read S \<noteq> []" by (auto simp: shm_inv_def)
    with i have "bs = ws @ butlast (to_read S)" by (metis butlast_append butlast_snoc)
    with w show ?thesis by simp
  qed
qed



lemma shm_run_step: "shm_run S S1 \<Longrightarrow> shm_step S1 S2 \<Longrightarrow> shm_run S S2"
  unfolding shm_run_def by (rule rtranclp.rtrancl_into_rtrancl)

text \<open>The reader's count is not covered by the semaphores: there is a run in which the writer is
  about to change \<open>cnt\<close> while the reader is about to add it to \<open>bytes\<close>.\<close>

theorem shm_count_races: "\<exists>S. shm_run (shm_start [Some ''a'', Some []]) S \<and> wr S = W_read \<and> rd S = R_count"
proof -
  let ?st = "\<lambda>w r m pw pr inp out wb. \<lparr>write_sem = w, read_sem = r, seg = m, wr = pw, rd = pr, to_read = inp,
    written = out, wbytes = wb, rbytes = 0\<rparr>"
  define m0 where "m0 = \<lparr>cnt = 0, buf = replicate BUF_SIZE (Some NUL)\<rparr>"
  define m where "m = \<lparr>cnt = read_cnt (Some ''a''), buf = read_buf (Some ''a'') (buf m0)\<rparr>"
  have c: "cnt m = 1" by (simp add: m_def read_cnt_def)
  let ?b = "Some ''a''" and ?o = "write_arg m"
  have "shm_run (?st 1 0 m0 W_wait R_wait [?b, Some []] [] 0) (?st 1 0 m0 W_wait R_wait [?b, Some []] [] 0)"
    by (simp add: shm_run_def)
  from shm_run_step [OF this shm_step.w_wait [of _ 0]]
  have "shm_run (?st 1 0 m0 W_wait R_wait [?b, Some []] [] 0) (?st 0 0 m0 W_read R_wait [?b, Some []] [] 0)" by simp
  from shm_run_step [OF this shm_step.w_read [of _ ?b "[Some []]"]]
  have "shm_run (?st 1 0 m0 W_wait R_wait [?b, Some []] [] 0) (?st 0 0 m W_post R_wait [Some []] [] 0)" by (simp add: m_def)
  from shm_run_step [OF this shm_step.w_post]
  have "shm_run (?st 1 0 m0 W_wait R_wait [?b, Some []] [] 0) (?st 0 1 m W_test R_wait [Some []] [] 0)" by simp
  from shm_run_step [OF this shm_step.w_next] c
  have "shm_run (?st 1 0 m0 W_wait R_wait [?b, Some []] [] 0) (?st 0 1 m W_count R_wait [Some []] [] 0)" by simp
  from shm_run_step [OF this shm_step.w_count] c
  have "shm_run (?st 1 0 m0 W_wait R_wait [?b, Some []] [] 0) (?st 0 1 m W_wait R_wait [Some []] [] 1)" by simp
  from shm_run_step [OF this shm_step.r_wait [of _ 0]]
  have "shm_run (?st 1 0 m0 W_wait R_wait [?b, Some []] [] 0) (?st 0 0 m W_wait R_test [Some []] [] 1)" by simp
  from shm_run_step [OF this shm_step.r_go] c
  have "shm_run (?st 1 0 m0 W_wait R_wait [?b, Some []] [] 0) (?st 0 0 m W_wait R_write [Some []] [] 1)" by simp
  from shm_run_step [OF this shm_step.r_write]
  have "shm_run (?st 1 0 m0 W_wait R_wait [?b, Some []] [] 0) (?st 0 0 m W_wait R_post [Some []] [?o] 1)" by simp
  from shm_run_step [OF this shm_step.r_post]
  have "shm_run (?st 1 0 m0 W_wait R_wait [?b, Some []] [] 0) (?st 1 0 m W_wait R_count [Some []] [?o] 1)" by simp
  from shm_run_step [OF this shm_step.w_wait [of _ 0]]
  have "shm_run (?st 1 0 m0 W_wait R_wait [?b, Some []] [] 0) (?st 0 0 m W_read R_count [Some []] [?o] 1)" by simp
  moreover have "shm_start [?b, Some []] = ?st 1 0 m0 W_wait R_wait [?b, Some []] [] 0"
    by (simp add: shm_start_def m0_def)
  ultimately show ?thesis by (intro exI [of _ "?st 0 0 m W_read R_count [Some []] [?o] 1"]) simp
qed

end
