(* ===== verification/ShmPrograms.thy ===== *)
theory ShmPrograms
  imports Actions SharedMemory IpcObjects
begin

text \<open>
  The writer and the reader of \<open>LinuxAPI2/ipc_systemv_shm_writer.c\<close> and
  \<open>LinuxAPI2/ipc_systemv_shm/ipc_systemv_shm_reader.c\<close> as programs. What they find in the segment is answered
  by the memory they share; an order of their events that the semaphores and the memory allow is a run
  of the step relation of \<open>SharedMemory\<close>, so the reader writes what the writer read.
\<close>

subsection \<open>The programs\<close>

definition OBJ_PERMS :: int where "OBJ_PERMS = 432"

definition shm_cnt :: "('m, int) prog" where
  "shm_cnt = bind (sys (Sys ''load'' [T ''shmp->cnt''])) (\<lambda>r. return (ret r))"

text \<open>\<open>shmp->cnt = read (STDIN_FILENO, shmp->buf, BUF_SIZE)\<close> is one event: the segment takes the bytes and
  the result of the reply.\<close>

definition writer_loop :: "int \<Rightarrow> ('m, int) prog" where
  "writer_loop semid =
     loop (\<lambda>bytes.
       seq (semop semid WRITE_SEM (-1))
       (seq (sys (Read STDIN_FILENO BUF_SIZE))
       (seq (semop semid READ_SEM 1)
       (bind shm_cnt (\<lambda>c.
       if c = 0 then leave bytes
       else bind shm_cnt (\<lambda>c.
            bind (require (int_add bytes c) ''integer overflow'') again)))))) 0"

text \<open>A pointer \<open>shmat\<close> did not deliver cannot be followed.\<close>

definition ipc_systemv_shm_writer :: "('m, unit) prog" where
  "ipc_systemv_shm_writer =
     bind (sys (Sys ''semget'' [N SEM_KEY, N 2, N (IPC_CREAT OR OBJ_PERMS)])) (\<lambda>sm.
     let semid = ret sm in
     seq (semctl_set semid WRITE_SEM 1)
     (seq (semctl_set semid READ_SEM 0)
     (bind (sys (Sys ''shmget'' [N SHM_KEY, N (4 + int BUF_SIZE), N (IPC_CREAT OR OBJ_PERMS)])) (\<lambda>sh.
     bind (sys (Sys ''shmat'' [N (ret sh), N NULL, N 0])) (\<lambda>shmp.
     seq (require (if ret shmp = -1 then None else Some ()) ''invalid pointer'')
     (seq (writer_loop semid)
     (seq (semop semid WRITE_SEM (-1))
     (seq (or_errExit (Sys ''semctl'' [N semid, N IPC_RMID, N 0]) ''semctl()'' [])
     (seq (or_errExit (Sys ''shmdt'' [N (ret shmp)]) ''shmdt()'' [])
     (seq (or_errExit (Sys ''shmctl'' [N (ret sh), N IPC_RMID, N NULL]) ''shmctl()'' [])
     skip))))))))))"

text \<open>\<open>write (STDOUT_FILENO, shmp->buf, shmp->cnt)\<close>: the answer of the memory is the count and the first
  bytes of the buffer. A count of -1 becomes the largest \<open>size_t\<close>.\<close>

definition write_segment :: "('m, unit) prog" where
  "write_segment =
     bind (sys (Sys ''load'' [T ''shmp'']))(\<lambda>m.
     seq (if ret m < 0 then sys (Sys ''write'' [N STDOUT_FILENO, T ''shmp->buf'', N (ret m mod 2 ^ 64)])
          else sys (Write STDOUT_FILENO (lit (rdata m))))
     skip)"

definition reader_loop :: "int \<Rightarrow> ('m, int) prog" where
  "reader_loop semid =
     loop (\<lambda>bytes.
       seq (semop semid READ_SEM (-1))
       (bind shm_cnt (\<lambda>c.
       if c = 0 then leave bytes
       else seq write_segment
           (seq (semop semid WRITE_SEM 1)
           (bind shm_cnt (\<lambda>c.
            bind (require (int_add bytes c) ''integer overflow'') again)))))) 0"

definition ipc_systemv_shm_reader :: "('m, unit) prog" where
  "ipc_systemv_shm_reader =
     bind (sys (Sys ''semget'' [N SEM_KEY, N 2, N 0])) (\<lambda>sm.
     let semid = ret sm in
     bind (sys (Sys ''shmget'' [N SHM_KEY, N (4 + int BUF_SIZE), N 0])) (\<lambda>sh.
     bind (sys (Sys ''shmat'' [N (ret sh), N NULL, N 4096])) (\<lambda>shmp.
     seq (require (if ret shmp = -1 then None else Some ()) ''invalid pointer'')
     (seq (reader_loop semid)
     (seq (or_errExit (Sys ''shmdt'' [N (ret shmp)]) ''shmdt()'' [])
     (seq (semop semid WRITE_SEM 1)
     skip))))))"

subsection \<open>Their actions\<close>

datatype sact = P_write | V_write | P_read | V_read | Fill "string option" | Cnt int | Msg int string | Put "cbuf option"

text \<open>What is handed to \<open>write\<close> for an answer of the memory.\<close>

definition handed :: "int \<Rightarrow> string \<Rightarrow> cbuf option" where
  "handed c t = (if c < 0 then None else Some (lit t))"

fun sact_of :: "event \<Rightarrow> sact list" where
  "sact_of (Did (Sys f as) r) =
     (if f = ''semop'' \<and> ret r \<noteq> -1
      then (case as of
          [_, N num, N oper, _] \<Rightarrow>
            [if num = WRITE_SEM then (if oper = -1 then P_write else V_write) else (if oper = -1 then P_read else V_read)]
        | _ \<Rightarrow> [])
      else if f = ''load'' then [if as = [T ''shmp''] then Msg (ret r) (rdata r) else Cnt (ret r)]
      else if f = ''write'' then [Put None]
      else [])"
| "sact_of (Did (Read fd n) r) = [Fill (if ret r = -1 then None else Some (rdata r))]"
| "sact_of (Did (Write fd cs) r) = [Put (Some cs)]"
| "sact_of _ = []"

fun w_step :: "sact \<Rightarrow> wpc \<Rightarrow> wpc option" where
  "w_step P_write p = (if p = W_wait then Some W_read else if p = W_last then Some W_done else None)"
| "w_step (Fill b) p = (if p = W_read then Some W_post else None)"
| "w_step V_read p = (if p = W_post then Some W_test else None)"
| "w_step (Cnt c) p =
     (if p = W_test then Some (if c = 0 then W_last else W_count) else if p = W_count then Some W_wait else None)"
| "w_step _ _ = None"

text \<open>The second component of the reader is what it has taken from the segment and not yet handed to
  \<open>write\<close>.\<close>

fun r_step :: "sact \<Rightarrow> rpc \<times> cbuf option option \<Rightarrow> (rpc \<times> cbuf option option) option" where
  "r_step P_read (p, q) = (if p = R_wait then Some (R_test, q) else None)"
| "r_step (Cnt c) (p, q) =
     (if p = R_test then Some (if c = 0 then R_detach else R_write, q) else if p = R_count then Some (R_wait, q) else None)"
| "r_step (Msg c t) (p, q) = (if p = R_write \<and> q = None then Some (R_post, Some (handed c t)) else None)"
| "r_step (Put b) (p, q) = (if q = Some b then Some (p, None) else None)"
| "r_step V_write (p, q) =
     (if p = R_post then Some (R_count, q) else if p = R_detach then Some (R_done, q) else None)"
| "r_step _ _ = None"

abbreviation moves_w :: "wpc \<Rightarrow> ('m, 'v) prog \<Rightarrow> ('v \<Rightarrow> wpc) \<Rightarrow> bool" where
  "moves_w \<equiv> moves sact_of (\<lambda>_. True) w_step"

abbreviation moves_r :: "rpc \<times> cbuf option option \<Rightarrow> ('m, 'v) prog \<Rightarrow> ('v \<Rightarrow> rpc \<times> cbuf option option) \<Rightarrow> bool" where
  "moves_r \<equiv> moves sact_of (\<lambda>_. True) r_step"

lemma moves_w_rules:
  "moves_w W_wait (semop i WRITE_SEM (-1)) (\<lambda>_. W_read)" "moves_w W_last (semop i WRITE_SEM (-1)) (\<lambda>_. W_done)"
  "moves_w W_read (sys (Read fd k)) (\<lambda>_. W_post)" "moves_w W_post (semop i READ_SEM 1) (\<lambda>_. W_test)"
  "moves_w W_test shm_cnt (\<lambda>c. if c = 0 then W_last else W_count)" "moves_w W_count shm_cnt (\<lambda>_. W_wait)"
  by (rule movesI, auto simp: ok_simps semop_def shm_cnt_def WRITE_SEM_def READ_SEM_def)+

lemma moves_r_rules:
  "moves_r (R_wait, q) (semop i READ_SEM (-1)) (\<lambda>_. (R_test, q))"
  "moves_r (R_test, q) shm_cnt (\<lambda>c. (if c = 0 then R_detach else R_write, q))"
  "moves_r (R_write, None) write_segment (\<lambda>_. (R_post, None))"
  "moves_r (R_post, q) (semop i WRITE_SEM 1) (\<lambda>_. (R_count, q))" "moves_r (R_count, q) shm_cnt (\<lambda>_. (R_wait, q))"
  "moves_r (R_detach, q) (semop i WRITE_SEM 1) (\<lambda>_. (R_done, q))"
  by (rule movesI, auto simp: ok_simps semop_def shm_cnt_def write_segment_def handed_def WRITE_SEM_def READ_SEM_def
    split: if_splits)+

lemma moves_sys [moves_rules]:
  "f \<notin> {''semop'', ''load'', ''write''} \<Longrightarrow> moves sact_of ok step l (sys (Sys f as)) (\<lambda>_. l)"
  by (rule movesI) (auto simp: ok_simps)

lemma moves_semctl [moves_rules]: "moves sact_of ok step l (semctl_set i k v) (\<lambda>_. l)"
  unfolding semctl_set_def by (rule moves_checked moves_sys)+ simp

lemma moves_count: "moves A ok step l (bind (require x why) again) (\<lambda>r. case r of Inl v \<Rightarrow> l | Inr b \<Rightarrow> l')"
  by (auto simp: moves_def ok_simps intro!: exI [of _ "[]"])

lemma writer_loop_moves: "moves_w W_wait (writer_loop semid) (\<lambda>_. W_last)"
  unfolding writer_loop_def
proof (rule moves_loop [where pre = "\<lambda>_. W_wait"], (rule moves_seq moves_w_rules(1,3,4))+, rule moves_bind [OF moves_w_rules(5)])
  fix n c :: int
  show "moves_w (if c = 0 then W_last else W_count)
     (if c = 0 then leave n else bind shm_cnt (\<lambda>c. bind (require (int_add n c) ''integer overflow'') again))
     (\<lambda>r. case r of Inl a' \<Rightarrow> W_wait | Inr b \<Rightarrow> W_last)"
    by (cases "c = 0") (simp_all add: moves_value moves_bind [OF moves_w_rules(6) moves_count])
qed

lemma reader_loop_moves: "moves_r (R_wait, None) (reader_loop semid) (\<lambda>_. (R_detach, None))"
  unfolding reader_loop_def
proof (rule moves_loop [where pre = "\<lambda>_. (R_wait, None)"], (rule moves_seq moves_r_rules(1))+, rule moves_bind [OF moves_r_rules(2)])
  fix n c :: int
  show "moves_r (if c = 0 then R_detach else R_write, None)
     (if c = 0 then leave n
      else seq write_segment (seq (semop semid WRITE_SEM 1)
           (bind shm_cnt (\<lambda>c. bind (require (int_add n c) ''integer overflow'') again))))
     (\<lambda>r. case r of Inl a' \<Rightarrow> (R_wait, None) | Inr b \<Rightarrow> (R_detach, None))"
  proof (cases "c = 0")
    case False
    then show ?thesis
      by simp (rule moves_seq moves_r_rules(3,4) moves_bind [OF moves_r_rules(5) moves_count])+
  qed (simp add: moves_value)
qed

text \<open>Each program takes its side from the beginning to the end.\<close>

lemma writer_moves: "moves_w W_wait ipc_systemv_shm_writer (\<lambda>_. W_done)"
  unfolding ipc_systemv_shm_writer_def Let_def
  by (rule moves_seq [OF writer_loop_moves] moves_w_rules(2) moves_rules | (simp; fail))+

lemma reader_moves: "moves_r (R_wait, None) ipc_systemv_shm_reader (\<lambda>_. (R_done, None))"
  unfolding ipc_systemv_shm_reader_def Let_def
  by (rule moves_seq [OF reader_loop_moves] moves_r_rules(6) moves_rules | (simp; fail))+


subsection \<open>Orders of their actions\<close>

text \<open>An order the semaphores and the memory allow: a semaphore is taken when it is positive, the memory
  answers with the count and the bytes that were stored last. Participant 0 is the writer, 1 the reader.\<close>

fun shm_obeys :: "nat \<Rightarrow> nat \<Rightarrow> shmmsg \<Rightarrow> (nat \<times> sact) list \<Rightarrow> bool" where
  "shm_obeys w r m [] = True"
| "shm_obeys w r m ((t, a) # tr) =
     (case a of
        P_write \<Rightarrow> 0 < w \<and> shm_obeys (w - 1) r m tr
      | V_write \<Rightarrow> shm_obeys (w + 1) r m tr
      | P_read \<Rightarrow> 0 < r \<and> shm_obeys w (r - 1) m tr
      | V_read \<Rightarrow> shm_obeys w (r + 1) m tr
      | Fill b \<Rightarrow> shm_obeys w r \<lparr>cnt = read_cnt b, buf = read_buf b (buf m)\<rparr> tr
      | Cnt c \<Rightarrow> c = cnt m \<and> shm_obeys w r m tr
      | Msg c t \<Rightarrow> c = cnt m \<and> handed c t = write_arg m \<and> shm_obeys w r m tr
      | Put b \<Rightarrow> shm_obeys w r m tr)"

fun fills :: "sact list \<Rightarrow> string option list" where
  "fills [] = []"
| "fills (a # as) = (case a of Fill b \<Rightarrow> [b] | _ \<Rightarrow> []) @ fills as"

fun msgs :: "sact list \<Rightarrow> cbuf option list" where
  "msgs [] = []"
| "msgs (a # as) = (case a of Msg c t \<Rightarrow> [handed c t] | _ \<Rightarrow> []) @ msgs as"

fun puts :: "sact list \<Rightarrow> cbuf option list" where
  "puts [] = []"
| "puts (a # as) = (case a of Put b \<Rightarrow> [b] | _ \<Rightarrow> []) @ puts as"

text \<open>An action of the writer is a step; one of the reader is a step, or two, or none.\<close>

lemma writer_act:
  assumes "w_step a pw = Some p" "shm_obeys w r m ((t, a) # tr)"
  shows "\<exists>w' r' m' wb'. shm_step
      \<lparr>write_sem = w, read_sem = r, seg = m, wr = pw, rd = pr, to_read = fills (a # as), written = out, wbytes = wb, rbytes = rb\<rparr>
      \<lparr>write_sem = w', read_sem = r', seg = m', wr = p, rd = pr, to_read = fills as, written = out, wbytes = wb', rbytes = rb\<rparr> \<and>
    shm_obeys w' r' m' tr"
proof (cases a)
  case P_write
  with assms obtain n where n: "w = Suc n" by (cases w) auto
  with P_write assms show ?thesis
    by (intro exI [of _ n] exI [of _ r] exI [of _ m] exI [of _ wb]) (auto simp: shm_step.simps split: if_splits)
next
  case (Fill b)
  with assms show ?thesis
    by (intro exI [of _ w] exI [of _ r] exI [of _ "\<lparr>cnt = read_cnt b, buf = read_buf b (buf m)\<rparr>"] exI [of _ wb])
      (auto simp: shm_step.simps split: if_splits)
next
  case V_read
  with assms show ?thesis
    by (intro exI [of _ w] exI [of _ "r + 1"] exI [of _ m] exI [of _ wb]) (auto simp: shm_step.simps split: if_splits)
next
  case (Cnt c)
  with assms show ?thesis
    by (intro exI [of _ w] exI [of _ r] exI [of _ m] exI [of _ "if pw = W_count then wb + c else wb"])
      (auto simp: shm_step.simps split: if_splits)
qed (use assms in simp_all)

lemma reader_act:
  assumes "r_step a (pr, q) = Some (p, q')" "shm_obeys w r m ((t, a) # tr)"
  shows "\<exists>w' r' rb'. shm_run
      \<lparr>write_sem = w, read_sem = r, seg = m, wr = pw, rd = pr, to_read = bs, written = out, wbytes = wb, rbytes = rb\<rparr>
      \<lparr>write_sem = w', read_sem = r', seg = m, wr = pw, rd = p, to_read = bs, written = out @ msgs [a], wbytes = wb, rbytes = rb'\<rparr> \<and>
    shm_obeys w' r' m tr"
proof -
  let ?S = "\<lambda>w r p out rb. \<lparr>write_sem = w, read_sem = r, seg = m, wr = pw, rd = p, to_read = bs, written = out, wbytes = wb, rbytes = rb\<rparr>"
  have one: "shm_step S S' \<Longrightarrow> shm_run S S'" for S S' by (simp add: shm_run_def r_into_rtranclp)
  show ?thesis
  proof (cases a)
    case P_read
    with assms obtain n where n: "r = Suc n" by (cases r) auto
    with P_read assms have "shm_step (?S w r pr out rb) (?S w n p out rb)" by (auto simp: shm_step.simps split: if_splits)
    from one [OF this] P_read n assms(2) show ?thesis by auto
  next
    case (Cnt c)
    with assms have "shm_step (?S w r pr out rb) (?S w r p out (if pr = R_count then rb + c else rb))"
      by (auto simp: shm_step.simps split: if_splits)
    from one [OF this] Cnt assms(2) show ?thesis by auto
  next
    case (Msg c t)
    with assms have "shm_step (?S w r pr out rb) (?S w r p (out @ [handed c t]) rb)" by (auto simp: shm_step.simps split: if_splits)
    from one [OF this] Msg assms(2) show ?thesis by auto
  next
    case (Put b)
    with assms have "p = pr" by (auto split: if_splits)
    with Put assms(2) show ?thesis by (auto simp: shm_run_def)
  next
    case V_write
    show ?thesis
    proof (cases "pr = R_detach")
      case True
      have "shm_step (?S w r R_detach out rb) (?S w r R_last out rb)" "shm_step (?S w r R_last out rb) (?S (w + 1) r R_done out rb)"
        by (auto simp: shm_step.simps)
      from shm_run_step [OF one [OF this(1)] this(2)] True V_write assms show ?thesis by auto
    next
      case False
      with V_write assms have "shm_step (?S w r pr out rb) (?S (w + 1) r p out rb)" by (auto simp: shm_step.simps split: if_splits)
      from one [OF this] V_write assms(2) show ?thesis by auto
    qed
  qed (use assms in simp_all)
qed

text \<open>An order that is allowed is a run of the step relation that ends where the two programs end.\<close>

lemma shm_obeys_run:
  "shm_obeys w r m tr \<Longrightarrow> list_all (\<lambda>(t, a). t < 2) tr \<Longrightarrow> act_run w_step (proj 0 tr) pw = Some pw' \<Longrightarrow>
   act_run r_step (proj 1 tr) (pr, q) = Some (pr', q') \<Longrightarrow>
   \<exists>S. shm_run \<lparr>write_sem = w, read_sem = r, seg = m, wr = pw, rd = pr, to_read = fills (proj 0 tr), written = out,
      wbytes = wb, rbytes = rb\<rparr> S \<and> wr S = pw' \<and> rd S = pr' \<and> written S = out @ msgs (proj 1 tr)"
proof (induction tr arbitrary: w r m pw pr q out wb rb)
  case Nil
  then show ?case by (auto simp: shm_run_def)
next
  case (Cons e tr)
  obtain t a where e: "e = (t, a)" by fastforce
  consider "t = 0" | "t = 1" using Cons.prems(2) e by (auto simp: less_2_cases_iff)
  then show ?case
  proof cases
    case 1
    with Cons.prems(3) e obtain p where p: "w_step a pw = Some p" "act_run w_step (proj 0 tr) p = Some pw'"
      by (auto split: option.splits)
    from writer_act [OF p(1) Cons.prems(1) [unfolded e]] obtain w' r' m' wb' where
      s: "shm_step \<lparr>write_sem = w, read_sem = r, seg = m, wr = pw, rd = pr, to_read = fills (a # proj 0 tr), written = out,
          wbytes = wb, rbytes = rb\<rparr>
        \<lparr>write_sem = w', read_sem = r', seg = m', wr = p, rd = pr, to_read = fills (proj 0 tr), written = out,
          wbytes = wb', rbytes = rb\<rparr>" and o: "shm_obeys w' r' m' tr" by blast
    from Cons.IH [OF o _ p(2)] Cons.prems(2,4) 1 e obtain S where
      "shm_run \<lparr>write_sem = w', read_sem = r', seg = m', wr = p, rd = pr, to_read = fills (proj 0 tr), written = out,
          wbytes = wb', rbytes = rb\<rparr> S" "wr S = pw'" "rd S = pr'" "written S = out @ msgs (proj 1 tr)" by fastforce
    with s 1 e show ?thesis unfolding shm_run_def by (auto intro: converse_rtranclp_into_rtranclp)
  next
    case 2
    with Cons.prems(4) e obtain p q1 where p: "r_step a (pr, q) = Some (p, q1)" "act_run r_step (proj 1 tr) (p, q1) = Some (pr', q')"
      by (auto split: option.splits)
    from reader_act [OF p(1) Cons.prems(1) [unfolded e]] obtain w' r' rb' where
      s: "shm_run \<lparr>write_sem = w, read_sem = r, seg = m, wr = pw, rd = pr, to_read = fills (proj 0 tr), written = out,
          wbytes = wb, rbytes = rb\<rparr>
        \<lparr>write_sem = w', read_sem = r', seg = m, wr = pw, rd = p, to_read = fills (proj 0 tr), written = out @ msgs [a],
          wbytes = wb, rbytes = rb'\<rparr>" and o: "shm_obeys w' r' m tr" by blast
    from Cons.IH [OF o _ _ p(2)] Cons.prems(2,3) 2 e obtain S where
      "shm_run \<lparr>write_sem = w', read_sem = r', seg = m, wr = pw, rd = p, to_read = fills (proj 0 tr), written = out @ msgs [a],
          wbytes = wb, rbytes = rb'\<rparr> S" "wr S = pw'" "rd S = pr'" "written S = (out @ msgs [a]) @ msgs (proj 1 tr)" by fastforce
    with s 2 e show ?thesis unfolding shm_run_def by (intro exI [of _ S]) auto
  qed
qed

text \<open>What the reader has taken from the segment it has handed to \<open>write\<close>.\<close>

definition pend :: "cbuf option option \<Rightarrow> cbuf option list" where
  "pend q = (case q of None \<Rightarrow> [] | Some b \<Rightarrow> [b])"

lemma msgs_puts: "act_run r_step as (p, q) = Some (p', q') \<Longrightarrow> pend q @ msgs as = puts as @ pend q'"
proof (induction as arbitrary: p q)
  case (Cons a as)
  then obtain p1 q1 where s: "r_step a (p, q) = Some (p1, q1)" "act_run r_step as (p1, q1) = Some (p', q')"
    by (auto split: option.splits)
  from s(1) Cons.IH [OF s(2)] show ?case by (cases a) (auto simp: pend_def split: if_splits)
qed simp

abbreviation shm_acts :: "event list \<Rightarrow> sact list" where
  "shm_acts \<equiv> acts sact_of"

text \<open>What a process has read from its input, and written to its output.\<close>

definition blocks_read :: "event list \<Rightarrow> string option list" where
  "blocks_read es = fills (shm_acts es)"

definition blocks_written :: "event list \<Rightarrow> cbuf option list" where
  "blocks_written es = puts (shm_acts es)"



end
