(* ===== verification/Timers.thy ===== *)
theory Timers
  imports Signals CondVar
begin

text \<open>
  The timers and clocks of \<open>LinuxAPI\<close>: \<open>timer_func.c\<close>, \<open>timer_advanced_fd.c\<close>, \<open>timer_clock.c\<close>,
  \<open>timer_sleep.c\<close>, \<open>timer_sync_expire.c\<close> and \<open>timer_advanced_signal.c\<close> (\<open>timer_advanced_thread.c\<close> is in
  \<open>CondVar\<close>). Expiries are signals, delivered as in \<open>Delivery\<close>.
\<close>

subsection \<open>\<open>timer_func\<close>\<close>

definition ITIMER_REAL :: int where "ITIMER_REAL = 0"

text \<open>The handler sets the flag \<open>setalarm\<close>.\<close>

definition on_timer :: "int \<Rightarrow> int \<Rightarrow> ('m, int) prog" where
  "on_timer sig setalarm = seq (printf (''on_timer'' @ [NL]) []) (return 1)"

text \<open>The part of a round that looks at the flag: the new count, and whether the loop ends. An interval
  timer is given as \<open>it_interval\<close>, \<open>it_value\<close>.\<close>

definition take_expiry :: "int \<Rightarrow> int \<Rightarrow> ('m, int \<times> bool) prog" where
  "take_expiry setalarm k =
     (if setalarm = 1 then
        seq (printf (''Timer expired!'' @ [NL]) [])
        (if k + 1 < 5 then
           seq (printf (''loop: %d'' @ [NL]) [N (k + 1)]) (return (k + 1, False))
         else
           bind (sys (Sys ''setitimer'' [N ITIMER_REAL, N 2, N 0, N 0, N 0])) (\<lambda>r.
           seq (only_if (ret r = -1) (errMsg ''setitimer()'' []))
           (return (k + 1, True))))
      else return (k, False))"

text \<open>One round of the loop, with \<open>setalarm\<close> reset behind its test; \<open>cur\<close> is \<open>cur_tv.it_value.tv_sec\<close>,
  which is set when \<open>getitimer\<close> succeeds.\<close>

definition timer_round :: "int \<times> int \<times> int option \<Rightarrow> ('m, (int \<times> int \<times> int option) + int) prog" where
  "timer_round = (\<lambda>(setalarm, k, cur).
     bind (take_expiry setalarm k) (\<lambda>(k, stopped).
     if stopped then leave 0
     else
       bind (sys (Sys ''getitimer'' [N ITIMER_REAL])) (\<lambda>g.
       seq (only_if (ret g = -1) (errMsg ''getitimer()'' []))
       (let cur = (if ret g = -1 then cur else Some (out_int g 0)) in
        bind (require cur ''uninitialised cur_tv'') (\<lambda>c.
        seq (printf (''Remain time: %d'' @ [NL]) [N c])
        (bind (catching (taking [SIGALRM] on_timer) (Sys ''sleep'' [N 1]) 0) (\<lambda>(_, setalarm).
        again (setalarm, k, cur))))))))"

definition timer_func :: "('m, unit) prog" where
  "timer_func =
     seq (or_errExit (Sys ''sigaction'' [N SIGALRM, T ''on_timer'', N 0]) (''sigaction'' @ [NL]) [])
     (seq (or_errExit (Sys ''setitimer'' [N ITIMER_REAL, N 2, N 0, N 3, N 0]) ''setitimer()'' [])
     (bind (loop timer_round (0, 0, None)) (\<lambda>setalarm.
     bind (catching (taking [SIGALRM] on_timer) (Sys ''alarm'' [N 3]) setalarm) (\<lambda>(_, setalarm).
     seq (catching (taking [SIGALRM] on_timer) (Sys ''pause'' []) setalarm)
     skip))))"

subsection \<open>Timers that are read\<close>

text \<open>The count is read into an \<open>int\<close> of four bytes; it is added to a \<open>uint64_t\<close>.\<close>

definition max_expire_cnt :: int where "max_expire_cnt = 100"

definition fd_round :: "int \<Rightarrow> int \<times> cbuf \<Rightarrow> ('m, int \<times> cbuf + unit) prog" where
  "fd_round t = (\<lambda>(total_expire_cnt, num_expire_cnt).
        if \<not> total_expire_cnt < max_expire_cnt then leave ()
        else
          bind (read_into t num_expire_cnt 0 8) (\<lambda>(s, num_expire_cnt).
          seq (only_if (s \<noteq> 8) (errExit ''read()'' []))
          (seq (printf (''total_expire_cnt = %lu'' @ [NL]) [N total_expire_cnt])
          (bind (require (cbuf_int num_expire_cnt) ''uninitialised num_expire_cnt'') (\<lambda>n.
          again ((total_expire_cnt + n) mod 2 ^ 64, num_expire_cnt))))))"

definition timer_advanced_fd :: "('m, unit) prog" where
  "timer_advanced_fd =
     bind (or_errExit (Sys ''timerfd_create'' [N CLOCK_REALTIME, N 0]) ''timerfd_create()'' []) (\<lambda>t.
     seq (or_errExit (Sys ''timerfd_settime'' [N (ret t), N 0, N 1, N 0, N 1, N 0]) ''timerfd_settime()'' [])
     (loop (fd_round (ret t)) (0, uninit 4)))"

definition read_limit :: nat where "read_limit = 4096"

definition on_expiry :: "int \<Rightarrow> unit \<Rightarrow> ('m, unit) prog" where
  "on_expiry sig st = printf (''Timer has been expired!'' @ [NL]) []"

text \<open>\<open>buf[cnt] = 0\<close> for the \<open>cnt\<close> that \<open>read\<close> returned.\<close>

definition put_nul :: "cbuf \<Rightarrow> int \<Rightarrow> ('m, cbuf) prog" where
  "put_nul buf cnt = (if cnt < 0 then undef ''write in front of a buffer'' else store buf (nat cnt) [NUL])"

definition timer_sync_expire :: "('m, unit) prog" where
  "timer_sync_expire =
     seq (or_errExit (Sys ''sigaction'' [N SIGALRM, T ''on_timer'', N 0]) (''sigaction'' @ [NL]) [])
     (seq (or_errExit (Sys ''setitimer'' [N ITIMER_REAL, N 2, N 0, N 5, N 0]) ''setitimer()'' [])
     (bind (sys (Sys ''deliver'' [])) (\<lambda>d.
     bind (fold_each (rints d) (taking [SIGALRM] on_expiry) ()) (\<lambda>_.
     bind (read_into 0 (uninit read_limit) 0 read_limit) (\<lambda>(cnt, buf).
     seq (sys (Sys ''alarm'' [N 0]))
     (bind (gets errno) (\<lambda>e.
     seq (only_if (cnt = -1 \<and> e = EINTR) (errExit ''read() has been failed by timer.'' []))
     (bind (put_nul buf cnt) (\<lambda>buf.
     bind (load_string buf) (\<lambda>t.
     printf (''input is '' @ [CHR 0x22] @ ''%s'' @ [CHR 0x22, NL]) [T t]))))))))))"

subsection \<open>Clocks\<close>

definition CLOCK_MONOTONIC :: int where "CLOCK_MONOTONIC = 1"
definition CLOCK_PROCESS_CPUTIME_ID :: int where "CLOCK_PROCESS_CPUTIME_ID = 2"
definition CLOCK_THREAD_CPUTIME_ID :: int where "CLOCK_THREAD_CPUTIME_ID = 3"
definition TIMER_ABSTIME :: int where "TIMER_ABSTIME = 1"

text \<open>\<open>ret = clock_gettime (clk, &ts)\<close>; a failing call leaves \<open>ts\<close> as it is.\<close>

definition get_clock :: "string \<Rightarrow> int \<Rightarrow> (int \<times> int) option \<Rightarrow> ('m, (int \<times> int) option) prog" where
  "get_clock name clk ts =
     bind (sys (Sys name [N clk])) (\<lambda>r.
     return (if ret r = -1 then ts else Some (out_int r 0, out_int r 1)))"

definition print_clock :: "(int \<times> int) option \<Rightarrow> ('m, unit) prog" where
  "print_clock ts =
     bind (require ts ''uninitialised time'') (\<lambda>(sec, nsec).
     printf (''sec: %ld, nanosec: %ld'' @ [NL]) [N sec, N nsec])"

definition timer_clock_gettime :: "('m, unit) prog" where
  "timer_clock_gettime =
     bind (fold_each [CLOCK_REALTIME, CLOCK_MONOTONIC, CLOCK_PROCESS_CPUTIME_ID, CLOCK_THREAD_CPUTIME_ID] (\<lambda>clk ts.
        bind (get_clock ''clock_gettime'' clk ts) (\<lambda>ts.
        seq (print_clock ts) (return ts))) None) (\<lambda>ts.
     bind (get_clock ''clock_getres'' CLOCK_REALTIME None) (\<lambda>res.
     seq (print_clock res)
     (bind getpid (\<lambda>p.
     bind (sys (Sys ''clock_getcpuclockid'' [N p])) (\<lambda>c.
     bind (require (if ret c = 0 then Some (out_int c 0) else None) ''uninitialised clockid'') (\<lambda>clockid.
     seq (printf (''clockid: %d'' @ [NL]) [N clockid])
     (bind (get_clock ''clock_gettime'' clockid ts) (\<lambda>ts.
     print_clock ts))))))))"

text \<open>\<open>clock_nanosleep\<close> returns its error number and leaves \<open>errno\<close> alone.\<close>

definition timer_clock_nanosleep :: "('m, unit) prog" where
  "timer_clock_nanosleep =
     bind (get_clock ''clock_gettime'' CLOCK_REALTIME None) (\<lambda>ts.
     seq (printf (''Process will be sleep...'' @ [NL]) [])
     (bind (require ts ''uninitialised time'') (\<lambda>(sec, nsec).
     bind (sys (Sys ''clock_nanosleep'' [N CLOCK_REALTIME, N TIMER_ABSTIME, N (sec + 5), N nsec])) (\<lambda>r.
     only_if (ret r \<noteq> 0)
       (if ret r = EINTR then printf (''Interrupted by signal'' @ [NL]) []
        else errExit ''clock_nanosleep()'' [])))))"

definition interrupted :: "int \<Rightarrow> unit \<Rightarrow> ('m, unit) prog" where
  "interrupted sig st = printf (''Interrupted!'' @ [NL]) []"

text \<open>\<open>remain\<close> is set only when a signal interrupted the sleep.\<close>

definition timer_sleep :: "('m, unit) prog" where
  "timer_sleep =
     seq (or_errExit (Sys ''sigaction'' [N SIGINT, T ''signal_handler'', N 0]) (''sigaction'' @ [NL]) [])
     (seq (printf (''Process will be sleep...'' @ [NL]) [])
     (bind (catching (taking [SIGINT] interrupted) (Sys ''nanosleep'' [N 5, N 0]) ()) (\<lambda>(r, _).
     only_if (ret r = -1)
       (bind (require (if eno r = Some EINTR then Some (out_int r 0) else None) ''uninitialised remain'') (\<lambda>sec.
        printf ''remain time: %d'' [N sec])))))"

subsection \<open>Timers that send a signal\<close>

definition TIMER_SIG :: int where "TIMER_SIG = SIGRTMAX"
definition SIGEV_SIGNAL :: int where "SIGEV_SIGNAL = 0"

text \<open>The handler gets \<open>si_code\<close> and a pointer to an element of \<open>tid\<close>, here its index.\<close>

definition signal_timer_handler :: "int \<Rightarrow> int list \<Rightarrow> ('m, int list) prog" where
  "signal_timer_handler sig tid =
     bind (sys (Sys ''siginfo'' [N sig])) (\<lambda>si.
     bind (require (if nat (out_int si 1) < length tid then Some (tid ! nat (out_int si 1)) else None)
            ''unset timer identifier'') (\<lambda>t.
     seq (printf (''si_code: %d, tid: %ld'' @ [NL]) [N (out_int si 0), N t])
     (return tid)))"

definition timer_advanced_signal :: "('m, unit) prog" where
  "timer_advanced_signal =
     seq (or_errExit (Sys ''sigaction'' [N TIMER_SIG, T ''signal_timer_handler'', N SA_SIGINFO]) ''sigaction()'' [])
     (bind (fold_each [0, 1] (\<lambda>i tid.
         bind (or_errExit (Sys ''timer_create'' [N CLOCK_REALTIME, N SIGEV_SIGNAL, N TIMER_SIG, N i])
                 ''timer_create()'' []) (\<lambda>r.
         seq (printf (''TImer Id: %ld'' @ [NL]) [N (out_int r 0)])
         (return (tid @ [out_int r 0])))) []) (\<lambda>tid.
     seq (or_errExit (Sys ''timer_settime'' [N (tid ! 0), N 0, N 2, N 0, N 3, N 0])
            ''timer_settime(): %ld'' [N (tid ! 0)])
     (seq (or_errExit (Sys ''timer_settime'' [N (tid ! 1), N 0, N 3, N 0, N 5, N 0])
            ''timer_settime(): %ld'' [N (tid ! 1)])
     (pause_forever (taking [TIMER_SIG] signal_timer_handler) tid))))"

subsection \<open>Properties\<close>

text \<open>The arguments of the lines with a format, in order.\<close>

definition printed :: "string \<Rightarrow> event list \<Rightarrow> carg list list" where
  "printed f es = concat (map (\<lambda>e. case e of Out g as \<Rightarrow> (if g = f then [as] else []) | _ \<Rightarrow> []) es)"

lemma printed_simps [simp]:
  "printed f [] = []" "printed f (xs @ ys) = printed f xs @ printed f ys"
  "printed f (Did c r # es) = printed f es" "printed f (FlushOut # es) = printed f es"
  "printed f (FlushErr # es) = printed f es" "printed f (ErrText t # es) = printed f es"
  "printed f (Out g as # es) = (if g = f then as # printed f es else printed f es)"
  by (simp_all add: printed_def)

lemma printed_diagnostics: "list_all is_diagnostic es \<Longrightarrow> printed f es = []"
  by (induction es) (auto simp: printed_def is_diagnostic_def split: event.splits)

text \<open>What the runs of \<open>timer_func\<close> are counted by: the numbers of the loop, the expiries the loop has
  seen, and the runs of the handler.\<close>

definition loop_line :: string where "loop_line = ''loop: %d'' @ [NL]"
definition expired_line :: string where "expired_line = ''Timer expired!'' @ [NL]"
definition handler_line :: string where "handler_line = ''on_timer'' @ [NL]"

lemmas timer_lines = loop_line_def expired_line_def handler_line_def

definition timer_seen :: "int \<Rightarrow> int \<Rightarrow> event list \<Rightarrow> bool" where
  "timer_seen setalarm k es \<longleftrightarrow>
     printed loop_line es = map (\<lambda>i. [N i]) [1..min k 4] \<and>
     int (length (printed expired_line es)) = k \<and>
     k + (if setalarm = 1 then 1 else 0) \<le> int (length (printed handler_line es))"

lemma on_timer_fold:
  "fold_each sigs (taking [SIGALRM] on_timer) a s = (Ok b, s') \<Longrightarrow>
    \<exists>es. trace s' = trace s @ es \<and> printed loop_line es = [] \<and> printed expired_line es = [] \<and>
      (b = a \<or> b = 1 \<and> 0 < length (printed handler_line es))"
proof (induction sigs arbitrary: a s)
  case Nil
  then show ?case by (auto simp: return_def intro!: exI [of _ "[]"])
next
  case (Cons x xs)
  show ?case
  proof (cases "x = SIGALRM")
    case True
    let ?e = "Out handler_line []"
    have "taking [SIGALRM] on_timer x a s = (Ok 1, logged ?e s)" using True
      by (simp add: taking_def on_timer_def bind_def seq_def printf_def emit_def return_def handler_line_def)
    with Cons.prems have "fold_each xs (taking [SIGALRM] on_timer) 1 (logged ?e s) = (Ok b, s')" by (simp add: bind_def)
    from Cons.IH [OF this] obtain es where "trace s' = trace s @ ?e # es" "printed loop_line es = []"
      "printed expired_line es = []" "b = 1" by auto
    then show ?thesis by (auto simp: timer_lines intro!: exI [of _ "?e # es"])
  next
    case False
    then have "taking [SIGALRM] on_timer x a s = (if x \<in> default_ignores then (Ok a, s) else (Stop (Killed x), s))"
      by (simp add: taking_def default_action_def return_def stop_def)
    with Cons.prems have "fold_each xs (taking [SIGALRM] on_timer) a s = (Ok b, s')"
      by (simp add: bind_def split: if_splits)
    from Cons.IH [OF this] show ?thesis .
  qed
qed

lemma catching_on_timer_ok:
  assumes "catching (taking [SIGALRM] on_timer) c a s = (Ok (r, b), s')"
  shows "\<exists>es. trace s' = trace s @ es \<and> printed loop_line es = [] \<and> printed expired_line es = [] \<and>
    (b = a \<or> b = 1 \<and> 0 < length (printed handler_line es))"
proof -
  from assms obtain d rs r' s2 where "replies s = d # rs"
    and f: "fold_each (rints d) (taking [SIGALRM] on_timer) a (after (Sys ''deliver'' []) d rs s) = (Ok b, s2)"
    and "trace s' = trace s2 @ [Did c r']"
    unfolding catching_def by (auto simp: ok_simps)
  moreover from on_timer_fold [OF f] obtain es where "trace s2 = trace s @ Did (Sys ''deliver'' []) d # es"
    "printed loop_line es = []" "printed expired_line es = []" "b = a \<or> b = 1 \<and> 0 < length (printed handler_line es)" by auto
  ultimately show ?thesis
    by (intro exI [of _ "Did (Sys ''deliver'' []) d # es @ [Did c r']"]) auto
qed

text \<open>How a round changes the counts.\<close>

lemma timer_seen_more:
  "timer_seen 0 k es0 \<Longrightarrow> printed loop_line es = [] \<Longrightarrow> printed expired_line es = [] \<Longrightarrow>
    b = 0 \<or> b = 1 \<and> 0 < length (printed handler_line es) \<Longrightarrow> timer_seen b k (es0 @ es)"
  by (cases "printed handler_line es") (auto simp: timer_seen_def)

lemma timer_seen_expired:
  assumes "timer_seen 1 k es0" "0 \<le> k" "k \<le> 4"
  shows "k < 4 \<Longrightarrow> timer_seen 0 (k + 1) (es0 @ [Out expired_line [], Out loop_line [N (k + 1)]])"
    and "k = 4 \<Longrightarrow> printed loop_line es = [] \<Longrightarrow> printed expired_line es = [] \<Longrightarrow>
      timer_seen 0 5 (es0 @ Out expired_line [] # es)"
proof -
  assume "k < 4"
  then have "[1..k + 1] = [1..k] @ [k + 1]" using assms(2) upto_rec2 [of 1 "k + 1"] by simp
  with assms \<open>k < 4\<close> show "timer_seen 0 (k + 1) (es0 @ [Out expired_line [], Out loop_line [N (k + 1)]])"
    by (simp add: timer_seen_def timer_lines)
next
  assume "k = 4" "printed loop_line es = []" "printed expired_line es = []"
  with assms show "timer_seen 0 5 (es0 @ Out expired_line [] # es)"
    by (simp add: timer_seen_def timer_lines)
qed

text \<open>What a run from \<open>s\<close> to \<open>s'\<close> has printed when it started with the counts of \<open>es0\<close>.\<close>

definition seen_from :: "'m proc_scheme \<Rightarrow> event list \<Rightarrow> int \<Rightarrow> int \<Rightarrow> 'm proc_scheme \<Rightarrow> bool" where
  "seen_from s es0 a k s' \<longleftrightarrow> (\<exists>es. trace s' = trace s @ es \<and> timer_seen a k (es0 @ es))"

lemma seen_from_errMsg:
  assumes "CHR ''%'' \<notin> set f" "seen_from s es0 a k s1" "only_if b (errMsg f []) s1 = (Ok u, s')"
  shows "seen_from s es0 a k s'"
proof -
  from assms(3) have "s' = s1 \<or> (\<exists>m. trace s' = trace s1 @ [FlushOut, ErrText m, FlushErr])"
    by (auto simp: only_if_def skip_def return_def errMsg_ok [OF cformat_plain [OF assms(1)]] split: if_splits)
  with assms(2) show ?thesis
    unfolding seen_from_def timer_seen_def by fastforce
qed

lemma seen_from_did: "seen_from s es0 a k s1 \<Longrightarrow> seen_from s es0 a k (after c r rs s1)"
  unfolding seen_from_def timer_seen_def by fastforce

lemma seen_from_out:
  "g \<noteq> loop_line \<Longrightarrow> g \<noteq> expired_line \<Longrightarrow> g \<noteq> handler_line \<Longrightarrow> seen_from s es0 a k s1 \<Longrightarrow>
    seen_from s es0 a k (logged (Out g as) s1)"
  unfolding seen_from_def timer_seen_def by fastforce

lemma seen_from_wait:
  assumes "seen_from s es0 0 k s1" "catching (taking [SIGALRM] on_timer) c 0 s1 = (Ok (r, b), s')"
  shows "seen_from s es0 b k s'"
proof -
  from assms(1) obtain es where "trace s1 = trace s @ es" "timer_seen 0 k (es0 @ es)"
    unfolding seen_from_def by blast
  moreover from catching_on_timer_ok [OF assms(2)] obtain fs where "trace s' = trace s1 @ fs"
    "printed loop_line fs = []" "printed expired_line fs = []" "b = 0 \<or> b = 1 \<and> 0 < length (printed handler_line fs)"
    by blast
  moreover from calculation have "timer_seen b k ((es0 @ es) @ fs)" using timer_seen_more [of k "es0 @ es" fs b] by blast
  ultimately show ?thesis unfolding seen_from_def by (intro exI [of _ "es @ fs"]) simp
qed

lemma seen_from_start: "timer_seen a k es0 \<Longrightarrow> seen_from s es0 a k s"
  unfolding seen_from_def by (intro exI [of _ "[]"]) simp

lemma take_expiry_ok:
  assumes "take_expiry a k s = (Ok (k1, stopped), s1)" "timer_seen a k es0" "0 \<le> k" "k \<le> 4" "a = 0 \<or> a = 1"
  shows "seen_from s es0 0 k1 s1 \<and> 0 \<le> k1 \<and> (if stopped then k1 = 5 else k1 \<le> 4)"
proof -
  consider "a = 0" | "a = 1" "k < 4" | "a = 1" "k = 4" using assms(4,5) by force
  then show ?thesis
  proof cases
    case 1
    with assms show ?thesis by (auto simp: take_expiry_def return_def seen_from_start)
  next
    case 2
    with assms(1) have "trace s1 = trace s @ [Out expired_line [], Out loop_line [N (k + 1)]]" "k1 = k + 1" "\<not> stopped"
      by (auto simp: take_expiry_def ok_simps timer_lines)
    with timer_seen_expired(1) [of k es0] 2 assms(2,3) show ?thesis
      unfolding seen_from_def by auto
  next
    case 3
    let ?c = "Sys ''setitimer'' [N ITIMER_REAL, N 2, N 0, N 0, N 0]"
    from 3 assms(1) obtain r rs where
      r: "only_if (ret r = -1) (errMsg ''setitimer()'' []) (after ?c r rs (logged (Out expired_line []) s)) = (Ok (), s1)"
      "k1 = 5" "stopped"
      by (auto simp: take_expiry_def ok_simps timer_lines simp del: errMsg_ok only_if_ok)
    have "timer_seen 0 5 (es0 @ Out expired_line [] # [Did ?c r])"
      using timer_seen_expired(2) [of k es0 "[Did ?c r]"] 3 assms(2,3) by simp
    then have "seen_from s es0 0 5 (after ?c r rs (logged (Out expired_line []) s))"
      unfolding seen_from_def by auto
    from seen_from_errMsg [OF _ this r(1)] r(2,3) show ?thesis by simp
  qed
qed

lemma timer_round_ok:
  assumes "timer_round (a, k, cur) s = (Ok v, s')" "timer_seen a k es0" "0 \<le> k" "k \<le> 4" "a = 0 \<or> a = 1"
  shows "case v of Inl (a', k', _) \<Rightarrow> seen_from s es0 a' k' s' \<and> 0 \<le> k' \<and> k' \<le> 4 \<and> (a' = 0 \<or> a' = 1)
    | Inr _ \<Rightarrow> seen_from s es0 0 5 s'"
proof -
  from assms(1) obtain k1 stopped s1 where t: "take_expiry a k s = (Ok (k1, stopped), s1)"
    and rest: "(if stopped then leave 0
     else
       bind (sys (Sys ''getitimer'' [N ITIMER_REAL])) (\<lambda>g.
       seq (only_if (ret g = -1) (errMsg ''getitimer()'' []))
       (let cur = (if ret g = -1 then cur else Some (out_int g 0)) in
        bind (require cur ''uninitialised cur_tv'') (\<lambda>c.
        seq (printf (''Remain time: %d'' @ [NL]) [N c])
        (bind (catching (taking [SIGALRM] on_timer) (Sys ''sleep'' [N 1]) 0) (\<lambda>(_, setalarm).
        again (setalarm, k1, cur))))))) s1 = (Ok v, s')"
    unfolding timer_round_def by (auto simp: bind_ok)
  note T = take_expiry_ok [OF t assms(2-5)]
  show ?thesis
  proof (cases stopped)
    case True
    with T rest show ?thesis by (auto simp: leave_def return_def)
  next
    case False
    with rest obtain g rs s2 c r b where
      g: "only_if (ret g = -1) (errMsg ''getitimer()'' []) (after (Sys ''getitimer'' [N ITIMER_REAL]) g rs s1) = (Ok (), s2)"
      and w: "catching (taking [SIGALRM] on_timer) (Sys ''sleep'' [N 1]) 0 (logged (Out (''Remain time: %d'' @ [NL]) [N c]) s2) = (Ok (r, b), s')"
      and v: "v = Inl (b, k1, Some c)"
      by (auto simp: ok_simps simp del: errMsg_ok only_if_ok)
    from T False have "seen_from s es0 0 k1 s1" by simp
    from seen_from_errMsg [OF _ seen_from_did [OF this] g] have "seen_from s es0 0 k1 s2" by simp
    then have "seen_from s es0 0 k1 (logged (Out (''Remain time: %d'' @ [NL]) [N c]) s2)"
      by (intro seen_from_out) (simp_all add: timer_lines)
    from seen_from_wait [OF this w] catching_on_timer_ok [OF w] T False v show ?thesis by auto
  qed
qed

lemma tame_on_timer: "tame (on_timer sig a)"
  unfolding on_timer_def by (intro tame_rules)

lemma consumes_split: "(\<And>a b. consumes (f a b)) \<Longrightarrow> consumes (case x of (a, b) \<Rightarrow> f a b)"
  by (cases x) simp

lemma tame_take_expiry: "tame (take_expiry a k)"
  unfolding take_expiry_def by (intro tame_rules)

lemma tame_timer_round: "tame (timer_round st)"
  unfolding timer_round_def catching_def
  by (cases st) (auto intro!: tame_rules tame_on_timer tame_take_expiry simp: Let_def)

lemma consumes_timer_round: "consumes (timer_round st)"
proof -
  obtain a k cur where st: "st = (a, k, cur)" by (cases st) auto
  show ?thesis
    unfolding timer_round_def st split
    by (rule consumes_bind [OF tame_take_expiry], rule consumes_split, intro consumes_if consumes_leave consumes_sys)
      (auto intro!: tame_rules tame_on_timer simp: catching_def Let_def)
qed

text \<open>The loop ends behind the call that stops the timer.\<close>

abbreviation stop_timer :: call where
  "stop_timer \<equiv> Sys ''setitimer'' [N ITIMER_REAL, N 2, N 0, N 0, N 0]"

lemma take_expiry_stops:
  "take_expiry a k s = (Ok (k1, True), s1) \<Longrightarrow> \<exists>es r. trace s1 = trace s @ es \<and> Did stop_timer r \<in> set es"
  by (auto simp: take_expiry_def ok_simps errMsg_ok [OF cformat_plain] split: if_splits)

lemma timer_round_stops:
  assumes "timer_round (a, k, cur) s = (Ok (Inr x), s')"
  shows "\<exists>es r. trace s' = trace s @ es \<and> Did stop_timer r \<in> set es"
proof -
  from assms obtain k1 where "take_expiry a k s = (Ok (k1, True), s')"
    unfolding timer_round_def by (auto simp: ok_simps simp del: errMsg_ok only_if_ok split: if_splits)
  then show ?thesis by (rule take_expiry_stops)
qed

definition timer_state :: "int \<times> int \<times> int option \<Rightarrow> event list \<Rightarrow> bool" where
  "timer_state st es = (case st of (a, k, cur) \<Rightarrow> timer_seen a k es \<and> 0 \<le> k \<and> k \<le> 4 \<and> (a = 0 \<or> a = 1))"

definition timer_over :: "int outcome \<Rightarrow> event list \<Rightarrow> bool" where
  "timer_over out es \<longleftrightarrow> (\<forall>x. out = Ok x \<longrightarrow> timer_seen 0 5 es \<and> (\<exists>r. Did stop_timer r \<in> set es))"

lemma traced_timer_loop: "traced (\<lambda>_. True) (loop timer_round (0, 0, None)) timer_over"
proof (rule traced_loop [where I = timer_state])
  fix st :: "int \<times> int \<times> int option" and es0
  obtain a k cur where st: "st = (a, k, cur)" by (cases st) auto
  assume "timer_state st es0"
  with st have I: "timer_seen a k es0" "0 \<le> k" "k \<le> 4" "a = 0 \<or> a = 1" by (auto simp: timer_state_def)
  show "traced (\<lambda>_. True) (timer_round st) (\<lambda>out fs. case out of Ok (Inl st') \<Rightarrow> timer_state st' (es0 @ fs)
      | Ok (Inr b) \<Rightarrow> timer_over (Ok b) (es0 @ fs) | Stop x \<Rightarrow> timer_over (Stop x) (es0 @ fs))"
    unfolding traced_def st
  proof (intro allI impI)
    fix s out s' fs
    assume r: "timer_round (a, k, cur) s = (out, s')" "trace s' = trace s @ fs"
    show "case out of Ok (Inl st') \<Rightarrow> timer_state st' (es0 @ fs)
      | Ok (Inr b) \<Rightarrow> timer_over (Ok b) (es0 @ fs) | Stop x \<Rightarrow> timer_over (Stop x) (es0 @ fs)"
    proof (cases out)
      case (Ok v)
      from timer_round_ok [OF r(1) [unfolded Ok] I] r(2) timer_round_stops [of a k cur s _ s'] r(1) Ok
      show ?thesis by (cases v) (auto simp: seen_from_def timer_state_def timer_over_def)
    qed (simp add: timer_over_def)
  qed
qed (simp_all add: tame_timer_round consumes_timer_round timer_seen_def timer_state_def)

text \<open>C32. \<open>timer_func\<close> returns only after five expiries: it prints the loop numbers 1 to 4, sees exactly five
  expiries, each behind a run of the handler of its own, and stops the timer before it goes on.\<close>

theorem timer_func_five_expiries:
  assumes "timer_func s = (Ok u, s')" "trace s' = trace s @ es"
  shows "printed loop_line es = [[N 1], [N 2], [N 3], [N 4]] \<and> length (printed expired_line es) = 5 \<and>
    5 \<le> length (printed handler_line es) \<and> (\<exists>r. Did stop_timer r \<in> set es)"
proof -
  from assms(1) obtain s1 s2 s3 r0 r1 x r2 r3 a b where
    l: "loop timer_round (0, 0, None) s1 = (Ok x, s2)"
    and s1: "trace s1 = trace s @ [Did (Sys ''sigaction'' [N SIGALRM, T ''on_timer'', N 0]) r0,
      Did (Sys ''setitimer'' [N ITIMER_REAL, N 2, N 0, N 3, N 0]) r1]"
    and c1: "catching (taking [SIGALRM] on_timer) (Sys ''alarm'' [N 3]) x s2 = (Ok (r2, a), s3)"
    and c2: "catching (taking [SIGALRM] on_timer) (Sys ''pause'' []) a s3 = (Ok (r3, b), s')"
    unfolding timer_func_def by (auto simp: seq_ok bind_ok check_ok skip_ok)
  from tameD(1) [OF tame_loop [OF tame_timer_round] l] obtain fs where fs: "trace s2 = trace s1 @ fs" by blast
  from tracedD [OF traced_timer_loop l fs] have seen: "timer_seen 0 5 fs" "\<exists>r. Did stop_timer r \<in> set fs"
    by (auto simp: list_all_iff timer_over_def)
  from catching_on_timer_ok [OF c1] obtain gs where gs: "trace s3 = trace s2 @ gs"
    "printed loop_line gs = []" "printed expired_line gs = []" by blast
  from catching_on_timer_ok [OF c2] obtain hs where hs: "trace s' = trace s3 @ hs"
    "printed loop_line hs = []" "printed expired_line hs = []" by blast
  have "[1..4] = [1, 2, 3, 4::int]" by (simp add: upto.simps)
  with seen s1 fs gs hs assms(2) show ?thesis
    by (auto simp: timer_seen_def)
qed

theorem timer_func_five_expiries_witness:
  "length (printed handler_line (trace (snd (timer_func (boot
     ([r_ok 0, r_ok 0] @ concat (replicate 5 [r_ok 0, sig_reply [14], r_ok 0]) @ [r_ok 0, sig_reply [], r_ok 0, sig_reply [14], r_ok (-1)])))))) \<ge> 5"
proof -
  let ?s = "boot ([r_ok 0, r_ok 0] @ concat (replicate 5 [r_ok 0, sig_reply [14], r_ok 0]) @ [r_ok 0, sig_reply [], r_ok 0, sig_reply [14], r_ok (-1)])"
  let ?run = "timer_func ?s"
  have f: "fst ?run = Ok ()" by code_simp
  have m: "?run = (Ok (), snd ?run)" using f by (metis prod.collapse)
  have e: "trace (snd ?run) = trace ?s @ trace (snd ?run)" by (simp add: boot_def)
  from timer_func_five_expiries [OF m e] show ?thesis by simp
qed

lemma wp_on_expiry:
  assumes "set sigs \<subseteq> {SIGALRM}" "\<And>s'. replies s' = replies s \<Longrightarrow> Q (Ok ()) s'"
  shows "wp (fold_each sigs (taking [SIGALRM] on_expiry) u) Q s"
  using assms
  by (induction sigs arbitrary: s u) (auto simp: wp_rules on_expiry_def taking_def)

lemma wp_put_nul: "wp (put_nul buf cnt) Q s =
    (if cnt < 0 then Q (Stop (Undefined ''write in front of a buffer'')) s else wp (store buf (nat cnt) [NUL]) Q s)"
  by (simp add: put_nul_def wp_rules)

lemma terminated_whole:
  assumes "poke (uninit n) 0 d = Some b1" "poke b1 (length d) [NUL] = Some b2"
  shows "cstr b2 = Some (takeWhile (\<lambda>c. c \<noteq> NUL) d)"
  using terminated_cstr [OF assms] .

text \<open>\<open>timer_sync_expire\<close> prints the input it has read when that is shorter than the buffer, and ends as
  failed when the timer interrupted the read. A read that fills the buffer makes it write behind the
  buffer, a read that failed for another reason in front of it.\<close>

theorem timer_sync_expire_result:
  assumes "replies s = a # b # d # r # l # rs" "ret a \<noteq> -1" "ret b \<noteq> -1" "eno l = None" "set (rints d) \<subseteq> {SIGALRM}"
    and "legal (Did (Read 0 4096) r)" "timer_sync_expire s = (out, s')"
  shows "(0 \<le> ret r \<and> ret r < 4096 \<longrightarrow> out = Ok () \<and>
      last (trace s') = Out (''input is '' @ [CHR 0x22] @ ''%s'' @ [CHR 0x22, NL]) [T (takeWhile (\<lambda>c. c \<noteq> NUL) (rdata r))]) \<and>
    (ret r = -1 \<and> eno r = Some EINTR \<longrightarrow> (\<exists>x. out = Stop x \<and> failing x)) \<and>
    (ret r = 4096 \<or> ret r = -1 \<and> eno r \<noteq> Some EINTR \<longrightarrow> (\<exists>why. out = Stop (Undefined why)))"
proof -
  let ?R = "\<lambda>out s'. (0 \<le> ret r \<and> ret r < 4096 \<longrightarrow> out = Ok () \<and>
      last (trace s') = Out (''input is '' @ [CHR 0x22] @ ''%s'' @ [CHR 0x22, NL]) [T (takeWhile (\<lambda>c. c \<noteq> NUL) (rdata r))]) \<and>
    (ret r = -1 \<and> eno r = Some EINTR \<longrightarrow> (\<exists>x. out = Stop x \<and> failing x)) \<and>
    (ret r = 4096 \<or> ret r = -1 \<and> eno r \<noteq> Some EINTR \<longrightarrow> (\<exists>why. out = Stop (Undefined why)))"
  let ?k = "bind (read_into 0 (uninit read_limit) 0 read_limit) (\<lambda>(cnt, buf).
     seq (sys (Sys ''alarm'' [N 0]))
     (bind (gets errno) (\<lambda>e.
     seq (only_if (cnt = -1 \<and> e = EINTR) (errExit ''read() has been failed by timer.'' []))
     (bind (put_nul buf cnt) (\<lambda>buf.
     bind (load_string buf) (\<lambda>t.
     printf (''input is '' @ [CHR 0x22] @ ''%s'' @ [CHR 0x22, NL]) [T t]))))))"
  have k: "wp ?k ?R s1" if "replies s1 = r # l # rs" for s1 :: "'a proc_scheme"
  proof (cases "ret r = -1")
    case True
    with assms(4,6) that show ?thesis
      by (auto simp: wp_rules wp_read_into wp_put_nul wp_errExit [OF cformat_plain] split: option.splits cong: wp_cong)
  next
    case False
    with assms(6) have r: "0 \<le> ret r" "ret r \<le> 4096" "ret r = int (length (rdata r))" by auto
    then obtain b1 where b1: "poke (uninit 4096) 0 (rdata r) = Some b1" "length b1 = 4096"
      using poke_start [of "rdata r" "uninit 4096"] by auto
    show ?thesis
    proof (cases "ret r = 4096")
      case True
      with b1 that r show ?thesis
        by (simp add: wp_rules wp_read_into wp_put_nul read_limit_def poke_def cong: wp_cong)
    next
      case full: False
      with b1 r obtain b2 where b2: "poke b1 (length (rdata r)) [NUL] = Some b2"
        by (auto simp: poke_def)
      from terminated_whole [OF b1(1) b2] b1 b2 that r full show ?thesis
        by (simp add: wp_rules wp_read_into wp_put_nul read_limit_def cong: wp_cong)
    qed
  qed
  have "wp timer_sync_expire ?R s"
    unfolding timer_sync_expire_def
    using assms(1-3)
    by (simp add: wp_rules cong: wp_cong) (rule wp_on_expiry [OF assms(5)], simp only: outcome.case, rule k, simp)
  from wpD [OF this assms(7)] show ?thesis .
qed

theorem timer_sync_expire_result_witness:
  "fst (timer_sync_expire (boot [r_ok 0, r_ok 0, sig_reply [14], r_fail EINTR, r_ok 0])) = Stop (Exited 1)"
proof -
  let ?s = "boot [r_ok 0, r_ok 0, sig_reply [14], r_fail EINTR, r_ok 0]"
  have m: "timer_sync_expire ?s = (fst (timer_sync_expire ?s), snd (timer_sync_expire ?s))" by simp
  have r: "replies ?s = r_ok 0 # r_ok 0 # sig_reply [14] # r_fail EINTR # r_ok 0 # []" by (simp add: boot_def)
  have "\<exists>x. fst (timer_sync_expire ?s) = Stop x \<and> failing x"
    using timer_sync_expire_result [OF r _ _ _ _ _ m] by (simp add: r_ok_def r_fail_def sig_reply_def SIGALRM_def)
  moreover have "fst (timer_sync_expire ?s) \<noteq> Stop (QuickExited EXIT_FAILURE) \<and> fst (timer_sync_expire ?s) \<noteq> Stop Aborted"
    by code_simp
  ultimately show ?thesis by (auto simp: failing_def EXIT_FAILURE_def)
qed

definition fd_over :: "unit outcome \<Rightarrow> event list \<Rightarrow> bool" where
  "fd_over out es \<longleftrightarrow> (\<forall>u. out \<noteq> Ok u) \<and> printed (''total_expire_cnt = %lu'' @ [NL]) es = [] \<and>
    (\<forall>fd r. Did (Read fd 8) r \<in> set es \<longrightarrow> ret r = 8 \<longrightarrow> (\<exists>why. out = Stop (Undefined why)))"

lemma traced_fd_round:
  "traced legal (fd_round t (0, uninit 4)) (\<lambda>out es. case out of Ok _ \<Rightarrow> False | Stop x \<Rightarrow> fd_over (Stop x) es)"
proof (rule traced_wp_if)
  fix s :: "'a proc_scheme"
  have p: "length bs = 8 \<Longrightarrow> poke (uninit 4) 0 bs = None" for bs by (simp add: poke_def)
  show "wp (fd_round t (0, uninit 4)) (\<lambda>out s'. \<exists>es. trace s' = trace s @ es \<and>
      (list_all legal es \<longrightarrow> (case out of Ok _ \<Rightarrow> False | Stop x \<Rightarrow> fd_over (Stop x) es))) s"
    unfolding fd_round_def
    by (auto simp: wp_rules wp_read_into wp_errExit [OF cformat_plain] max_expire_cnt_def fd_over_def p
      split: list.splits option.splits cong: wp_cong)
qed

lemma tame_fd_round: "tame (fd_round t st)"
  unfolding fd_round_def by (cases st) (auto intro!: tame_rules)

lemma consumes_fd_round: "consumes (fd_round t st)"
  unfolding fd_round_def
  by (cases st) (auto intro!: consumes_if progress_rules tame_rules)

lemma traced_fd_loop: "traced legal (loop (fd_round t) (0, uninit 4)) fd_over"
proof (rule traced_loop [where I = "\<lambda>st es. st = (0, uninit 4) \<and> es = []"])
  fix st :: "int \<times> cbuf" and es :: "event list"
  assume "st = (0, uninit 4) \<and> es = []"
  then show "traced legal (fd_round t st) (\<lambda>out fs. case out of
      Ok (Inl st') \<Rightarrow> st' = (0, uninit 4) \<and> es @ fs = [] | Ok (Inr b) \<Rightarrow> fd_over (Ok b) (es @ fs)
    | Stop x \<Rightarrow> fd_over (Stop x) (es @ fs))"
    by (auto intro!: traced_mono [OF traced_fd_round] split: outcome.splits)
qed (simp_all add: tame_fd_round consumes_fd_round)

lemma fd_over_calls:
  "fd_over out es \<Longrightarrow> list_all (\<lambda>e. \<forall>fd. \<forall>r. e \<noteq> Did (Read fd 8) r) ds \<Longrightarrow> printed (''total_expire_cnt = %lu'' @ [NL]) ds = [] \<Longrightarrow>
    fd_over out (ds @ es)"
  by (auto simp: fd_over_def list_all_iff)

text \<open>The first successful read of \<open>timer_advanced_fd\<close> stores the eight bytes of the counter in an
  object of four: it never gets to its first line of output, and it never returns.\<close>

theorem timer_fd_overflows:
  assumes "timer_advanced_fd s = (out, s')" "trace s' = trace s @ es" "list_all legal es"
  shows "(\<forall>u. out \<noteq> Ok u) \<and> printed (''total_expire_cnt = %lu'' @ [NL]) es = [] \<and>
    (\<forall>fd r. Did (Read fd 8) r \<in> set es \<longrightarrow> ret r = 8 \<longrightarrow> (\<exists>why. out = Stop (Undefined why)))"
proof -
  have "traced legal timer_advanced_fd fd_over"
  proof (rule traced_wp_if)
    fix s :: "'b proc_scheme"
    have loops: "wp (loop (fd_round t) (0, uninit 4)) (\<lambda>out s'. \<exists>es. trace s' = trace s @ es \<and> (list_all legal es \<longrightarrow> fd_over out es)) s1"
      if "trace s1 = trace s @ ds" "list_all (\<lambda>e. \<forall>fd. \<forall>r. e \<noteq> Did (Read fd 8) r) ds" "printed (''total_expire_cnt = %lu'' @ [NL]) ds = []"
      for t ds and s1 :: "'b proc_scheme"
    proof (rule wp_mono [OF traced_wp [OF traced_fd_loop tame_loop [OF tame_fd_round]]])
      fix out s'
      assume "\<exists>es. trace s' = trace s1 @ es \<and> (list_all legal es \<longrightarrow> fd_over out es)"
      then obtain es where "trace s' = trace s1 @ es" "list_all legal es \<longrightarrow> fd_over out es" by blast
      with that(1) fd_over_calls [OF _ that(2,3)]
      show "\<exists>es. trace s' = trace s @ es \<and> (list_all legal es \<longrightarrow> fd_over out es)"
        by (intro exI [of _ "ds @ es"]) auto
    qed
    show "wp timer_advanced_fd (\<lambda>out s'. \<exists>es. trace s' = trace s @ es \<and> (list_all legal es \<longrightarrow> fd_over out es)) s"
      unfolding timer_advanced_fd_def
      by (auto simp: wp_rules fd_over_def split: list.splits cong: wp_cong intro!: loops)
  qed
  from tracedD [OF this assms] show ?thesis by (simp add: fd_over_def)
qed

theorem timer_fd_overflows_witness:
  "\<exists>why. fst (timer_advanced_fd (boot [r_ok 3, r_ok 0, r_got (replicate 8 (CHR 0x01))])) = Stop (Undefined why)"
proof -
  let ?s = "boot [r_ok 3, r_ok 0, r_got (replicate 8 (CHR 0x01))]"
  have m: "timer_advanced_fd ?s = (fst (timer_advanced_fd ?s), snd (timer_advanced_fd ?s))" by simp
  have e: "trace (snd (timer_advanced_fd ?s)) = trace ?s @ trace (snd (timer_advanced_fd ?s))" by (simp add: boot_def)
  have t: "trace (snd (timer_advanced_fd ?s)) = [Did (Sys ''timerfd_create'' [N 0, N 0]) (r_ok 3),
    Did (Sys ''timerfd_settime'' [N 3, N 0, N 1, N 0, N 1, N 0]) (r_ok 0), Did (Read 3 8) (r_got (replicate 8 (CHR 0x01)))]"
    by code_simp
  have k: "list_all legal (trace (snd (timer_advanced_fd ?s)))" unfolding t by (simp add: r_got_def r_ok_def)
  from timer_fd_overflows [OF m e k] t show ?thesis by (auto simp: r_got_def)
qed

end
