(* ===== verification/Api3Signal.thy ===== *)
theory Api3Signal
  imports Signals
begin

text \<open>
  \<open>api3/signal_example.c\<close>: handlers installed with \<open>signal\<close> and \<open>sigaction\<close>, blocked signals, and a
  critical section that ends in \<open>sigsuspend\<close>. Delivery is as in \<open>Signals\<close>.
\<close>

subsection \<open>The programs\<close>

text \<open>\<open>sys_siglist[sig]\<close>: the table belongs to the C library.\<close>

definition siglist :: "int \<Rightarrow> ('m, string) prog" where
  "siglist sig = bind (sys (Sys ''sys_siglist'' [N sig])) (\<lambda>r. return (out_str r 0))"

definition signal_handler :: "int \<Rightarrow> ('m, unit) prog" where
  "signal_handler signo =
     only_if (signo = SIGINT)
       (bind getpid (\<lambda>p.
        bind (siglist SIGINT) (\<lambda>t.
        printf (''pid = %d, caught signal = %s'' @ [NL]) [N p, T t])))"

text \<open>A process that handles \<open>SIGINT\<close>, ignores \<open>SIGQUIT\<close> if told to, and has default actions otherwise.\<close>

definition take_sigint :: "bool \<Rightarrow> int \<Rightarrow> unit \<Rightarrow> ('m, unit) prog" where
  "take_sigint ignore_quit sig st =
     (if sig = SIGINT then signal_handler sig
      else if ignore_quit \<and> sig = SIGQUIT then skip
      else default_action sig st)"

definition signal_legacy :: "('m, unit) prog" where
  "signal_legacy =
     seq (or_errexit (Sys ''signal'' [N SIGINT, T ''signal_handler'']) ''signal'')
     (seq (or_errexit (Sys ''signal'' [N SIGQUIT, T ''SIG_IGN'']) ''signal'')
     (seq (or_errexit (Sys ''signal'' [N SIGTERM, T ''SIG_DFL'']) ''signal'')
     (pause_forever (take_sigint True) ())))"

definition signal_send :: "('m, unit) prog" where
  "signal_send =
     seq (or_errexit (Sys ''signal'' [N SIGINT, T ''signal_handler'']) ''signal'')
     (bind (sys Fork) (\<lambda>f.
     if ret f = -1 then errexit ''fork''
     else if ret f = 0 then
       bind getpid (\<lambda>p.
       seq (printf (''child = %d'' @ [NL]) [N p])
       (seq (catching (take_sigint False) (Sys ''pause'' []) ())
       skip))
     else
       bind getpid (\<lambda>p.
       seq (printf (''parent = %d'' @ [NL]) [N p])
       (seq (catching (take_sigint False) (Sys ''sleep'' [N 5]) ())
       (seq (or_errexit (Sys ''kill'' [N (ret f), N SIGINT]) ''kill'')
       (seq (or_errexit (Sys ''waitpid'' [N (ret f), N 0]) ''waitpid'')
       (seq (catching (take_sigint False) (Sys ''raise'' [N SIGINT]) ())
       skip)))))))"

text \<open>Signal sets are sets of signal numbers.\<close>

definition sigfillset :: "int set" where
  "sigfillset = set [1..NSIG - 1]"

definition signal_helper :: "('m, unit) prog" where
  "signal_helper =
     (let s = ({} :: int set); s = insert SIGINT s; s = s - {SIGINT}; s = sigfillset in
      only_if (SIGINT \<in> s) (printf (''SIGINT is included in set'' @ [NL]) []))"

definition signal_block :: "('m, unit) prog" where
  "signal_block =
     seq (or_errexit (Sys ''sigprocmask'' [N SIG_SETMASK, N SIGINT]) ''sigprocmask'')
     (seq (catching default_action (Sys ''pause'' []) ())
     skip)"

text \<open>The handler clears the global variable \<open>count\<close>.\<close>

definition signal_handler_sigint :: "int \<Rightarrow> int \<Rightarrow> ('m, int) prog" where
  "signal_handler_sigint signo count =
     (if signo = SIGINT then
        bind getpid (\<lambda>p.
        bind (siglist SIGINT) (\<lambda>t.
        seq (printf (''pid = %d, caught signal = %s'' @ [NL]) [N p, T t])
        (return 0)))
      else default_action signo count)"

text \<open>All signals are blocked from the first \<open>sigprocmask\<close> to \<open>sigsuspend\<close>.\<close>

definition signal_suspend :: "('m, unit) prog" where
  "signal_suspend =
     seq (or_errexit (Sys ''sigprocmask'' [N SIG_SETMASK, T ''set'']) ''sigprocmask'')
     (seq (or_errexit (Sys ''signal'' [N SIGINT, T ''signal_handler_sigint'']) ''signal'')
     (bind (fold_each [0..4] (\<lambda>i count.
        seq (printf (''critical section ... %d'' @ [NL]) [N i])
        (seq (sleep 1) (return i))) 0) (\<lambda>count.
     bind (catching signal_handler_sigint (Sys ''sigsuspend'' [T ''oldset'']) count) (\<lambda>(r, count).
     seq (only_if (ret r = -1) (errexit ''sigsuspend''))
     (seq (or_errexit (Sys ''sigprocmask'' [N SIG_SETMASK, T ''oldset'']) ''sigprocmask()'')
     skip)))))"

text \<open>\<open>si_code\<close> and \<open>si_value\<close> are the integers of a reply.\<close>

definition signal_handler_adv :: "int \<Rightarrow> unit \<Rightarrow> ('m, unit) prog" where
  "signal_handler_adv sig st =
     bind (sys (Sys ''siginfo'' [N sig])) (\<lambda>si.
     bind (siglist sig) (\<lambda>t.
     seq (printf (''caught signal = %s'' @ [NL]) [T t])
     (seq (printf (''signal code = %d'' @ [NL]) [N (out_int si 0)])
     (only_if (out_int si 0 = SI_QUEUE) (printf (''sig_val = %d'' @ [NL]) [N (out_int si 1)])))))"

definition take_sigusr1 :: "int \<Rightarrow> unit \<Rightarrow> ('m, unit) prog" where
  "take_sigusr1 sig st = (if sig = SIGUSR1 then signal_handler_adv sig st else default_action sig st)"

definition signal_sigaction :: "('m, unit) prog" where
  "signal_sigaction =
     seq (or_errexit (Sys ''sigaction'' [N SIGUSR1, T ''signal_handler_adv'', N SA_SIGINFO]) ''sigaction'')
     (bind getpid (\<lambda>p.
     bind (catching take_sigusr1 (Sys ''sigqueue'' [N p, N SIGUSR1, N 100]) ()) (\<lambda>(q, _).
     seq (only_if (ret q = -1) (errexit ''sigqueue''))
     (bind (catching take_sigusr1 (Sys ''sigprocmask'' [N SIG_SETMASK, N NULL]) ()) (\<lambda>(m, _).
     seq (only_if (ret m = -1) (errexit ''sigprocmask''))
     (bind (catching take_sigusr1 (Sys ''sigsuspend'' [T ''oldset'']) ()) (\<lambda>(r, _).
     only_if (ret r = -1) (errexit ''sigsuspend''))))))))"

subsection \<open>\<open>sigsuspend\<close> always answers -1\<close>

definition suspend_env :: "event \<Rightarrow> bool" where
  "suspend_env e = (case e of Did (Sys c as) r \<Rightarrow> c = ''sigsuspend'' \<longrightarrow> ret r = -1 | _ \<Rightarrow> True)"

lemma tame_handlers:
  "tame (signal_handler_sigint sig count)" "tame (take_sigusr1 sig st)"
  unfolding signal_handler_sigint_def take_sigusr1_def signal_handler_adv_def siglist_def getpid_def default_action_def
  by (intro tame_rules)+

interpretation sigint: handling signal_handler_sigint UNIV suspend_env "\<lambda>_ _ _. True"
  by unfold_locales (auto simp: traced_def tame_handlers)

interpretation sigusr1: handling take_sigusr1 UNIV suspend_env "\<lambda>_ _ _. True"
  by unfold_locales (auto simp: traced_def tame_handlers)

lemma traced_any: "traced K m (\<lambda>_ _. True)"
  by (simp add: traced_def)

lemma traced_check_never: "traced K (seq (only_if True (errexit t)) n) (\<lambda>out _. \<forall>v. out \<noteq> Ok v)"
  by (auto simp: traced_def ok_simps)

text \<open>Behind a wait that cannot succeed, nothing of the program is reached.\<close>

lemma suspend_step:
  fixes h :: "int \<Rightarrow> 'st \<Rightarrow> ('m, 'st) prog"
  assumes "handling h UNIV suspend_env (\<lambda>_ _ _. True)"
    and n: "\<And>v. tame (n v)"
  shows "traced suspend_env (bind (catching h (Sys ''sigsuspend'' as) st) (\<lambda>(r, v).
      seq (only_if (ret r = -1) (errexit t)) (n v))) (\<lambda>out _. \<forall>v. out \<noteq> Ok v)"
proof (rule traced_bind [OF handling.traced_catching [OF assms(1)] handling.tame_catching [OF assms(1)]])
  show "tame (case a of (r, v) \<Rightarrow> seq (only_if (ret r = -1) (errexit t)) (n v))" for a
    using n by (intro tame_rules)
next
  fix a :: "reply \<times> 'st" and es
  assume "case Ok a of Ok (r, st') \<Rightarrow> True \<and> suspend_env (Did (Sys ''sigsuspend'' as) r) | Stop x \<Rightarrow> True"
  then show "traced suspend_env (case a of (r, v) \<Rightarrow> seq (only_if (ret r = -1) (errexit t)) (n v))
      (\<lambda>out fs. \<forall>v. out \<noteq> Ok v)"
    by (cases a) (auto simp: suspend_env_def traced_check_never)
qed simp

lemma traced_then:
  "tame m \<Longrightarrow> (\<And>a. tame (f a)) \<Longrightarrow> (\<And>a. traced K (f a) (\<lambda>out _. \<forall>v. out \<noteq> Ok v)) \<Longrightarrow>
    traced K (bind m f) (\<lambda>out _. \<forall>v. out \<noteq> Ok v)"
  "tame m \<Longrightarrow> tame n \<Longrightarrow> traced K n (\<lambda>out _. \<forall>v. out \<noteq> Ok v) \<Longrightarrow>
    traced K (seq m n) (\<lambda>out _. \<forall>v. out \<noteq> Ok v)"
  unfolding seq_def by (rule traced_bind [OF traced_any]; simp)+

lemma seq_skip: "seq m skip = (m :: ('m, unit) prog)"
  by (rule ext) (simp add: seq_def skip_def bind_def return_def split: prod.splits outcome.splits)

lemmas api3_tame = tame_rules tame_handlers sigint.tame_catching sigusr1.tame_catching

lemma traced_suspend: "traced suspend_env signal_suspend (\<lambda>out _. \<forall>v. out \<noteq> Ok v)"
  unfolding signal_suspend_def sleep_def
  by (intro traced_then suspend_step sigint.handling_axioms api3_tame)

lemma traced_split: "(\<And>x y. traced K (f x y) Q) \<Longrightarrow> traced K (case a of (x, y) \<Rightarrow> f x y) Q"
  by (cases a) simp

lemma traced_sigaction: "traced suspend_env signal_sigaction (\<lambda>out _. \<forall>v. out \<noteq> Ok v)"
proof -
  have "traced suspend_env (bind (catching take_sigusr1 (Sys ''sigsuspend'' [T ''oldset'']) ()) (\<lambda>(r, v).
      seq (only_if (ret r = -1) (errexit ''sigsuspend'')) skip)) (\<lambda>out _. \<forall>v. out \<noteq> Ok v)"
    by (intro suspend_step sigusr1.handling_axioms api3_tame)
  note last = this [unfolded seq_skip]
  show ?thesis
    unfolding signal_sigaction_def getpid_def
    by (rule traced_then traced_split last api3_tame)+
qed

text \<open>\<open>signal_suspend\<close> and \<open>signal_sigaction\<close> of \<open>api3\<close> never return: \<open>sigsuspend\<close> answers -1 when the
  signal it waits for has been handled, and both take that for an error. The signal mask is not
  restored.\<close>

theorem suspends_never_return:
  assumes "p = signal_suspend \<or> p = signal_sigaction"
    and "p s = (out, s')" "trace s' = trace s @ es" "list_all suspend_env es"
  shows "\<exists>x. out = Stop x"
  using tracedD [OF traced_suspend _ assms(3,4)] tracedD [OF traced_sigaction _ assms(3,4)] assms(1,2)
  by (cases out) auto

theorem suspends_never_return_witness:
  "\<exists>x. fst (signal_suspend (boot ([r_ok 0, r_ok 0] @ replicate 5 (r_ok 0) @ [sig_reply [2], r_ok 7, r_ok 0, r_fail EINTR]))) = Stop x"
proof -
  let ?s = "boot ([r_ok 0, r_ok 0] @ replicate 5 (r_ok 0) @ [sig_reply [2], r_ok 7, r_ok 0, r_fail EINTR])"
  let ?run = "signal_suspend ?s"
  have m: "?run = (fst ?run, snd ?run)" by simp
  have e: "trace (snd ?run) = trace ?s @ trace (snd ?run)" by (simp add: boot_def)
  have k: "list_all suspend_env (trace (snd ?run))" by code_simp
  from suspends_never_return [of signal_suspend, OF _ m e k] show ?thesis by blast
qed

end
