(* ===== verification/Api3Time.thy ===== *)
theory Api3Time
  imports Timers Api3Signal
begin

text \<open>
  Time and timers of \<open>api3\<close> (\<open>time_format.c\<close>, \<open>time_sleep.c\<close>, \<open>timer_example.c\<close>) and
  \<open>LinuxAPI/time_func.c\<close>. Times the library converts (\<open>localtime\<close>, \<open>mktime\<close>) depend on the time zone
  and are replies; \<open>asctime\<close> is the algorithm of the C standard.
\<close>

subsection \<open>Reading and setting the time\<close>

definition get_time :: "('m, unit) prog" where
  "get_time =
     bind (or_errexit (Sys ''time'' []) ''time'') (\<lambda>t.
     seq (printf (''sec = %ld'' @ [NL]) [N (ret t)])
     (bind (or_errexit (Sys ''gettimeofday'' [N NULL]) ''gettimeofday'') (\<lambda>tv.
     seq (printf (''sec = %ld'' @ [NL]) [N (out_int tv 0)])
     (seq (printf (''usec = %ld'' @ [NL]) [N (out_int tv 1)])
     (for_each [CLOCK_REALTIME, CLOCK_MONOTONIC] (\<lambda>clk.
        bind (or_errexit (Sys ''clock_gettime'' [N clk]) ''clock_gettime'') (\<lambda>ts.
        seq (printf (''sec = %ld'' @ [NL]) [N (out_int ts 0)])
        (printf (''nsec = %ld'' @ [NL]) [N (out_int ts 1)]))))))))"

definition set_time :: "('m, unit) prog" where
  "set_time = seq (or_errexit (Sys ''stime'' [N 1]) ''stime'') skip"

subsection \<open>Broken-down time\<close>

record tm =
  tm_sec :: int
  tm_min :: int
  tm_hour :: int
  tm_mday :: int
  tm_mon :: int
  tm_year :: int
  tm_wday :: int

definition pad_left :: "char \<Rightarrow> nat \<Rightarrow> string \<Rightarrow> string" where
  "pad_left c n t = replicate (n - length t) c @ t"

definition wday_names :: "string list" where
  "wday_names = [''Sun'', ''Mon'', ''Tue'', ''Wed'', ''Thu'', ''Fri'', ''Sat'']"

definition mon_names :: "string list" where
  "mon_names = [''Jan'', ''Feb'', ''Mar'', ''Apr'', ''May'', ''Jun'', ''Jul'', ''Aug'', ''Sep'', ''Oct'', ''Nov'', ''Dec'']"

text \<open>\<open>asctime\<close> has no result for members outside their range.\<close>

definition asctime :: "tm \<Rightarrow> string option" where
  "asctime t =
     (if 0 \<le> tm_wday t \<and> tm_wday t \<le> 6 \<and> 0 \<le> tm_mon t \<and> tm_mon t \<le> 11 \<and> 1 \<le> tm_mday t \<and> tm_mday t \<le> 31 \<and>
         0 \<le> tm_hour t \<and> tm_hour t \<le> 23 \<and> 0 \<le> tm_min t \<and> tm_min t \<le> 59 \<and> 0 \<le> tm_sec t \<and> tm_sec t \<le> 60 \<and>
         0 \<le> tm_year t + 1900 \<and> tm_year t + 1900 \<le> 9999
      then Some (wday_names ! nat (tm_wday t) @ '' '' @ mon_names ! nat (tm_mon t) @
        pad_left (CHR '' '') 3 (show_int (tm_mday t)) @ '' '' @
        pad_left (CHR ''0'') 2 (show_int (tm_hour t)) @ '':'' @ pad_left (CHR ''0'') 2 (show_int (tm_min t)) @ '':'' @
        pad_left (CHR ''0'') 2 (show_int (tm_sec t)) @ '' '' @ show_int (tm_year t + 1900) @ [NL])
      else None)"

definition tm_zero :: tm where
  "tm_zero = \<lparr>tm_sec = 0, tm_min = 0, tm_hour = 0, tm_mday = 0, tm_mon = 0, tm_year = 0, tm_wday = 0\<rparr>"

text \<open>The members a conversion stores, in the order of \<open>struct tm\<close>; a null pointer is no reply.\<close>

definition tm_of :: "reply \<Rightarrow> tm option" where
  "tm_of r =
     (case rints r of
        [s, mi, h, d, mo, y, w] \<Rightarrow>
          Some \<lparr>tm_sec = s, tm_min = mi, tm_hour = h, tm_mday = d, tm_mon = mo, tm_year = y, tm_wday = w\<rparr>
      | _ \<Rightarrow> None)"

definition print_tm :: "tm \<Rightarrow> ('m, unit) prog" where
  "print_tm t =
     printf (''year=%d, month=%d, day=%d, hour=%d, minute=%d, second=%d'' @ [NL])
       [N (tm_year t + 1900), N (tm_mon t), N (tm_mday t), N (tm_hour t), N (tm_min t), N (tm_sec t)]"

definition convert_time :: "string \<Rightarrow> int \<Rightarrow> ('m, tm) prog" where
  "convert_time name t = bind (sys (Sys name [N t])) (\<lambda>r. require (tm_of r) ''null pointer'')"

definition c_string_result :: "string \<Rightarrow> carg list \<Rightarrow> ('m, string) prog" where
  "c_string_result name as =
     bind (sys (Sys name as)) (\<lambda>r. require (case rstrs r of [t] \<Rightarrow> Some t | _ \<Rightarrow> None) ''null pointer'')"

definition the_date :: tm where
  "the_date = tm_zero\<lparr>tm_year := 2016 - 1900, tm_mon := 7, tm_mday := 26, tm_hour := 15, tm_min := 0, tm_sec := 0\<rparr>"

text \<open>\<open>gmtime\<close> and \<open>localtime\<close> may return the same object: \<open>tm_utc\<close> is then overwritten by the second
  call. The reply of \<open>localtime\<close> says with its result whether it did.\<close>

definition time_format :: "('m, unit) prog" where
  "time_format =
     bind (sys (Sys ''time'' [N NULL])) (\<lambda>t.
     bind (c_string_result ''ctime'' [N (ret t)]) (\<lambda>c.
     seq (printf ''%s'' [T c])
     (bind (convert_time ''gmtime'' (ret t)) (\<lambda>utc.
     bind (sys (Sys ''localtime'' [N (ret t)])) (\<lambda>l.
     bind (require (tm_of l) ''null pointer'') (\<lambda>loc.
     seq (print_tm (if ret l = 1 then loc else utc))
     (seq (print_tm loc)
     (bind (require (asctime the_date) ''asctime'') (\<lambda>a.
     seq (printf ''%s'' [T a])
     (bind (sys (Sys ''mktime'' [])) (\<lambda>m.
     printf (''tm to time_t = %ld'' @ [NL]) [N (ret m)])))))))))))"

subsection \<open>Sleeping\<close>

definition sleep_handler :: "int \<Rightarrow> unit \<Rightarrow> ('m, unit) prog" where
  "sleep_handler sig st =
     bind (sys (Sys ''siginfo'' [N sig])) (\<lambda>si.
     bind (siglist sig) (\<lambda>t.
     seq (printf (''caught signal = %s'' @ [NL]) [T t])
     (printf (''signal code = %d'' @ [NL]) [N (out_int si 0)])))"

text \<open>The remaining time is stored when a signal interrupted the sleep. \<open>perror\<close> may change \<open>errno\<close>
  before it is tested.\<close>

definition time_sleep :: "('m, unit) prog" where
  "time_sleep =
     seq (or_errexit (Sys ''sigaction'' [N SIGINT, T ''signal_handler_adv'', N SA_SIGINFO]) ''sigaction'')
     (bind (catching (taking [SIGINT] sleep_handler) (Sys ''sleep'' [N 10]) ()) (\<lambda>(r, _).
     seq (printf (''remain = %d'' @ [NL]) [N (ret r)])
     (bind (catching (taking [SIGINT] sleep_handler) (Sys ''nanosleep'' [N 10, N 0]) ()) (\<lambda>(n, _).
     seq (only_if (ret n = -1)
       (seq (perror ''nanosleep'')
       (bind (gets errno) (\<lambda>e.
        only_if (e = EINTR)
          (bind (require (if eno n = Some EINTR then Some (out_int n 0, out_int n 1) else None) ''uninitialised rem'')
            (\<lambda>(sec, nsec).
             seq (printf (''remain sec = %ld'' @ [NL]) [N sec])
             (printf (''remain nsec = %ld'' @ [NL]) [N nsec])))))))
     (seq (catching (taking [SIGINT] sleep_handler) (Sys ''select'' [N 0, N NULL, N NULL, N NULL, N 10, N 500]) ())
     skip)))))"

definition time_clock_nanosleep :: "('m, unit) prog" where
  "time_clock_nanosleep =
     seq (or_errexit (Sys ''clock_nanosleep'' [N CLOCK_REALTIME, N 0, N 1, N 500000000]) ''clock_nanosleep'')
     (bind (or_errexit (Sys ''clock_gettime'' [N CLOCK_MONOTONIC]) ''clock_gettime'') (\<lambda>ts.
     seq (or_errexit (Sys ''clock_nanosleep'' [N CLOCK_MONOTONIC, N TIMER_ABSTIME, N (out_int ts 0 + 1), N (out_int ts 1)])
            ''clock_nanosleep'')
     skip))"

subsection \<open>Timers\<close>

definition SI_KERNEL :: int where "SI_KERNEL = 128"
definition SI_MESGQ :: int where "SI_MESGQ = -3"
definition SI_TIMER :: int where "SI_TIMER = -2"
definition SI_SIGIO :: int where "SI_SIGIO = -5"

definition code_name :: "int \<Rightarrow> string option" where
  "code_name c =
     (if c = SI_KERNEL then Some ''(SI_KERNEL)'' else if c = SI_MESGQ then Some ''(SI_MESGQ)''
      else if c = SI_QUEUE then Some ''(SI_QUEUE)'' else if c = SI_USER then Some ''(SI_USER)''
      else if c = SI_TIMER then Some ''(SI_TIMER)'' else if c = SI_SIGIO then Some ''(SI_SIGIO)'' else None)"

text \<open>\<open>siginfo_t\<close>: the code, \<open>si_value.sival_ptr\<close>, and the integer behind the pointer, if it points to one.\<close>

definition timer_handler :: "int \<Rightarrow> unit \<Rightarrow> ('m, unit) prog" where
  "timer_handler sig st =
     bind (sys (Sys ''siginfo'' [N sig])) (\<lambda>si.
     bind (siglist sig) (\<lambda>t.
     seq (printf (''caught signal = %s'' @ [NL]) [T t])
     (seq (printf ''signal code = %d'' [N (out_int si 0)])
     (seq (case code_name (out_int si 0) of Some n \<Rightarrow> printf (n @ [NL]) [] | None \<Rightarrow> skip)
     (bind (require (if out_int si 1 = NULL then None else Some (out_int si 2)) ''null pointer'') (\<lambda>v.
     printf (''sig_val = %d'' @ [NL]) [N v]))))))"

definition timer_example_alarm :: "('m, unit) prog" where
  "timer_example_alarm =
     seq (or_errexit (Sys ''sigaction'' [N SIGALRM, T ''signal_handler_adv'', N SA_SIGINFO]) ''sigaction'')
     (seq (catching (taking [SIGALRM] timer_handler) (Sys ''alarm'' [N 2]) ())
     (seq (catching (taking [SIGALRM] timer_handler) (Sys ''pause'' []) ())
     skip))"

definition timer_example_setitimer :: "('m, unit) prog" where
  "timer_example_setitimer =
     seq (or_errexit (Sys ''sigaction'' [N SIGALRM, T ''signal_handler_adv'', N SA_SIGINFO]) ''sigaction'')
     (seq (or_errexit (Sys ''setitimer'' [N ITIMER_REAL, N 1, N 0, N 5, N 0]) ''setitimer'')
     (seq (for_each [0..<5] (\<lambda>i. seq (catching (taking [SIGALRM] timer_handler) (Sys ''pause'' []) ()) skip))
     (bind (catching (taking [SIGALRM] timer_handler) (Sys ''setitimer'' [N ITIMER_REAL, N 1, N 0, N 0, N 0]) ()) (\<lambda>(r, _).
     only_if (ret r = -1) (errexit ''setitimer'')))))"

definition timer_example_settime_signal :: "('m, unit) prog" where
  "timer_example_settime_signal =
     seq (or_errexit (Sys ''sigaction'' [N SIGUSR1, T ''signal_handler_adv'', N SA_SIGINFO]) ''sigaction'')
     (bind (or_errexit (Sys ''timer_create'' [N CLOCK_REALTIME, N SIGEV_SIGNAL, N SIGUSR1]) ''timer_create'') (\<lambda>t.
     let timer = out_int t 0 in
     seq (or_errexit (Sys ''timer_settime'' [N timer, N 0, N 1, N 0, N 5, N 0]) ''timer_settime'')
     (seq (for_each [0..<5] (\<lambda>i. seq (catching (taking [SIGUSR1] timer_handler) (Sys ''pause'' []) ()) skip))
     (bind (catching (taking [SIGUSR1] timer_handler) (Sys ''timer_delete'' [N timer]) ()) (\<lambda>(r, _).
     only_if (ret r = -1) (errexit ''timer_delete''))))))"

text \<open>The function run by each expiry in a thread of its own, and the loop that counts the expiries. A load
  of the shared \<open>loop_count\<close> is answered by the other threads.\<close>

definition thread_func :: "int \<Rightarrow> ('m, unit) prog" where
  "thread_func v =
     seq (printf (''timer expired, sig_val = %d'' @ [NL]) [N v])
     (seq (sys (Sys ''pthread_mutex_lock'' [T ''mtx'']))
     (seq (sys (Sys ''++'' [T ''loop_count'']))
     (seq (sys (Sys ''pthread_mutex_unlock'' [T ''mtx'']))
     (seq (sys (Sys ''pthread_cond_signal'' [T ''con''])) skip))))"

definition timer_example_settime_thread :: "('m, unit) prog" where
  "timer_example_settime_thread =
     bind (or_errexit (Sys ''timer_create'' [N CLOCK_REALTIME, N SIGEV_THREAD, T ''thread_func'']) ''timer_create'') (\<lambda>t.
     let timer = out_int t 0 in
     seq (or_errexit (Sys ''timer_settime'' [N timer, N 0, N 1, N 0, N 5, N 0]) ''timer_settime'')
     (seq (sys (Sys ''pthread_mutex_lock'' [T ''mtx'']))
     (seq (loop (\<lambda>_.
        seq (sys (Sys ''pthread_cond_wait'' [T ''con'', T ''mtx'']))
        (bind (sys (Sys ''load'' [T ''loop_count''])) (\<lambda>r.
        if ret r > 5 then leave ()
        else seq (printf (''loop_count = %d'' @ [NL]) [N (ret r)]) (again ())))) ())
     (seq (sys (Sys ''pthread_mutex_unlock'' [T ''mtx'']))
     (seq (or_errexit (Sys ''timer_delete'' [N timer]) ''timer_delete'')
     skip)))))"

subsection \<open>\<open>LinuxAPI/time_func.c\<close>\<close>

definition time_related_func :: "('m, unit) prog" where
  "time_related_func =
     bind (sys (Sys ''time'' [N NULL])) (\<lambda>t.
     seq (sys (Sys ''gettimeofday'' [N NULL]))
     (bind (c_string_result ''ctime'' [N (ret t)]) (\<lambda>c.
     seq (printf ''%s'' [T c])
     (bind (convert_time ''gmtime'' (ret t)) (\<lambda>utc.
     bind (sys (Sys ''localtime'' [N (ret t)])) (\<lambda>l.
     bind (require (tm_of l) ''null pointer'') (\<lambda>loc.
     bind (require (asctime (if ret l = 1 then loc else utc)) ''asctime'') (\<lambda>_.
     bind (c_string_result ''strftime'' [N 1000, T ''%H:%M:%S'']) (\<lambda>b.
     seq (printf (''%s'' @ [NL]) [T b])
     (bind (sys (Sys ''tzset'' [])) (\<lambda>z.
     seq (printf (''%s'' @ [NL]) [T (out_str z 0)])
     (seq (printf (''%s'' @ [NL]) [T (out_str z 1)])
     (seq (sys (Sys ''setenv'' [T ''TZ'', T '':Pacific/Auckland'', N 1]))
     (bind (sys (Sys ''time'' [N NULL])) (\<lambda>t2.
     bind (convert_time ''localtime'' (ret t2)) (\<lambda>l2.
     bind (c_string_result ''strftime'' [N 1000, T ''%c'']) (\<lambda>b.
     seq (printf (''%s'' @ [NL]) [T b])
     (seq (sys (Sys ''unsetenv'' [T ''TZ'']))
     (bind (sys (Sys ''setlocale'' [T ''LC_ALL'', T []])) (\<lambda>o1.
     seq (if ret o1 = NULL then errExit ''setlocale()'' [] else seq (sys (Sys ''setlocale'' [T ''LC_ALL'', N NULL])) skip)
     (seq (sys (Sys ''setlocale'' [T ''LC_ALL'', T ''de_DE'']))
     (seq (sys (Sys ''clock'' []))
     skip))))))))))))))))))))))"

subsection \<open>Properties\<close>

text \<open>The day of the week of a date of the Gregorian calendar, from the number of days since 1 March of the
  year 0; day 0 was a Wednesday.\<close>

definition civil_days :: "int \<Rightarrow> int \<Rightarrow> int \<Rightarrow> int" where
  "civil_days y m d =
     (let y' = (if m \<le> 2 then y - 1 else y); m' = (m + 9) mod 12 in
      365 * y' + y' div 4 - y' div 100 + y' div 400 + (153 * m' + 2) div 5 + d - 1)"

definition weekday :: "int \<Rightarrow> int \<Rightarrow> int \<Rightarrow> int" where
  "weekday y m d = (civil_days y m d + 3) mod 7"

lemma weekday_epoch: "weekday 1970 1 1 = 4"
  by (simp add: weekday_def civil_days_def Let_def)

text \<open>\<open>time_format\<close> prints the date it has put together as a Sunday: \<open>tm_wday\<close> was cleared and \<open>asctime\<close> does
  not compute it. The day was a Friday.\<close>

lemma time_format_weekday:
  "asctime the_date = Some (''Sun Aug 26 15:00:00 2016'' @ [NL]) \<and> wday_names ! nat (weekday 2016 8 26) = ''Fri''"
  by code_simp

end
