(* ===== verification/ProcessControl.thy ===== *)
theory ProcessControl
  imports Signals
begin

text \<open>
  Processes seen from inside: \<open>api3/process_manage.c\<close>, \<open>api3/process_manage_adv.c\<close> and the files
  \<open>process_func.c\<close>, \<open>process_exit.c\<close>, \<open>process_env.c\<close>, \<open>process_clone.c\<close>, \<open>process_priority.c\<close> and
  \<open>process_resources.c\<close> of \<open>LinuxAPI\<close>.
\<close>

subsection \<open>Creating processes (\<open>api3\<close>)\<close>

definition WEXITSTATUS :: "int \<Rightarrow> int" where "WEXITSTATUS st = (st div 256) AND 255"
definition WSTOPSIG :: "int \<Rightarrow> int" where "WSTOPSIG st = WEXITSTATUS st"

text \<open>\<open>execve\<close> returns only when it fails.\<close>

definition print_status :: "int \<Rightarrow> ('m, unit) prog" where
  "print_status st =
     seq (only_if (WIFEXITED st) (printf (''Normal termination with exit status = %d'' @ [NL]) [N (WEXITSTATUS st)]))
     (seq (only_if (WIFSIGNALED st) (printf (''Killed by signal = %d'' @ [NL]) [N (WTERMSIG st)]))
     (seq (only_if (WIFSTOPPED st) (printf (''Stopped by signal = %d'' @ [NL]) [N (WSTOPSIG st)]))
     (only_if (WIFCONTINUED st) (printf (''Continued'' @ [NL]) []))))"

definition fork_exec_wait :: "('m, unit) prog" where
  "fork_exec_wait =
     bind (sys Fork) (\<lambda>f.
     if ret f = -1 then errexit ''fork''
     else if ret f = 0 then
       bind (sys (Sys ''getpid'' [])) (\<lambda>p.
       bind (sys (Sys ''getppid'' [])) (\<lambda>q.
       seq (printf (''pid = %d, ppid = %d'' @ [NL]) [N (ret p), N (ret q)])
       (bind (sys (Sys ''execve'' [T ''/usr/bin/vi'', T ''/usr/bin/vi'', T ''test'', T ''ENV1=AHNMH'', T ''ENV2=SAMSUNG'', T ''ENV3=IOT'']))
         (\<lambda>r. if ret r = -1 then errexit ''execve'' else stop (Exited (ret r))))))
     else
       bind (or_errexit (Sys ''waitpid'' [N (ret f), N WNOHANG]) ''wait'') (\<lambda>w.
       seq (if ret w = -1 then errexit ''waitpid''
            else if ret w = 0 then printf (''Not terminated yet'' @ [NL]) []
            else print_status (out_int w 0))
       (stop (Exited EXIT_SUCCESS))))"

definition system_sample :: "('m, unit) prog" where
  "system_sample =
     bind (or_errexit (Sys ''system'' [T ''vi test'']) ''system'') (\<lambda>r.
     only_if (WIFEXITED (ret r)) (printf (''status = %d'' @ [NL]) [N (WEXITSTATUS (ret r))]))"

definition NR_OPEN :: nat where "NR_OPEN = 1024"

definition make_daemon :: "('m, unit) prog" where
  "make_daemon =
     bind (sys Fork) (\<lambda>f.
     seq (if ret f = -1 then errexit ''fork''
          else if ret f = 0 then seq (or_errexit (Sys ''setsid'' []) ''setsid'') skip
          else stop (Exited EXIT_SUCCESS))
     (seq (or_errexit (Sys ''chdir'' [T ''/'']) ''chdir'')
     (seq (for_each [0..<NR_OPEN] (\<lambda>i. seq (sys (Close (int i))) skip))
     (seq (sys (Open ''/dev/null'' O_RDWR None))
     (seq (sys (Sys ''dup'' [N 0]))
     (seq (sys (Sys ''dup'' [N 0]))
     (loop (\<lambda>_. seq (sleep 2) (again ())) ())))))))"

subsection \<open>Scheduling (\<open>api3\<close>)\<close>

definition nice_control :: "('m, unit) prog" where
  "nice_control =
     bind (sys (Sys ''nice'' [N 0])) (\<lambda>v.
     seq (printf (''current nice value = %d'' @ [NL]) [N (ret v)])
     (seq (set_errno 0)
     (bind (sys (Sys ''nice'' [N (10 - ret v)])) (\<lambda>r.
     bind (gets errno) (\<lambda>e.
     seq (only_if (ret r = -1 \<and> e \<noteq> 0) (errexit ''nice''))
     (printf (''new nice value = %d'' @ [NL]) [N (ret r)]))))))"

definition PRIO_PROCESS :: int where "PRIO_PROCESS = 0"

definition priority_control :: "('m, unit) prog" where
  "priority_control =
     bind (or_errexit (Sys ''getpriority'' [N PRIO_PROCESS, N 0]) ''getpriority'') (\<lambda>a.
     seq (printf (''current nice value = %d'' @ [NL]) [N (ret a)])
     (seq (or_errexit (Sys ''setpriority'' [N PRIO_PROCESS, N 0, N 10]) ''setpriority'')
     (bind (or_errexit (Sys ''getpriority'' [N PRIO_PROCESS, N 0]) ''getpriority'') (\<lambda>b.
     printf (''new nice value = %d'' @ [NL]) [N (ret b)]))))"

text \<open>A \<open>cpu_set_t\<close> is a word of 1024 bits.\<close>

type_synonym cpu_set = "1024 word"

definition CPU_SETSIZE :: nat where "CPU_SETSIZE = 1024"
definition CPU_ZERO :: cpu_set where "CPU_ZERO = 0"
definition CPU_SET :: "nat \<Rightarrow> cpu_set \<Rightarrow> cpu_set" where "CPU_SET i s = s OR push_bit i 1"
definition CPU_CLR :: "nat \<Rightarrow> cpu_set \<Rightarrow> cpu_set" where "CPU_CLR i s = s AND NOT (push_bit i 1)"
definition CPU_ISSET :: "nat \<Rightarrow> cpu_set \<Rightarrow> int" where "CPU_ISSET i s = (if bit s i then 1 else 0)"

definition print_cpus :: "cpu_set \<Rightarrow> ('m, unit) prog" where
  "print_cpus s = for_each [0..<CPU_SETSIZE] (\<lambda>i. printf (''CPU #%d = %d'' @ [NL]) [N (int i), N (CPU_ISSET i s)])"

definition affinity_mask :: cpu_set where
  "affinity_mask = CPU_CLR 3 (CPU_CLR 2 (CPU_SET 1 (CPU_SET 0 CPU_ZERO)))"

text \<open>The kernel stores the set in the first integer of its reply.\<close>

definition affinity_control :: "('m, unit) prog" where
  "affinity_control =
     bind (or_errexit (Sys ''sched_getaffinity'' [N 0, N 128]) ''sched_getaffinity'') (\<lambda>r.
     seq (print_cpus (word_of_int (out_int r 0)))
     (seq (or_errexit (Sys ''sched_setaffinity'' [N 0, N 128, N (uint affinity_mask)]) ''sched_getaffinity'')
     (print_cpus affinity_mask)))"

definition SCHED_OTHER :: int where "SCHED_OTHER = 0"
definition SCHED_FIFO :: int where "SCHED_FIFO = 1"
definition SCHED_RR :: int where "SCHED_RR = 2"
definition SCHED_BATCH :: int where "SCHED_BATCH = 3"
definition SCHED_IDLE :: int where "SCHED_IDLE = 5"

text \<open>The second test compares with \<open>01\<close>, that is 1.\<close>

definition sched_control :: "('m, unit) prog" where
  "sched_control =
     bind (sys (Sys ''sched_getscheduler'' [N 0])) (\<lambda>p.
     seq (printf (''old scheduler = %d'' @ [NL]) [N (ret p)])
     (seq (or_errexit (Sys ''sched_setscheduler'' [N 0, N SCHED_RR, N 1]) ''sched_setscheduler'')
     (bind (sys (Sys ''sched_getscheduler'' [N 0])) (\<lambda>p.
     seq (printf (''new scheduler = %d'' @ [NL]) [N (ret p)])
     (bind (or_errexit (Sys ''sched_getparam'' [N 0]) ''sched_getparam'') (\<lambda>q.
     seq (printf (''current priority = %d'' @ [NL]) [N (out_int q 0)])
     (seq (or_errexit (Sys ''sched_setparam'' [N 0, N 2]) ''sched_getparam'')
     (seq (printf (''new priority = %d'' @ [NL]) [N 2])
     (bind (or_errexit (Sys ''sched_get_priority_min'' [N (ret p)]) ''sched_get_priority_min'') (\<lambda>lo.
     bind (sys (Sys ''sched_get_priority_max'' [N (ret p)])) (\<lambda>hi.
     seq (only_if (ret hi = 1) (errexit ''sched_get_priority_max''))
     (printf (''SCHED_RR priority range is %d - %d'' @ [NL]) [N (ret lo), N (ret hi)]))))))))))))"

definition RLIMIT_CORE :: int where "RLIMIT_CORE = 4"

definition limit_control :: "('m, unit) prog" where
  "limit_control =
     bind (or_errexit (Sys ''getrlimit'' [N RLIMIT_CORE]) ''getrlimit'') (\<lambda>r.
     seq (printf (''RLIMIT_CORE limit size: soft = %ld, hard = %ld'' @ [NL]) [N (out_int r 0), N (out_int r 1)])
     (seq (or_errexit (Sys ''setrlimit'' [N RLIMIT_CORE, N (1024 * 1024 * 32), N (-1)]) ''getrlimit'')
     (seq (or_errexit (Sys ''system'' [T ''ulimit -c'']) ''system'')
     skip)))"

subsection \<open>\<open>LinuxAPI\<close>: variables after \<open>fork\<close>, exit handlers, the environment\<close>

text \<open>Each process has its own \<open>static_data\<close> and \<open>stack_data\<close>.\<close>

definition process_func :: "('m, unit) prog" where
  "process_func =
     bind (sys Fork) (\<lambda>f.
     bind (if ret f = -1 then errExit ''fork()'' []
           else if ret f = 0 then return (1 + 5, 100 + 50)
           else seq (sys (Sys ''wait'' [])) (return (1, 100))) (\<lambda>(static_data, stack_data).
     bind getpid (\<lambda>p.
     seq (printf (''pid = %d, static_data = %d, stack_data = %d'' @ [NL]) [N p, N static_data, N stack_data])
     (stop (Exited EXIT_SUCCESS)))))"

definition exit_handler1 :: "int \<Rightarrow> ('m, unit) prog" where
  "exit_handler1 status = printf (''exit_handler1'' @ [NL]) []"

definition exit_handler2 :: "int \<Rightarrow> int \<Rightarrow> ('m, unit) prog" where
  "exit_handler2 context status = printf (''exit_handler2, status = %d, arg = %d'' @ [NL]) [N status, N context]"

text \<open>\<open>exit\<close> runs the registered functions, the last one first.\<close>

definition c_exit :: "(int \<Rightarrow> ('m, unit) prog) list \<Rightarrow> int \<Rightarrow> ('m, 'a) prog" where
  "c_exit handlers status = seq (for_each (rev handlers) (\<lambda>h. h status)) (stop (Exited status))"

definition process_exit :: "('m, unit) prog" where
  "process_exit =
     bind (sys (Sys ''atexit'' [T ''exit_handler1''])) (\<lambda>a.
     seq (only_if (ret a \<noteq> 0) (errExit ''atexit()'' []))
     (let context = 1 in
      bind (sys (Sys ''on_exit'' [T ''exit_handler2'', N context])) (\<lambda>b.
      seq (only_if (ret b \<noteq> 0) (errExit ''on_exit()'' []))
      (c_exit [exit_handler1, exit_handler2 context] EXIT_SUCCESS))))"

text \<open>The strings of \<open>environ\<close>; addresses of the segments are the integers of a reply.\<close>

definition get_enviorn :: "('m, int) prog" where
  "get_enviorn =
     bind (sys (Sys ''getenv'' [T ''SHELL''])) (\<lambda>e.
     bind getpid (\<lambda>p.
     seq (printf (''PID=%d'' @ [NL]) [N p])
     (bind (sys (Sys ''getppid'' [])) (\<lambda>q.
     seq (printf (''PPID=%d'' @ [NL]) [N (ret q)])
     (bind (sys (Sys ''segments'' [])) (\<lambda>g.
     seq (printf (''etext=%8p'' @ [NL]) [N (out_int g 0)])
     (seq (printf (''edata=%8p'' @ [NL]) [N (out_int g 1)])
     (seq (printf (''end=%8p'' @ [NL]) [N (out_int g 2)])
     (bind (require (case rstrs e of [t] \<Rightarrow> Some t | _ \<Rightarrow> None) ''null pointer'') (\<lambda>env.
     seq (printf (''$PS1=%s'' @ [NL]) [T env])
     (seq (or_errExit (Sys ''setenv'' [T ''AHNMH'', T ''myunghoon ahn'', N 0]) ''setenv'' [])
     (bind (sys (Sys ''environ'' [])) (\<lambda>v.
     seq (for_each (rstrs v) (\<lambda>t. printf (''%s'' @ [NL]) [T t]))
     (seq (or_errExit (Sys ''unsetenv'' [T ''AHNMH'']) ''unsetenv'' [])
     (return EXIT_SUCCESS)))))))))))))))"

subsection \<open>\<open>clone\<close>\<close>

definition child_func :: "int \<Rightarrow> ('m, int) prog" where
  "child_func fd =
     seq (printf (''Child process has been started..'' @ [NL]) [])
     (seq (or_errExit (Close fd) ''close()'' [])
     (return 0))"

definition signal_func_child :: "int \<Rightarrow> unit \<Rightarrow> ('m, unit) prog" where
  "signal_func_child sig st = printf (''Child process has been exited. signal is = %d'' @ [NL]) [N sig]"

definition stack_size :: int where "stack_size = 65536"
definition CLONE_FILES :: int where "CLONE_FILES = 1024"
definition CHILD_SIG :: int where "CHILD_SIG = SIGUSR1"
definition WCLONE :: int where "WCLONE = 2147483648"
definition EBADF :: int where "EBADF = 9"

text \<open>The child runs \<open>child_func\<close> on the stack it is given and shares the table of open files.\<close>

definition process_clone :: "('m, unit) prog" where
  "process_clone =
     bind (sys (Open ''/dev/null'' O_RDWR None)) (\<lambda>f.
     bind (sys (Sys ''malloc'' [N stack_size])) (\<lambda>stack.
     seq (or_errExit (Sys ''sigaction'' [N CHILD_SIG, T ''signal_func_child'', N 0]) (''sigaction()'' @ [NL]) [])
     (seq (or_errExit (Sys ''clone'' [T ''child_func'', N (ret stack + stack_size), N (CLONE_FILES OR CHILD_SIG), N (ret f)])
            ''clone()'' [])
     (bind (catching signal_func_child (Sys ''waitpid'' [N (-1), N NULL, N WCLONE]) ()) (\<lambda>(w, _).
     seq (only_if (ret w = -1) (errExit ''waitpid'' []))
     (seq (printf (''CHILD_SIG has been signalled..'' @ [NL]) [])
     (bind (sys (Write (ret f) (lit ''x''))) (\<lambda>r.
      bind (gets errno) (\<lambda>e.
      if ret r = -1 \<and> e = EBADF then printf (''file descriptor %d has been closed..'' @ [NL]) [N (ret f)]
      else if ret r = -1 then printf (''write on %d has been failed unexpectedly..'' @ [NL]) [N (ret f)]
      else printf (''write on %d succeeded..'' @ [NL]) [N (ret f)])))))))))"

subsection \<open>Priorities and limits (\<open>LinuxAPI\<close>)\<close>

text \<open>\<open>scanf ("%d", &x)\<close> stores nothing when the input is no number.\<close>

definition scan_int :: "('m, int option) prog" where
  "scan_int = bind (sys (Sys ''scanf'' [T ''%d''])) (\<lambda>r. return (if ret r = 1 then Some (out_int r 0) else None))"

definition process_priority :: "('m, unit) prog" where
  "process_priority =
     seq (printf ''PID = '' [])
     (bind scan_int (\<lambda>w.
     bind (require w ''uninitialised who'') (\<lambda>who.
     seq (or_errExit (Sys ''setpriority'' [N PRIO_PROCESS, N who, N 1]) ''setpriority()'' [])
     (bind (sys (Sys ''getpriority'' [N PRIO_PROCESS, N who])) (\<lambda>p.
     bind (gets errno) (\<lambda>e.
     seq (only_if (ret p = -1 \<and> e \<noteq> 0) (errExit ''getpriority()'' []))
     (printf (''nice value = %d'' @ [NL]) [N (ret p)])))))))"

definition policy_name :: "int \<Rightarrow> string option" where
  "policy_name p =
     (if p = SCHED_RR then Some ''SCHED_RR'' else if p = SCHED_FIFO then Some ''SCHED_FIFO''
      else if p = SCHED_OTHER then Some ''SCHED_OTHER'' else if p = SCHED_IDLE then Some ''SCHED_IDLE''
      else if p = SCHED_BATCH then Some ''SCHED_BATCH'' else None)"

definition get_process_scheduler :: "int \<Rightarrow> ('m, unit) prog" where
  "get_process_scheduler pid =
     bind (sys (Sys ''sched_getscheduler'' [N pid])) (\<lambda>p.
     bind (or_errExit (Sys ''sched_getparam'' [N pid]) ''sched_getparam()'' []) (\<lambda>q.
     seq (printf ''scheduling policy = '' [])
     (seq (case policy_name (ret p) of Some n \<Rightarrow> printf (n @ [NL]) [] | None \<Rightarrow> skip)
     (printf (''priority = %d'' @ [NL]) [N (out_int q 0)]))))"

definition process_scheduler :: "('m, unit) prog" where
  "process_scheduler =
     seq (printf ''PID = '' [])
     (bind scan_int (\<lambda>p.
     seq (printf (''before..'' @ [NL]) [])
     (bind (require p ''uninitialised pid'') (\<lambda>pid.
     seq (get_process_scheduler pid)
     (seq (printf ''new SCHEDULE POLICY(0,1,2,3,5) = '' [])
     (bind scan_int (\<lambda>pol.
     seq (printf ''new PRIORITY(1 ~ 99 is available if new POLICY is 1 or 2, otherwise it shuold be 0) = '' [])
     (bind scan_int (\<lambda>prio.
     bind (require prio ''uninitialised priority'') (\<lambda>prio.
     bind (require pol ''uninitialised pol'') (\<lambda>pol.
     seq (or_errExit (Sys ''sched_setscheduler'' [N pid, N pol, N prio]) ''sched_setscheduler()'' [])
     (seq (printf (''after..'' @ [NL]) [])
     (get_process_scheduler pid)))))))))))))"

text \<open>The busy loop in front is \<open>result += i\<close> for \<open>i < 5000000\<close>; its value is not used.\<close>

definition print_limit :: "int \<Rightarrow> string \<Rightarrow> ('m, unit) prog" where
  "print_limit resource name =
     bind (or_errExit (Sys ''getrlimit'' [N resource]) ''getrlimit'' []) (\<lambda>l.
     printf (name @ '': soft = %d, hard = %d'' @ [NL]) [N (to_int32 (out_int l 0)), N (to_int32 (out_int l 1))])"

definition process_resources :: "('m, unit) prog" where
  "process_resources =
     bind (or_errExit (Sys ''getrusage'' [N 0]) ''getrusage()'' []) (\<lambda>u.
     seq (printf (''user time: %d(s), %d(us)'' @ [NL]) [N (out_int u 0), N (out_int u 1)])
     (seq (printf (''system time: %d(s), %d(us)'' @ [NL]) [N (out_int u 2), N (out_int u 3)])
     (seq (for_each
        [(''minor page fault'', 4), (''major page fault'', 5), (''swap'', 6), (''block input operations'', 7),
         (''block output operations'', 8), (''voluntary context switching'', 9),
         (''involuntary context switching'', 10)]
        (\<lambda>(name, i). printf (name @ '':%ld'' @ [NL]) [N (out_int u i)]))
     (for_each
        [(9, ''process virtual memory size(byte)''), (RLIMIT_CORE, ''core file size(byte)''), (0, ''cpu time(s)''),
         (2, ''data segment size(byte)''), (1, ''file size(byte)''), (8, ''memory lock(byte)''),
         (13, ''available nice''), (7, ''file descriptor number''), (14, ''realtime scheduling priority''),
         (15, ''realtime CPU time(us)''), (3, ''stack segment size(byte)'')]
        (\<lambda>(resource, name). print_limit resource name)))))"

subsection \<open>The status of a child\<close>

text \<open>What can happen to a child, and the status word Linux makes of it: the exit status in the second
  byte, or the signal in the lowest seven bits with a flag for a memory dump, or the stopping signal in
  front of 127, or a word of its own.\<close>

datatype ending = Exit_with int | Killed_by int bool | Stopped_by int | Resumed

fun possible :: "ending \<Rightarrow> bool" where
  "possible (Exit_with c) \<longleftrightarrow> 0 \<le> c \<and> c \<le> 255"
| "possible (Killed_by n d) \<longleftrightarrow> 1 \<le> n \<and> n \<le> 64"
| "possible (Stopped_by n) \<longleftrightarrow> 1 \<le> n \<and> n \<le> 64"
| "possible Resumed \<longleftrightarrow> True"

fun status_word :: "ending \<Rightarrow> int" where
  "status_word (Exit_with c) = c * 256"
| "status_word (Killed_by n d) = n + (if d then 128 else 0)"
| "status_word (Stopped_by n) = n * 256 + 127"
| "status_word Resumed = 65535"

fun status_line :: "ending \<Rightarrow> event" where
  "status_line (Exit_with c) = Out (''Normal termination with exit status = %d'' @ [NL]) [N c]"
| "status_line (Killed_by n d) = Out (''Killed by signal = %d'' @ [NL]) [N n]"
| "status_line (Stopped_by n) = Out (''Stopped by signal = %d'' @ [NL]) [N n]"
| "status_line Resumed = Out (''Continued'' @ [NL]) []"

lemma and_127: "x AND 127 = x mod (128 :: int)"
  using take_bit_eq_mask [of 7 x] by (simp add: take_bit_eq_mod mask_eq_exp_minus_1)

lemma and_255: "x AND 255 = x mod (256 :: int)"
  using take_bit_eq_mask [of 8 x] by (simp add: take_bit_eq_mod mask_eq_exp_minus_1)

lemmas status_macros = WIFEXITED_def WIFSIGNALED_def WIFSTOPPED_def WIFCONTINUED_def WEXITSTATUS_def WTERMSIG_def
  WSTOPSIG_def and_127 and_255

lemma prints_print_status:
  "prints (print_status st)
     ((if WIFEXITED st then [Out (''Normal termination with exit status = %d'' @ [NL]) [N (WEXITSTATUS st)]] else []) @
      (if WIFSIGNALED st then [Out (''Killed by signal = %d'' @ [NL]) [N (WTERMSIG st)]] else []) @
      (if WIFSTOPPED st then [Out (''Stopped by signal = %d'' @ [NL]) [N (WSTOPSIG st)]] else []) @
      (if WIFCONTINUED st then [Out (''Continued'' @ [NL]) []] else []))"
  unfolding print_status_def by (intro prints_rules)

lemma mod_128: "(c * 256) mod 128 = (0 :: int)" "(c * 256 + 127) mod 128 = (127 :: int)"
proof -
  have "c * 256 = (c * 2) * 128" by simp
  then show "(c * 256) mod 128 = 0" "(c * 256 + 127) mod 128 = 127"
    by (simp_all only: mod_mult_self2_is_0 mod_mult_self3) simp
qed

lemma status_exit:
  assumes "0 \<le> c" "c \<le> (255 :: int)"
  shows "(c * 256) mod 128 = 0" "(c * 256) mod 256 = 0" "c * 256 \<noteq> 65535" "c mod 256 = c"
  using assms mod_128 [of c] by simp_all

lemma status_stop:
  assumes "1 \<le> n" "n \<le> (64 :: int)"
  shows "(n * 256 + 127) mod 128 = 127" "(n * 256 + 127) mod 256 = 127" "n * 256 + 127 \<noteq> 65535"
    "(n * 256 + 127) div 256 = n" "n mod 256 = n"
  using assms mod_128 [of n] by simp_all

lemma status_kill:
  assumes "1 \<le> n" "n \<le> (64 :: int)"
  shows "n mod 128 = n" "(n + 128) mod 128 = n" "n mod 256 = n" "(n + 128) mod 256 = n + 128"
  using assms by simp_all

text \<open>C33. The status of every child is taken apart correctly: for each way a child can end, stop or go on,
  \<open>fork_exec_wait\<close> prints exactly the line of that way, with the exit status or the signal in it.\<close>

theorem status_roundtrip:
  assumes "possible e"
  shows "prints (print_status (status_word e)) [status_line e]"
proof (cases e)
  case (Exit_with c)
  with assms prints_print_status [of "c * 256"] status_exit [of c] show ?thesis
    by (simp add: status_macros)
next
  case (Killed_by n d)
  with assms prints_print_status [of "n + (if d then 128 else 0)"] status_kill [of n] show ?thesis
    by (cases d) (simp_all add: status_macros split: if_splits)
next
  case (Stopped_by n)
  with assms prints_print_status [of "n * 256 + 127"] status_stop [of n] show ?thesis
    by (simp add: status_macros)
next
  case Resumed
  with prints_print_status [of 65535] show ?thesis
    by (simp add: status_macros)
qed

theorem status_roundtrip_witness:
  "prints (print_status 139) [Out (''Killed by signal = %d'' @ [NL]) [N 11]]"
  using status_roundtrip [of "Killed_by 11 True"] by simp

subsection \<open>CPU sets\<close>

lemma prints_cpus: "prints (print_cpus s) (map (\<lambda>i. Out (''CPU #%d = %d'' @ [NL]) [N (int i), N (CPU_ISSET i s)]) [0..<CPU_SETSIZE])"
proof -
  have "prints (print_cpus s) (concat (map (\<lambda>i. [Out (''CPU #%d = %d'' @ [NL]) [N (int i), N (CPU_ISSET i s)]]) [0..<CPU_SETSIZE]))"
    unfolding print_cpus_def by (intro prints_rules)
  then show ?thesis by simp
qed

text \<open>The macros are the operations of a set of CPU numbers below 1024.\<close>

lemma cpu_ops:
  "i < CPU_SETSIZE \<Longrightarrow> CPU_ISSET i (CPU_SET j s) = (if i = j then 1 else CPU_ISSET i s)"
  "i < CPU_SETSIZE \<Longrightarrow> CPU_ISSET i (CPU_CLR j s) = (if i = j then 0 else CPU_ISSET i s)"
  "CPU_ISSET i CPU_ZERO = 0"
  by (auto simp: CPU_ISSET_def CPU_SET_def CPU_CLR_def CPU_ZERO_def CPU_SETSIZE_def bit_simps)

lemma affinity_mask_bits: "i < CPU_SETSIZE \<Longrightarrow> CPU_ISSET i affinity_mask = (if i < 2 then 1 else 0)"
  by (auto simp: affinity_mask_def cpu_ops)

text \<open>\<open>affinity_control\<close> prints the mask of the kernel bit by bit, and a run that returns then has bound
  the process to CPU 0 and CPU 1 and printed 1 for these two and 0 for the other 1022.\<close>

theorem affinity_control_prints:
  assumes "affinity_control s = (Ok u, s')"
  shows "\<exists>r w. trace s' = trace s @ Did (Sys ''sched_getaffinity'' [N 0, N 128]) r #
      map (\<lambda>i. Out (''CPU #%d = %d'' @ [NL]) [N (int i), N (if bit (out_int r 0) i then 1 else 0)]) [0..<1024] @
      Did (Sys ''sched_setaffinity'' [N 0, N 128, N 3]) w #
      map (\<lambda>i. Out (''CPU #%d = %d'' @ [NL]) [N (int i), N (if i < 2 then 1 else 0)]) [0..<1024] \<and>
      ret r \<noteq> -1 \<and> ret w \<noteq> -1"
proof -
  from assms obtain r rs s1 w ws where
    a: "replies s = r # rs" "ret r \<noteq> -1"
      "print_cpus (word_of_int (out_int r 0)) (after (Sys ''sched_getaffinity'' [N 0, N 128]) r rs s) = (Ok (), s1)"
    and b: "ret w \<noteq> -1" "print_cpus affinity_mask
      (after (Sys ''sched_setaffinity'' [N 0, N 128, N (uint affinity_mask)]) w ws s1) = (Ok (), s')"
    unfolding affinity_control_def by (auto simp: ok_simps)
  have m: "uint affinity_mask = 3" by code_simp
  have i: "map (\<lambda>i. Out (''CPU #%d = %d'' @ [NL]) [N (int i), N (CPU_ISSET i (word_of_int x))]) [0..<CPU_SETSIZE] =
      map (\<lambda>i. Out (''CPU #%d = %d'' @ [NL]) [N (int i), N (if bit x i then 1 else 0)]) [0..<1024]" for x
    by (auto simp: CPU_ISSET_def CPU_SETSIZE_def bit_simps)
  have j: "map (\<lambda>i. Out (''CPU #%d = %d'' @ [NL]) [N (int i), N (CPU_ISSET i affinity_mask)]) [0..<CPU_SETSIZE] =
      map (\<lambda>i. Out (''CPU #%d = %d'' @ [NL]) [N (int i), N (if i < 2 then 1 else 0)]) [0..<1024]"
    by (auto simp: affinity_mask_bits CPU_SETSIZE_def)
  from printsD [OF prints_cpus a(3)] printsD [OF prints_cpus b(2)] a(2) b(1) show ?thesis
    unfolding i j m by (intro exI [of _ r] exI [of _ w]) simp
qed

theorem affinity_control_prints_witness:
  "\<exists>s'. affinity_control (boot [(r_ok 128)\<lparr>rints := [15]\<rparr>, r_ok 0]) = (Ok (), s') \<and> length (trace s') = 2050"
proof -
  let ?s = "boot [(r_ok 128)\<lparr>rints := [15]\<rparr>, r_ok 0]"
  have "wp affinity_control (\<lambda>out s'. out = Ok ()) ?s"
    unfolding affinity_control_def
    by (simp add: wp_rules boot_def cong: wp_cong)
      (simp add: r_ok_def, rule prints_wp [OF prints_cpus], simp add: wp_rules cong: wp_cong, rule prints_wp [OF prints_cpus], simp)
  then obtain s' where r: "affinity_control ?s = (Ok (), s')"
    by (cases "affinity_control ?s") (auto dest: wpD)
  from affinity_control_prints [OF r] have "length (trace s') = 2050" by (auto simp: boot_def)
  with r show ?thesis by blast
qed

end
