(* ===== verification/Formats.thy ===== *)
theory Formats
  imports Api3File Directory CondVar Echo IpcObjects AltIO Daemon GccExt Options SystemInfo
    ThreadControl ThreadPrograms ShmPrograms Api3Time ProcessControl
begin

text \<open>
  The formats of \<open>printf\<close> and \<open>fprintf\<close>. A format has a type, the list of the kinds of argument its
  conversions take; a line of the trace is well formatted when its arguments have these kinds. The
  rules below derive this for whole programs, constructor by constructor, as a type system would; the
  lemmas after them apply them to every component.
\<close>

named_theorems format_rules \<open>composition rules of programs whose output fits its formats\<close>

datatype cty = CInt | CStr

fun conv_types :: "bool \<Rightarrow> string \<Rightarrow> cty list option" where
  "conv_types inside [] = (if inside then None else Some [])"
| "conv_types inside (c # f) =
     (if \<not> inside then conv_types (c = CHR ''%'') f
      else if c = CHR ''%'' then conv_types False f
      else if c \<in> set ''dxucopi'' then map_option (Cons CInt) (conv_types False f)
      else if c = CHR ''s'' then map_option (Cons CStr) (conv_types False f)
      else if c = CHR ''*'' then map_option (Cons CInt) (conv_types True f)
      else if c \<in> set ''0123456789.-lh'' then conv_types True f
      else None)"

fun arg_type :: "carg \<Rightarrow> cty" where
  "arg_type (N i) = CInt"
| "arg_type (T t) = CStr"

definition fits :: "string \<Rightarrow> carg list \<Rightarrow> bool" where
  "fits f as \<longleftrightarrow> conv_types False f = Some (map arg_type as)"

definition well_formatted :: "event \<Rightarrow> bool" where
  "well_formatted e = (case e of Out f as \<Rightarrow> fits f as | Err f as \<Rightarrow> fits f as | _ \<Rightarrow> True)"

text \<open>What the renderer of formats accepts is well formatted, but for arguments that are left over.\<close>

lemma fits_simps:
  "fits [] as \<longleftrightarrow> as = []"
  "c \<noteq> CHR ''%'' \<Longrightarrow> fits (c # f) as = fits f as"
  "fits (CHR ''%'' # CHR ''%'' # f) as = fits f as"
  "fits (CHR ''%'' # CHR ''s'' # f) (T t # as) = fits f as"
  "fits (CHR ''%'' # CHR ''d'' # f) (N i # as) = fits f as"
  "fits (CHR ''%'' # CHR ''c'' # f) (N i # as) = fits f as"
  "fits (CHR ''%'' # CHR ''l'' # CHR ''d'' # f) (N i # as) = fits f as"
  by (auto simp: fits_def)

definition accepts :: "string \<Rightarrow> carg list \<Rightarrow> bool" where
  "accepts f as \<longleftrightarrow> (\<exists>as1 as2. as = as1 @ as2 \<and> fits f as1)"

lemma accepts_intros:
  "accepts [] as"
  "accepts f as \<Longrightarrow> c \<noteq> CHR ''%'' \<Longrightarrow> accepts (c # f) as"
  "accepts f as \<Longrightarrow> accepts (CHR ''%'' # CHR ''%'' # f) as"
  "accepts f as \<Longrightarrow> accepts (CHR ''%'' # CHR ''s'' # f) (T t # as)"
  "accepts f as \<Longrightarrow> accepts (CHR ''%'' # CHR ''d'' # f) (N i # as)"
  "accepts f as \<Longrightarrow> accepts (CHR ''%'' # CHR ''c'' # f) (N i # as)"
  "accepts f as \<Longrightarrow> accepts (CHR ''%'' # CHR ''l'' # CHR ''d'' # f) (N i # as)"
  unfolding accepts_def by (metis append_Cons append_Nil fits_simps)+

lemma cformat_fits: "cformat f as = Some t \<Longrightarrow> accepts f as"
proof (induction f as arbitrary: t rule: cformat.induct)
  case (2 c f as)
  then show ?case
    by (auto split: if_splits list.splits carg.splits intro: accepts_intros)
qed (simp add: accepts_intros)

lemma wf_simps [simp]:
  "well_formatted (Did c r)" "well_formatted (Out f as) = fits f as" "well_formatted (Err f as) = fits f as"
  "well_formatted (ErrText t)" "well_formatted (Perror t n)" "well_formatted FlushOut" "well_formatted FlushErr"
  by (simp_all add: well_formatted_def)

declare emits_reporters [emits_rules del] emits_checks [emits_rules del]

lemma emits_cases [format_rules]:
  "emits Q (f a) \<Longrightarrow> emits Q (Let a f)"
  "(x = None \<Longrightarrow> emits Q m) \<Longrightarrow> (\<And>a. x = Some a \<Longrightarrow> emits Q (g a)) \<Longrightarrow> emits Q (case x of None \<Rightarrow> m | Some a \<Rightarrow> g a)"
  "(ys = [] \<Longrightarrow> emits Q m) \<Longrightarrow> (\<And>b bs. ys = b # bs \<Longrightarrow> emits Q (h b bs)) \<Longrightarrow> emits Q (case ys of [] \<Rightarrow> m | b # bs \<Rightarrow> h b bs)"
  "(\<And>c d. z = (c, d) \<Longrightarrow> emits Q (k c d)) \<Longrightarrow> emits Q (case z of (c, d) \<Rightarrow> k c d)"
  by (simp_all split: option.splits list.splits prod.splits)

lemma fmt_outputError [format_rules]: "emits well_formatted (outputError u err fl f a)"
  unfolding outputError_def by (intro format_rules emits_rules) simp_all

lemma fmt_reporters [format_rules]:
  "emits well_formatted (errMsg f a)" "emits well_formatted (errExit f a)" "emits well_formatted (err_exit f a)"
  "emits well_formatted (errExitEN n f a)" "emits well_formatted (fatal f a)"
  "emits well_formatted (perror t)" "emits well_formatted (errexit t)" "emits well_formatted (terminate b)"
  unfolding errMsg_def errExit_def err_exit_def errExitEN_def fatal_def perror_def errexit_def terminate_def
  by (intro format_rules emits_rules; simp)+

lemma fmt_checks [format_rules]: "emits well_formatted (or_errExit c f a)" "emits well_formatted (or_errexit c t)"
  unfolding or_errExit_def or_errexit_def checked_def by (intro format_rules emits_rules; simp)+

lemma fmt_loops [format_rules]:
  "(emits well_formatted (die msg)) \<Longrightarrow> emits well_formatted (copy_loop src sz dst die msg)"
  unfolding copy_loop_def by (intro format_rules emits_rules; (simp; fail)?)+

lemma fmt_catching [format_rules]: "(\<And>sig st. emits well_formatted (h sig st)) \<Longrightarrow> emits well_formatted (catching h c st)"
  unfolding catching_def by (intro format_rules emits_rules; (simp; fail)?)+

lemma fmt_taking [format_rules]: "(\<And>sig st. emits well_formatted (h sig st)) \<Longrightarrow> emits well_formatted (taking sigs h sig st)"
  unfolding taking_def default_action_def by (intro format_rules emits_rules; (simp; fail)?)+

lemma fmt_pause_forever [format_rules]: "(\<And>sig st. emits well_formatted (h sig st)) \<Longrightarrow> emits well_formatted (pause_forever h st)"
  unfolding pause_forever_def by (intro format_rules emits_rules; (simp; fail)?)+

lemma fmt_spawn [format_rules]: "emits well_formatted m \<Longrightarrow> emits well_formatted (spawn m)"
  unfolding spawn_def by (intro format_rules emits_rules; (simp; fail)?)+

lemma fmt_try_addrs [format_rules]: "emits well_formatted complain \<Longrightarrow> emits well_formatted (try_addrs use good complain i as fd)"
  by (induction use good complain i as fd rule: try_addrs.induct) (auto intro!: emits_rules)

lemma fmt_events_loop [format_rules]: "(\<And>e. emits well_formatted (f e)) \<Longrightarrow> emits well_formatted (events_loop f b len i)"
proof (induction f b len i rule: events_loop.induct)
  case (1 f b len i)
  then show ?case by (subst events_loop.simps) (auto intro!: emits_rules)
qed

lemma fmt_get_line_loop [format_rules]: "emits well_formatted (get_line_loop stream d n b i ch)"
  by (induction stream d n b i ch rule: get_line_loop.induct) (auto intro!: emits_rules)

lemma fmt_option_case: "emits well_formatted (option_case pn opt g)"
  unfolding option_case_def usage_error_def by (intro format_rules emits_rules; simp add: fits_def)+

lemma fmt_option_loop [format_rules]: "emits well_formatted (option_loop posix pn g)"
proof (induction posix pn g rule: option_loop.induct)
  case (1 posix pn g)
  obtain opt g' where g: "getopt posix optstring g = (opt, g')" by (cases "getopt posix optstring g")
  with 1 show ?case
    by (subst option_loop.simps) (auto intro!: emits_rules fmt_option_case simp: fits_def)
qed

lemma fmt_syslog [format_rules]: "emits well_formatted (syslog m p f as)"
  unfolding syslog_def by (intro format_rules emits_rules; simp)
lemma fmt_wrappers [format_rules]:
  "emits well_formatted getpid" "emits well_formatted (sleep n)" "emits well_formatted (strsignal sig)"
  "emits well_formatted (default_action sig st)" "emits well_formatted (siglist sig)"
  "emits well_formatted pthread_self" "emits well_formatted (pthread_create nm arg)" "emits well_formatted (pump src dst msg)"
  "emits well_formatted (c_free q)" "emits well_formatted (stream_call f q as)"
  unfolding getpid_def sleep_def strsignal_def default_action_def siglist_def pthread_self_def pthread_create_def pump_def c_free_def stream_call_def
  by (intro format_rules emits_rules; (simp; fail)?)+

lemma fmt_action [format_rules]:
  "emits well_formatted m \<Longrightarrow> emits well_formatted n \<Longrightarrow> emits well_formatted k \<Longrightarrow>
    emits well_formatted (case a of Handled \<Rightarrow> m | Ignored \<Rightarrow> n | Default \<Rightarrow> k)"
  by (cases a) simp_all

lemma fmt_nested [format_rules]:
  "(\<And>a b. c = (a, b) \<Longrightarrow> emits well_formatted (f a b d)) \<Longrightarrow> emits well_formatted ((case c of (a, b) \<Rightarrow> f a b) d)"
  by (cases c) simp

lemma perm_bits_texts: "(b, c) \<in> set perm_bits \<Longrightarrow> conv_types False [c] = Some []"
proof -
  have "list_all (\<lambda>(b, c). conv_types False [c] = Some []) perm_bits" by code_simp
  then show "(b, c) \<in> set perm_bits \<Longrightarrow> ?thesis" by (auto simp: list_all_iff)
qed

lemma mask_names_texts: "(b, name) \<in> set mask_names \<Longrightarrow> conv_types False (name @ [NL]) = Some []"
proof -
  have "list_all (\<lambda>(b, name). conv_types False (name @ [NL]) = Some []) mask_names" by code_simp
  then show "(b, name) \<in> set mask_names \<Longrightarrow> ?thesis" by (auto simp: list_all_iff)
qed

lemma limit_queries_texts: "(name, as, text) \<in> set limit_queries \<Longrightarrow> conv_types False (text @ [NL]) = Some [CInt]"
proof -
  have "list_all (\<lambda>(name, as, text). conv_types False (text @ [NL]) = Some [CInt]) limit_queries" by code_simp
  then show "(name, as, text) \<in> set limit_queries \<Longrightarrow> ?thesis" by (auto simp: list_all_iff)
qed

lemma fileio_samples [format_rules]:
  "emits well_formatted file_open_read_write" "emits well_formatted file_fcntl"
  "emits well_formatted file_scatter_gather" "emits well_formatted file_ftruncate"
  "emits well_formatted file_opentempfile" "emits well_formatted (FileIO.thread_func fd)"
  "emits well_formatted file_pread_pwrite" "emits well_formatted file_stat"
  "emits well_formatted file_mount" "emits well_formatted file_buffering"
  unfolding file_open_read_write_def file_fcntl_def file_scatter_gather_def file_ftruncate_def
    file_opentempfile_def FileIO.thread_func_def file_pread_pwrite_def print_file_kind_def file_stat_def
    file_mount_def file_buffering_def
  by (intro format_rules emits_rules; (auto simp: fits_def; fail)?)+

lemma api3file_samples [format_rules]:
  "emits well_formatted fileio_read_write" "emits well_formatted select_sample"
  "emits well_formatted pselect_sample" "emits well_formatted poll_sample"
  "emits well_formatted epoll_sample" "emits well_formatted fileio_readv_writev"
  "emits well_formatted fileio_stdio_read" "emits well_formatted fileio_stdio_write"
  "emits well_formatted fileio_stdio_write_lock" "emits well_formatted get_inode"
  "emits well_formatted get_physical_block_number" "emits well_formatted (mmap_sample argv)"
  "emits well_formatted (aio_thread_func cb)" "emits well_formatted fileio_aio_write"
  unfolding read_whole_def fileio_read_write_def report_input_def select_sample_def pselect_sample_def
    poll_sample_def epoll_sample_def fileio_readv_writev_def fileio_stdio_read_def fileio_stdio_write_def
    fileio_stdio_write_lock_def get_inode_def get_physical_block_number_def mmap_sample_def
    aio_thread_func_def fileio_aio_write_def
  by (intro format_rules emits_rules; (auto simp: fits_def; fail)?)+

lemma directory_samples [format_rules]:
  "emits well_formatted (get_stat argv)" "emits well_formatted (chn_access argv)"
  "emits well_formatted (chn_owner argv)" "emits well_formatted working_diretory"
  "emits well_formatted make_directory" "emits well_formatted (traversal_directory argv)"
  "emits well_formatted (ioctl_example argv)" "emits well_formatted (inotify_example argv)"
  "emits well_formatted file_event" "emits well_formatted directory_link"
  unfolding print_kind_def get_stat_def chn_access_def chn_owner_def working_diretory_def make_directory_def
    find_entry_def traversal_directory_def ioctl_example_def print_mask_def event_func_def inotify_example_def
    set_filename_def set_watchd_def fevent_func_def file_event_def dirfunc_def free_at_def list_entries_def
    link_demo_def directory_link_def
  by (intro format_rules emits_rules; (auto simp: fits_def dest!: perm_bits_texts mask_names_texts; fail)?)+

lemma threads_samples [format_rules]:
  "emits well_formatted (pthread_sync v)" "emits well_formatted (pthread_sync_error_checking_mutex v)"
  "emits well_formatted (ipc_posix_unnamed_sem v)" "emits well_formatted (mutex_example v1 v2)"
  unfolding create_or_die_def pthread_sync_def pthread_sync_error_checking_mutex_def
    ipc_posix_unnamed_sem_def mutex_example_def
  by (intro format_rules emits_rules; (auto simp: fits_def; fail)?)+

lemma condvar_samples [format_rules]:
  "emits well_formatted (CondVar.thread_func tid)" "emits well_formatted timer_advanced_thread"
  unfolding CondVar.thread_func_def cond_wait_def wait_loop_def timer_advanced_thread_def
  by (intro format_rules emits_rules; (auto simp: fits_def; fail)?)+

lemma pipes_samples [format_rules]:
  "emits well_formatted (ipc_pipe argv)" "emits well_formatted (socket_pair_sample argv)"
  "emits well_formatted ipc_pipe_stdinout" "emits well_formatted ipc_pipe_popen"
  "emits well_formatted ipc_fifo_client" "emits well_formatted ipc_fifo_server"
  unfolding child_prints_def parent_sends_def fork_and_send_def ipc_pipe_def socket_pair_sample_def
    stdinout_child_def stdinout_parent_def ipc_pipe_stdinout_def ipc_pipe_popen_def ipc_fifo_client_def
    serve_request_def ipc_fifo_server_def
  by (intro format_rules emits_rules; (auto simp: fits_def; fail)?)+

lemma sockets_samples [format_rules]:
  "emits well_formatted socket_inet_domain_stream_server"
  "emits well_formatted socket_inet_domain_stream_client"
  "emits well_formatted socket_inet_domain_datagram_server"
  "emits well_formatted socket_inet_domain_datagram_client"
  "emits well_formatted socket_inet_domain_stream_server_v2"
  "emits well_formatted socket_inet_domain_stream_client_v2"
  "emits well_formatted (gethostbyname_example argv)" "emits well_formatted (getservbyname_example argv)"
  "emits well_formatted socket_unix_domain_stream_server"
  "emits well_formatted socket_unix_domain_stream_client"
  "emits well_formatted socket_unix_domain_datagram_server"
  "emits well_formatted socket_unix_domain_datagram_client"
  unfolding recv_into_def send_from_def serve_inet_client_def socket_inet_domain_stream_server_def
    socket_inet_domain_stream_client_def echo_datagram_def socket_inet_domain_datagram_server_def
    datagram_round_def socket_inet_domain_datagram_client_def serve_named_client_def
    socket_inet_domain_stream_server_v2_def socket_inet_domain_stream_client_v2_def gethostbyname_example_def
    getservbyname_example_def unix_addr_def remove_stale_def serve_unix_client_def
    socket_unix_domain_stream_server_def socket_unix_domain_stream_client_def echo_unix_datagram_def
    socket_unix_domain_datagram_server_def socket_unix_domain_datagram_client_def
  by (intro format_rules emits_rules; (auto simp: fits_def; fail)?)+

lemma echo_samples [format_rules]:
  "emits well_formatted Echo.signal_handler" "emits well_formatted socket_echo_server"
  "emits well_formatted socket_echo_client"
  unfolding Echo.signal_handler_def listener_def echo_def serve_echo_client_def socket_echo_server_def
    connector_def client_child_def client_parent_def socket_echo_client_def
  by (intro format_rules emits_rules; (auto simp: fits_def; fail)?)+

lemma ipcobjects_samples [format_rules]:
  "emits well_formatted ipc_systemv_sem"
  "emits well_formatted ipc_systemv_msg_server"
  "emits well_formatted ipc_systemv_msg_client" "emits well_formatted ipc_posix_sem_create"
  "emits well_formatted ipc_posix_sem_acquire" "emits well_formatted ipc_posix_sem_release"
  "emits well_formatted ipc_posix_sem_destroy" "emits well_formatted ipc_posix_shm_write"
  "emits well_formatted ipc_posix_shm_read" "emits well_formatted ipc_posix_shm_destroy"
  "emits well_formatted ipc_posix_mq_create" "emits well_formatted ipc_posix_mq_write"
  "emits well_formatted ipc_posix_mq_read" "emits well_formatted ipc_posix_mq_read_by_signal"
  "emits well_formatted (mq_thread_func mqd)" "emits well_formatted ipc_posix_mq_read_by_thread"
  "emits well_formatted ipc_posix_mq_destroy"
  unfolding semop_def semctl_set_def wait_for_creator_def ipc_systemv_sem_def
    get_queue_def receive_message_def ipc_systemv_msg_server_def send_message_def
    ipc_systemv_msg_client_def ipc_posix_sem_create_def open_sem_def print_sem_def ipc_posix_sem_acquire_def
    ipc_posix_sem_release_def ipc_posix_sem_destroy_def ipc_posix_shm_write_def ipc_posix_shm_read_def
    ipc_posix_shm_destroy_def ipc_posix_mq_create_def mq_send_one_def print_count_def ipc_posix_mq_write_def
    print_message_def ipc_posix_mq_read_def drain_queue_def mq_notify_def ipc_posix_mq_read_by_signal_def
    mq_thread_func_def ipc_posix_mq_read_by_thread_def ipc_posix_mq_destroy_def
  by (intro format_rules emits_rules; (auto simp: fits_def; fail)?)+

lemma altio_samples [format_rules]:
  "emits well_formatted alt_io_select" "emits well_formatted alt_io_poll"
  "emits well_formatted alt_io_signal" "emits well_formatted (main_LinuxAPI2 argv)"
  "emits well_formatted file_lock_flock" "emits well_formatted (file_lock_region argv)"
  unfolding alt_io_select_def alt_io_poll_def sigio_handler_def drain_input_def alt_io_signal_def
    epoll_entry_def epoll_round_def alt_io_epoll_def main_LinuxAPI2_def file_lock_flock_def lock_region_def
    lock_region_nblock_def lock_region_block_def lock_region_is_locked_def lock_option_def
    file_lock_region_def
  by (intro format_rules emits_rules; (auto simp: fits_def; fail)?)+

lemma daemon_samples [format_rules]:
  "emits well_formatted process_daemonize"
  unfolding print_ids_def leave_process_def close_files_def reopen_std_fds_def become_daemon_def
    log_open_def log_message_def log_close_def daemon_round_def process_daemonize_def
  by (intro format_rules emits_rules; (auto simp: fits_def; fail)?)+

lemma processes_samples [format_rules]:
  "emits well_formatted process_wait" "emits well_formatted process_waitpid"
  "emits well_formatted process_exec" "emits well_formatted process_wait_by_signal"
  unfolding process_wait_def process_waitpid_def process_exec_def sigchld_signal_handler_def take_sigchld_def
    process_wait_by_signal_def
  by (intro format_rules emits_rules; (auto simp: fits_def; fail)?)+

lemma gccext_samples [format_rules]:
  "emits well_formatted unused_func" "emits well_formatted (print_err p)"
  "emits well_formatted (main_api3 argv)"
  unfolding IsOdd_def old_version_def unused_func_def print_err_def double_size_def which_set_def
    print_upper_def gcc_extension_def main_api3_def
  by (intro format_rules emits_rules; (auto simp: fits_def; fail)?)+

lemma signals_samples [format_rules]:
  "emits well_formatted signal_basic" "emits well_formatted signal_longjmp"
  "emits well_formatted signal_restart" "emits well_formatted signal_realtime"
  "emits well_formatted (sender_main argv)" "emits well_formatted Signals.signal_suspend"
  "emits well_formatted signal_suspend_sync" "emits well_formatted process_setpgid"
  "emits well_formatted process_sync_by_signal" "emits well_formatted (basic_rest st)"
  unfolding set_int_def Signals.signal_handler_def take_signal_def signal_basic_def print_sigset_def
    print_sigmask_def show_mask_def signal_handler_func_def signal_longjmp_def signal_handler_func2_def
    signal_restart_def print_siginfo_def signal_realtime_handler_def signal_realtime_def signal_sender_def
    sender_main_def signal_suspend_handler_def Signals.signal_suspend_def signal_suspend_sync_def
    process_setpgid_def sync_handler_def process_sync_by_signal_def basic_rest_def
  by (intro format_rules emits_rules; (auto simp: fits_def; fail)?)+

lemma api3signal_samples [format_rules]:
  "emits well_formatted signal_legacy" "emits well_formatted signal_send"
  "emits well_formatted signal_helper" "emits well_formatted signal_block"
  "emits well_formatted Api3Signal.signal_suspend" "emits well_formatted signal_sigaction"
  unfolding Api3Signal.signal_handler_def take_sigint_def signal_legacy_def signal_send_def
    signal_helper_def signal_block_def signal_handler_sigint_def Api3Signal.signal_suspend_def
    signal_handler_adv_def take_sigusr1_def signal_sigaction_def
  by (intro format_rules emits_rules; (auto simp: fits_def; fail)?)+

lemma timers_samples [format_rules]:
  "emits well_formatted timer_func" "emits well_formatted timer_advanced_fd"
  "emits well_formatted timer_sync_expire" "emits well_formatted timer_clock_gettime"
  "emits well_formatted timer_clock_nanosleep" "emits well_formatted timer_sleep"
  "emits well_formatted timer_advanced_signal"
  unfolding on_timer_def take_expiry_def timer_round_def timer_func_def fd_round_def timer_advanced_fd_def
    on_expiry_def put_nul_def timer_sync_expire_def get_clock_def print_clock_def timer_clock_gettime_def
    timer_clock_nanosleep_def interrupted_def timer_sleep_def signal_timer_handler_def
    timer_advanced_signal_def
  by (intro format_rules emits_rules; (auto simp: fits_def; fail)?)+

lemma api3time_samples [format_rules]:
  "emits well_formatted get_time" "emits well_formatted set_time" "emits well_formatted time_format"
  "emits well_formatted time_sleep" "emits well_formatted time_clock_nanosleep"
  "emits well_formatted timer_example_alarm" "emits well_formatted timer_example_setitimer"
  "emits well_formatted timer_example_settime_signal" "emits well_formatted (Api3Time.thread_func v)"
  "emits well_formatted timer_example_settime_thread" "emits well_formatted time_related_func"
  unfolding get_time_def set_time_def print_tm_def convert_time_def c_string_result_def time_format_def
    sleep_handler_def time_sleep_def time_clock_nanosleep_def timer_handler_def timer_example_alarm_def
    timer_example_setitimer_def timer_example_settime_signal_def Api3Time.thread_func_def
    timer_example_settime_thread_def time_related_func_def
  by (intro format_rules emits_rules; (auto simp: fits_def code_name_def split: if_splits; fail)?)+

lemma processcontrol_samples [format_rules]:
  "emits well_formatted fork_exec_wait" "emits well_formatted system_sample"
  "emits well_formatted make_daemon" "emits well_formatted nice_control"
  "emits well_formatted priority_control" "emits well_formatted affinity_control"
  "emits well_formatted sched_control" "emits well_formatted limit_control"
  "emits well_formatted process_func" "emits well_formatted process_exit" "emits well_formatted get_enviorn"
  "emits well_formatted (child_func fd)" "emits well_formatted process_clone"
  "emits well_formatted process_priority" "emits well_formatted process_scheduler"
  "emits well_formatted process_resources"
  unfolding print_status_def fork_exec_wait_def system_sample_def make_daemon_def nice_control_def
    priority_control_def print_cpus_def affinity_control_def sched_control_def limit_control_def
    process_func_def exit_handler1_def exit_handler2_def process_exit_def get_enviorn_def child_func_def
    signal_func_child_def process_clone_def scan_int_def process_priority_def get_process_scheduler_def
    process_scheduler_def print_limit_def process_resources_def c_exit_def for_each.simps rev.simps
    append.simps
  by (intro format_rules emits_rules; (auto simp: fits_def policy_name_def split: if_splits; fail)?)+

lemma memory_samples [format_rules]:
  "emits well_formatted mem_alloc" "emits well_formatted mem_anonymous_mmap"
  "emits well_formatted mem_alloc_control" "emits well_formatted (mem_alloca argv)"
  "emits well_formatted (mem_variable_len_array argv)" "emits well_formatted mem_handle_sample"
  "emits well_formatted mlock_sample" "emits well_formatted memory_alloc"
  "emits well_formatted (realloc_test ptr n)" "emits well_formatted (mmap_file_privated argv)"
  "emits well_formatted (mmap_file_shared argv)" "emits well_formatted mmap_anonymous_shared"
  "emits well_formatted mmap_ops"
  unfolding alloc_or_errexit_def aligned_alloc_def mem_alloc_def mem_anonymous_mmap_def
    mem_alloc_control_def etc_path_def mem_alloca_def mem_variable_len_array_def mem_handle_sample_def
    mlock_sample_def memory_alloc_def realloc_test_def mmap_file_privated_def mmap_file_shared_def
    mmap_anonymous_shared_def run_cmd_def mmap_ops_def
  by (intro format_rules emits_rules; (auto simp: fits_def; fail)?)+

lemma threaddata_samples [format_rules]:
  "emits well_formatted (thread_func_unsafe str)" "emits well_formatted (destructor p)"
  "emits well_formatted (thread_func_safe_with_tsd str)"
  "emits well_formatted (thread_func_safe_with_tls str)" "emits well_formatted pthread_safe"
  unfolding thread_line_def thread_func_unsafe_def destructor_def create_key_def
    thread_func_safe_with_tsd_def thread_func_safe_with_tls_def pthread_safe_def
  by (intro format_rules emits_rules; (auto simp: fits_def; fail)?)+

lemma threadcontrol_samples [format_rules]:
  "emits well_formatted (thread_func_introduce str)" "emits well_formatted pthread_introduce"
  "emits well_formatted ThreadControl.thread_func" "emits well_formatted thread_func_cleanup"
  "emits well_formatted pthread_cancellation" "emits well_formatted thread_worker"
  "emits well_formatted (thread_signal_handler t1 t2)" "emits well_formatted pthread_signal"
  "emits well_formatted (start_routine_create msg)" "emits well_formatted create"
  "emits well_formatted start_routine_exit_cancel" "emits well_formatted exit_cancel"
  unfolding thread_func_introduce_def pthread_introduce_def cancel_point_def ThreadControl.thread_func_def
    cleanup_func_def thread_func_cleanup_def pthread_cancellation_def thread_worker_def kill_worker_def
    thread_signal_handler_def pthread_signal_def start_routine_create_def create_thread_def create_def
    start_routine_exit_cancel_def exit_cancel_def
  by (intro format_rules emits_rules; (auto simp: fits_def; fail)?)+

lemma threadprograms_samples [format_rules]:
  "emits well_formatted (sync_thread_func st)" "emits well_formatted (thread_func_error_checking_mutex st)"
  "emits well_formatted (sem_thread_func st)" "emits well_formatted (lock_start_routine q)"
  "emits well_formatted (cond_thread_func sec)" "emits well_formatted (start_routine_cond period)"
  "emits well_formatted pthread_cond_var" "emits well_formatted mutex_cond_example"
  unfolding sync_thread_func_def locked_add_def thread_func_error_checking_mutex_def sem_thread_func_def
    lock_start_routine_def add_to_def shared_def produce_one_def cond_thread_func_def start_routine_cond_def
    await_nonzero_def pthread_cond_var_def mutex_cond_example_def create_or_die_def
  by (intro format_rules emits_rules; (auto simp: fits_def; fail)?)+

lemma shmprograms_samples [format_rules]:
  "emits well_formatted ipc_systemv_shm_writer" "emits well_formatted ipc_systemv_shm_reader"
  unfolding semop_def semctl_set_def shm_cnt_def writer_loop_def ipc_systemv_shm_writer_def write_segment_def
    reader_loop_def ipc_systemv_shm_reader_def
  by (intro format_rules emits_rules; (auto simp: fits_def; fail)?)+

lemma options_samples [format_rules]:
  "emits well_formatted (option_case progname opt g)" "emits well_formatted (main posix argv)"
  unfolding usage_error_def option_case_def option_parsing_def main_def
  by (intro format_rules emits_rules; (auto simp: fits_def; fail)?)+

lemma systeminfo_samples [format_rules]:
  "emits well_formatted syslog_test" "emits well_formatted user_getuserid"
  "emits well_formatted user_setuserid" "emits well_formatted user_group"
  "emits well_formatted set_capability" "emits well_formatted get_limit" "emits well_formatted dltest"
  unfolding syslog_test_def geteuid_def getuid_def setresuid_def user_getuserid_def user_setuserid_def
    print_passwd_def user_group_def cap_free_def get_cap_def del_cap_def set_capability_def get_limit_def
    dltest_def
  by (intro format_rules emits_rules; (auto simp: fits_def dest!: limit_queries_texts set_zip_rightD; fail)?)+

subsection \<open>All samples\<close>

text \<open>A program whose result is not used; the samples of the three trees, which take the command line (and
  \<open>posix\<close>, the setting of \<open>POSIXLY_CORRECT\<close>) at most; and those that depend on a number or a text, among
  them the routines handed to \<open>pthread_create\<close>, to \<open>clone\<close> and to the other functions that call back.
  (\<open>file_event\<close>, whose state has static variables, and \<open>aio_thread_func\<close> are in the lemmas above.)\<close>

definition void :: "('m, int) prog \<Rightarrow> ('m, unit) prog" where
  "void p = seq p skip"

lemma fmt_void [format_rules]: "emits well_formatted p \<Longrightarrow> emits well_formatted (void p)"
  unfolding void_def by (intro emits_rules)

definition samples :: "bool \<Rightarrow> string list \<Rightarrow> ('m, unit) prog list" where
  "samples posix argv =
    [void file_open_read_write, void file_fcntl, void file_scatter_gather, void file_ftruncate,
     void file_opentempfile, void file_pread_pwrite, file_stat, file_mount, void file_buffering,
     fileio_read_write, select_sample, pselect_sample, poll_sample, epoll_sample, fileio_readv_writev,
     fileio_stdio_read, fileio_stdio_write, fileio_stdio_write_lock, get_inode,
     get_physical_block_number, mmap_sample argv, fileio_aio_write, get_stat argv, chn_access argv,
     chn_owner argv, working_diretory, make_directory, traversal_directory argv, ioctl_example argv,
     inotify_example argv, directory_link, timer_advanced_thread, ipc_pipe argv,
     socket_pair_sample argv, ipc_pipe_stdinout, ipc_pipe_popen, ipc_fifo_client, ipc_fifo_server,
     socket_inet_domain_stream_server, socket_inet_domain_stream_client,
     socket_inet_domain_datagram_server, socket_inet_domain_datagram_client,
     socket_inet_domain_stream_server_v2, socket_inet_domain_stream_client_v2,
     gethostbyname_example argv, getservbyname_example argv, socket_unix_domain_stream_server,
     socket_unix_domain_stream_client, socket_unix_domain_datagram_server,
     socket_unix_domain_datagram_client, socket_echo_server, socket_echo_client, ipc_systemv_sem, ipc_systemv_shm_writer, ipc_systemv_shm_reader,
     ipc_systemv_msg_server, ipc_systemv_msg_client,
     ipc_posix_sem_create, ipc_posix_sem_acquire, ipc_posix_sem_release, ipc_posix_sem_destroy,
     ipc_posix_shm_write, ipc_posix_shm_read, ipc_posix_shm_destroy, ipc_posix_mq_create,
     ipc_posix_mq_write, ipc_posix_mq_read, ipc_posix_mq_read_by_signal, ipc_posix_mq_read_by_thread,
     ipc_posix_mq_destroy, alt_io_select, alt_io_poll, alt_io_signal, void (main_LinuxAPI2 argv),
     file_lock_flock, file_lock_region argv, process_daemonize, process_wait, process_waitpid,
     process_exec, process_wait_by_signal, void (main_api3 argv), signal_basic, signal_longjmp,
     signal_restart, signal_realtime, void (sender_main argv), Signals.signal_suspend,
     signal_suspend_sync, process_setpgid, process_sync_by_signal, signal_legacy, signal_send,
     signal_helper, signal_block, Api3Signal.signal_suspend, signal_sigaction, timer_func,
     timer_advanced_fd, timer_sync_expire, timer_clock_gettime, timer_clock_nanosleep, timer_sleep,
     timer_advanced_signal, get_time, set_time, time_format, time_sleep, time_clock_nanosleep,
     timer_example_alarm, timer_example_setitimer, timer_example_settime_signal,
     timer_example_settime_thread, time_related_func, fork_exec_wait, system_sample, make_daemon,
     nice_control, priority_control, affinity_control, sched_control, limit_control, process_func,
     process_exit, void get_enviorn, process_clone, process_priority, process_scheduler,
     process_resources, mem_alloc, mem_anonymous_mmap, mem_alloc_control, mem_alloca argv,
     mem_variable_len_array argv, mem_handle_sample, mlock_sample, memory_alloc,
     mmap_file_privated argv, mmap_file_shared argv, mmap_anonymous_shared, mmap_ops, pthread_safe, pthread_cond_var, mutex_cond_example,
     pthread_introduce, pthread_cancellation, pthread_signal, create, exit_cancel,
     void (main posix argv), syslog_test, user_getuserid, user_setuserid, user_group, set_capability,
     get_limit, dltest]"

definition routines :: "int \<Rightarrow> string \<Rightarrow> ('m, unit) prog list" where
  "routines n t =
    [void (sync_thread_func n), void (thread_func_error_checking_mutex n), void (sem_thread_func n),
     void (lock_start_routine t), void (cond_thread_func n), void (start_routine_cond n),
     FileIO.thread_func n, pthread_sync n, pthread_sync_error_checking_mutex n, ipc_posix_unnamed_sem n,
     mutex_example n n, CondVar.thread_func n, Echo.signal_handler, mq_thread_func n, void unused_func,
     print_err t, Api3Time.thread_func n, void (child_func n), void (realloc_test n n),
     void (thread_func_unsafe t), destructor n, void (thread_func_safe_with_tsd t),
     void (thread_func_safe_with_tls t), void (thread_func_introduce t), void ThreadControl.thread_func,
     void thread_func_cleanup, void thread_worker, thread_signal_handler n n,
     void (start_routine_create t), void start_routine_exit_cancel]"

lemma all_well_formatted: "list_all (emits well_formatted) (samples posix argv @ routines n t)"
  unfolding samples_def routines_def list_all_append list.pred_inject(2)
  by (intro conjI format_rules list.pred_inject(1))



end
