(* ===== verification/ProcessPrograms.thy ===== *)
theory ProcessPrograms
  imports Actions Processes
begin

text \<open>
  \<open>process_wait_by_signal\<close> of \<open>LinuxAPI/process_wait_by_signal.c\<close> as a participant in the step relation of
  \<open>Processes\<close>. The other participant is the kernel, which lets the children end. An order of the calls of the
  program and of the ends of its children that the kernel allows is a run of the step relation, so a
  program that returns has waited for each of its children, once.
\<close>

subsection \<open>Actions\<close>

datatype fact = Enter | Blocked_sig | Forked | Caught | Reaped | None_left | Woke | Unblocked_sig | Ended

text \<open>The call a signal can interrupt begins with its deliveries; the handler begins with its line.\<close>

fun fact_of :: "event \<Rightarrow> fact list" where
  "fact_of (Did (Sys f as) r) =
     (if f = ''deliver'' then [Enter]
      else if f = ''sigprocmask'' then [if hd as = N SIG_BLOCK then Blocked_sig else Unblocked_sig]
      else if f = ''waitpid'' then [if ret r > 0 then Reaped else None_left]
      else if f = ''sigsuspend'' then [Woke]
      else [])"
| "fact_of (Did Fork r) = [Forked]"
| "fact_of (Out f as) = (if f = ''sigal count: %d'' @ [NL] then [Caught] else [])"
| "fact_of _ = []"

text \<open>The parent: its place, whether it is in the handler, how many children it will still fork, and
  \<open>child_cnt\<close>.\<close>

type_synonym parent = "place \<times> bool \<times> nat \<times> int"

fun parent_step :: "fact \<Rightarrow> parent \<Rightarrow> parent option" where
  "parent_step Enter (p, h, f, c) =
     (if h then None
      else if p = Starting then Some (Blocking, h, f, c)
      else if p = Checking then Some (if c > 0 then Suspended else Unblocking, h, f, c)
      else None)"
| "parent_step Blocked_sig (p, h, f, c) = (if p = Blocking \<and> \<not> h then Some (Forking, h, f, c) else None)"
| "parent_step Forked (p, h, f, c) =
     (if p = Forking \<and> \<not> h \<and> 0 < f then Some (if f = 1 then Checking else Forking, h, f - 1, c) else None)"
| "parent_step Caught (p, h, f, c) = (if open_place p \<and> \<not> h then Some (p, True, f, c) else None)"
| "parent_step Reaped (p, h, f, c) = (if h then Some (p, h, f, c - 1) else None)"
| "parent_step None_left (p, h, f, c) = (if h then Some (p, False, f, c) else None)"
| "parent_step Woke (p, h, f, c) = (if p = Suspended \<and> \<not> h then Some (Checking, h, f, c) else None)"
| "parent_step Unblocked_sig (p, h, f, c) = (if p = Unblocking \<and> \<not> h then Some (Finished, h, f, c) else None)"
| "parent_step Ended _ = None"

text \<open>The kernel: the children running and ended, the pending signal, and whether a handler has run since the
  call began. \<open>waitpid\<close> with \<open>WNOHANG\<close> delivers a child exactly when one has ended.\<close>

type_synonym kernel = "nat \<times> nat \<times> bool \<times> bool"

fun kernel_step :: "fact \<Rightarrow> kernel \<Rightarrow> kernel option" where
  "kernel_step Enter (r, z, p, c) = Some (r, z, p, False)"
| "kernel_step Blocked_sig k = Some k"
| "kernel_step Forked (r, z, p, c) = Some (r + 1, z, p, c)"
| "kernel_step Caught (r, z, p, c) = (if p then Some (r, z, False, True) else None)"
| "kernel_step Reaped (r, z, p, c) = (if 0 < z then Some (r, z - 1, p, c) else None)"
| "kernel_step None_left (r, z, p, c) = (if z = 0 then Some (r, z, p, c) else None)"
| "kernel_step Woke (r, z, p, c) = (if c then Some (r, z, p, c) else None)"
| "kernel_step Unblocked_sig (r, z, p, c) = (if p then None else Some (r, z, p, c))"
| "kernel_step Ended (r, z, p, c) = (if 0 < r then Some (r - 1, z + 1, True, c) else None)"

definition kernel_start :: kernel where
  "kernel_start = (0, 0, False, False)"

subsection \<open>The program\<close>

abbreviation moves_p :: "parent \<Rightarrow> ('m, 'v) prog \<Rightarrow> ('v \<Rightarrow> parent) \<Rightarrow> bool" where
  "moves_p \<equiv> moves fact_of (\<lambda>_. True) parent_step"

text \<open>The parent outside the handler, with its counters.\<close>

definition at :: "place \<Rightarrow> nat \<Rightarrow> int \<times> int \<Rightarrow> parent" where
  "at p f cs = (p, False, f, snd cs)"

lemma moves_parent_sys: "moves_p l (sys c) post" if "\<And>r. act_run parent_step (fact_of (Did c r)) l = Some (post r)"
  using that by (intro movesI) (auto simp: ok_simps)

lemma moves_reap_loop:
  "moves_p (p, True, f, c) (loop (\<lambda>child_cnt.
        bind (sys (Sys ''waitpid'' [N (-1), N WNOHANG])) (\<lambda>r.
        if ret r > 0 then
          seq (printf (''Child process: %d takes wait from parent.'' @ [NL]) [N (ret r)])
          (again (child_cnt - 1))
        else leave (child_cnt, ret r))) c) (\<lambda>(c, pid). (p, False, f, c))"
proof (rule moves_loop [where pre = "\<lambda>c. (p, True, f, c)"])
  fix c :: int
  let ?post = "\<lambda>r. if 0 < ret r then (p, True, f, c - 1) else (p, False, f, c)"
  show "moves_p (p, True, f, c) (bind (sys (Sys ''waitpid'' [N (-1), N WNOHANG])) (\<lambda>r.
        if ret r > 0 then
          seq (printf (''Child process: %d takes wait from parent.'' @ [NL]) [N (ret r)]) (again (c - 1))
        else leave (c, ret r)))
     (\<lambda>r. case r of Inl c \<Rightarrow> (p, True, f, c) | Inr b \<Rightarrow> (case b of (c, pid) \<Rightarrow> (p, False, f, c)))"
  proof (rule moves_bind [where post = ?post])
    fix r
    show "moves_p (?post r) (if ret r > 0 then
          seq (printf (''Child process: %d takes wait from parent.'' @ [NL]) [N (ret r)]) (again (c - 1))
        else leave (c, ret r))
     (\<lambda>r. case r of Inl c \<Rightarrow> (p, True, f, c) | Inr b \<Rightarrow> (case b of (c, pid) \<Rightarrow> (p, False, f, c)))"
      by (auto intro!: moves_seq [OF moves_quiet] moves_value emits_rules)
  qed (rule moves_parent_sys, simp)
qed

lemma moves_handler:
  assumes "open_place p"
  shows "moves_p (at p f cs) (sigchld_signal_handler cs) (at p f)"
proof -
  obtain n c where cs: "cs = (n, c)" by fastforce
  have 1: "moves_p (p, False, f, c) (printf (''sigal count: %d'' @ [NL]) [N (n + 1)]) (\<lambda>_. (p, True, f, c))"
    using assms by (intro movesI) (auto simp: ok_simps simp del: open_place.simps)
  have 2: "moves_p (p, False, f, c) (bind (gets errno) (\<lambda>e.
     seq (only_if (b = -1 \<and> e \<noteq> ECHILD) (errMsg ''waitpid()'' [])) (return (n + 1, c)))) (at p f)" for b c
    unfolding at_def
    by (rule moves_bind [OF moves_quiet] moves_seq [OF moves_quiet] moves_value(1) emits_rules
        | (auto simp: is_diagnostic_def split: event.splits; fail))+
  show ?thesis
    unfolding sigchld_signal_handler_def cs prod.case
    by (subst at_def, unfold snd_conv, rule moves_seq [OF 1], rule moves_bind [OF moves_reap_loop]) (auto intro: 2)
qed

lemma moves_take_sigchld: "open_place p \<Longrightarrow> moves_p (at p f cs) (take_sigchld sig cs) (at p f)"
  unfolding take_sigchld_def taking_def default_action_def by (auto intro: moves_handler moves_value moves_stop simp del: open_place.simps)

lemma moves_catching:
  assumes "open_place p" "parent_step Enter l = Some (at p f cs)"
    and "\<And>cs r. act_run parent_step (fact_of (Did c r)) (at p f cs) = Some (at q f cs)"
  shows "moves_p l (catching take_sigchld c cs) (\<lambda>(r, cs). at q f cs)"
  unfolding catching_def
proof (rule moves_bind [where post = "\<lambda>_. at p f cs"], rule moves_parent_sys)
  show "moves_p (at p f cs) (bind (fold_each (rints d) take_sigchld cs) (\<lambda>st. bind (sys c) (\<lambda>r. return (r, st))))
     (\<lambda>(r, cs). at q f cs)" for d
  proof (rule moves_bind [OF moves_fold_each [OF moves_take_sigchld [OF assms(1)]]])
    show "moves_p (at p f cs) (bind (sys c) (\<lambda>r. return (r, cs))) (\<lambda>(r, cs). at q f cs)" for cs
      by (rule moves_bind [where post = "\<lambda>_. at q f cs"], rule moves_parent_sys, rule assms(3)) (simp add: moves_value)
  qed
qed (simp add: assms(2))

lemma moves_spawn:
  assumes "parent_step Forked l = Some l'"
  shows "moves_p l (seq (spawn body) skip) (\<lambda>_. l')"
proof (rule movesI)
  fix s v s'
  assume "seq (spawn body) skip s = (Ok v, s')"
  then obtain r where "trace s' = trace s @ [Did Fork r]" by (auto simp: spawn_def ok_simps split: if_splits)
  with assms show "\<exists>es. trace s' = trace s @ es \<and>
     (list_all (\<lambda>_. True) (acts fact_of es) \<longrightarrow> act_run parent_step (acts fact_of es) l = Some l')"
    by (intro exI [of _ "[Did Fork r]"]) simp
qed

text \<open>The five forks.\<close>

fun forking :: "int \<times> int \<Rightarrow> nat list \<Rightarrow> parent" where
  "forking cs xs = (if xs = [] then at Checking 0 cs else at Forking (length xs) cs)"

lemma moves_forks: "moves_p (forking cs xs) (for_each xs (\<lambda>i. seq (spawn (body i)) skip)) (\<lambda>_. at Checking 0 cs)"
proof -
  have "moves_p (forking cs xs) (for_each xs (\<lambda>i. seq (spawn (body i)) skip)) (\<lambda>_. forking cs [])"
    by (rule moves_for_each, rule moves_spawn) (simp add: at_def)
  then show ?thesis by simp
qed

text \<open>The program with the counters at its end.\<close>

definition suspend_loop :: "int \<times> int \<Rightarrow> ('m, int \<times> int) prog" where
  "suspend_loop = loop (\<lambda>cs.
        if \<not> snd cs > 0 then leave cs
        else bind (catching take_sigchld (Sys ''sigsuspend'' []) cs) (\<lambda>(r, cs).
          bind (gets errno) (\<lambda>e.
          seq (only_if (ret r = -1 \<and> e \<noteq> EINTR) (errExit ''sigsuspend()'' []))
          (again cs))))"

definition wait_counting :: "('m, int \<times> int) prog" where
  "wait_counting =
     seq (or_errExit (Sys ''sigaction'' [N SIGCHLD, T ''sigchld_signal_handler'', N 0]) (''sigaction()'' @ [NL]) [])
     (bind (catching take_sigchld (Sys ''sigprocmask'' [N SIG_BLOCK, N SIGCHLD]) (0, 5)) (\<lambda>(b, cs).
     seq (only_if (ret b = -1) (errExit ''sigprocmask()'' []))
     (seq (for_each [0..<5] (\<lambda>i.
        seq (spawn (bind getpid (\<lambda>p. seq (printf (''Child process: %d'' @ [NL]) [N p]) (sleep 5)))) skip))
     (bind (suspend_loop cs) (\<lambda>cs.
     bind (catching take_sigchld (Sys ''sigprocmask'' [N SIG_SETMASK]) cs) (\<lambda>(u, cs).
     seq (only_if (ret u = -1) (errExit ''sigprocmask()'' [])) (return cs)))))))"

lemma wait_counting: "process_wait_by_signal s = (Ok u, s') \<Longrightarrow> \<exists>cs. wait_counting s = (Ok cs, s')"
  unfolding process_wait_by_signal_def wait_counting_def suspend_loop_def [symmetric]
  by (fastforce simp: ok_simps)

lemma suspend_loop_moves: "moves_p (at Checking 0 cs) (suspend_loop cs) (at Checking 0)"
  unfolding suspend_loop_def
proof (rule moves_loop [where pre = "at Checking 0"])
  fix cs :: "int \<times> int"
  let ?post = "\<lambda>r. case r of Inl cs \<Rightarrow> at Checking 0 cs | Inr cs \<Rightarrow> at Checking 0 cs"
  show "moves_p (at Checking 0 cs)
      (if \<not> snd cs > 0 then leave cs
       else bind (catching take_sigchld (Sys ''sigsuspend'' []) cs) (\<lambda>(r, cs).
          bind (gets errno) (\<lambda>e.
          seq (only_if (ret r = -1 \<and> e \<noteq> EINTR) (errExit ''sigsuspend()'' []))
          (again cs)))) ?post"
  proof (cases "snd cs > 0")
    case True
    have c: "moves_p (at Checking 0 cs) (catching take_sigchld (Sys ''sigsuspend'' []) cs) (\<lambda>(r, cs). at Checking 0 cs)"
      using True by (intro moves_catching [where p = Suspended]) (simp_all add: at_def)
    have "moves_p (at Checking 0 cs) (bind (gets errno) (\<lambda>e.
          seq (only_if (ret r = -1 \<and> e \<noteq> EINTR) (errExit ''sigsuspend()'' [])) (again cs))) ?post" for r cs
      by (rule moves_bind [OF moves_quiet] moves_seq moves_only_if moves_stop emits_rules | simp add: moves_value)+
    with True show ?thesis by (simp, intro moves_bind [OF c]) (auto split: prod.split)
  qed (simp add: moves_value)
qed

lemma suspend_loop_returns: "suspend_loop cs s = (Ok cs', s') \<Longrightarrow> \<not> snd cs' > 0"
  unfolding suspend_loop_def by (erule loop_returns [rotated]) (auto simp: ok_simps split: if_splits)

text \<open>The program takes the parent from the beginning to the end.\<close>

lemma parent_moves: "moves_p (at Starting 5 (0, 5)) wait_counting (at Finished 0)"
proof -
  have block: "moves_p (at Starting 5 cs) (catching take_sigchld (Sys ''sigprocmask'' [N SIG_BLOCK, N SIGCHLD]) cs)
      (\<lambda>(b, cs). at Forking 5 cs)" for cs
    by (intro moves_catching [where p = Blocking]) (simp_all add: at_def)
  have unblock: "moves_p (at Checking 0 cs) (catching take_sigchld (Sys ''sigprocmask'' [N SIG_SETMASK]) cs)
      (\<lambda>(b, cs). at Finished 0 cs)" if "\<not> snd cs > 0" for cs
    using that by (intro moves_catching [where p = Unblocking]) (simp_all add: at_def SIG_BLOCK_def SIG_SETMASK_def)
  have forks: "moves_p (at Forking 5 cs) (for_each [0..<5] (\<lambda>i. seq (spawn (body i)) skip)) (\<lambda>_. at Checking 0 cs)" for cs body
    using moves_forks [of cs "[0..<5]"] by simp
  have last: "moves_p (at Checking 0 cs)
      (bind (catching take_sigchld (Sys ''sigprocmask'' [N SIG_SETMASK]) cs) (\<lambda>(u, cs).
     seq (only_if (ret u = -1) (errExit ''sigprocmask()'' [])) (return cs))) (at Finished 0)" if "\<not> snd cs > 0" for cs
    by (rule moves_bind [OF unblock [OF that]]) (auto intro: moves_seq moves_only_if moves_stop moves_value)
  have mid: "moves_p (at Forking 5 cs) (seq (only_if b (errExit ''sigprocmask()'' []))
     (seq (for_each [0..<5] (\<lambda>i. seq (spawn (body i)) skip))
     (bind (suspend_loop cs) (\<lambda>cs.
     bind (catching take_sigchld (Sys ''sigprocmask'' [N SIG_SETMASK]) cs) (\<lambda>(u, cs).
     seq (only_if (ret u = -1) (errExit ''sigprocmask()'' [])) (return cs)))))) (at Finished 0)" for b cs body
    by (rule moves_seq [OF moves_only_if [OF moves_stop(2)]], rule moves_seq [OF forks],
        rule moves_returns [OF suspend_loop_moves suspend_loop_returns last])
  show ?thesis
    unfolding wait_counting_def
    by (rule moves_seq [OF moves_checked [OF moves_parent_sys]], simp, rule moves_bind [OF block]) (auto split: prod.split intro: mid)
qed

subsection \<open>Orders of the actions\<close>

fun join :: "kernel \<Rightarrow> parent \<Rightarrow> family" where
  "join (r, z, p, k) (pl, h, f, c) =
     \<lparr>pc = pl, handling = h, to_fork = f, child_cnt = c, running = r, zombies = z, pending = p, caught = k\<rparr>"

lemma parent_act:
  assumes "parent_step a (pl, h, f, n) = Some l'" "kernel_step a (r, z, p, c) = Some k'"
  shows "family_step (join (r, z, p, c) (pl, h, f, n)) (join k' l')"
proof -
  let ?S = "join (r, z, p, c) (pl, h, f, n)"
  show ?thesis
  proof (cases a)
    case Enter
    with assms family_step.start [of ?S] family_step.suspend [of ?S] family_step.finish [of ?S] show ?thesis
      by (auto split: if_splits)
  next
    case Forked
    with assms family_step.fork [of ?S "f - 1"] show ?thesis by (auto split: if_splits)
  next
    case Reaped
    with assms family_step.reap [of ?S "z - 1"] show ?thesis by (auto split: if_splits)
  qed (use assms family_step.blocked [of ?S] family_step.deliver [of ?S] family_step.handled [of ?S]
        family_step.woken [of ?S] family_step.unblocked [of ?S] in \<open>auto split: if_splits simp del: open_place.simps\<close>)
qed

lemma kernel_act: "kernel_step Ended (r, z, p, c) = Some k' \<Longrightarrow> family_step (join (r, z, p, c) (pl, h, f, n)) (join k' (pl, h, f, n))"
  using family_step.child_exits [of "join (r, z, p, c) (pl, h, f, n)" "r - 1"] by (auto split: if_splits)

text \<open>The order \<open>tr\<close> holds the actions of the parent, 0, and the ends of the children, 1.\<close>

lemma order_run:
  "act_run kernel_step (map snd tr) k = Some k' \<Longrightarrow> act_run parent_step (proj 0 tr) l = Some l' \<Longrightarrow>
   list_all (\<lambda>(t, a). t = 0 \<or> a = Ended) tr \<Longrightarrow> family_step\<^sup>*\<^sup>* (join k l) (join k' l')"
proof (induction tr arbitrary: k l)
  case (Cons e tr)
  obtain t a where e: "e = (t, a)" by fastforce
  have P: "parent_step a l = Some l1 \<Longrightarrow> kernel_step a k = Some k1 \<Longrightarrow> family_step (join k l) (join k1 l1)" for l1 k1
    by (cases k; cases l) (auto intro: parent_act simp del: join.simps)
  have K: "kernel_step Ended k = Some k1 \<Longrightarrow> family_step (join k l) (join k1 l)" for k1
    by (cases k; cases l) (auto intro: kernel_act simp del: join.simps kernel_step.simps)
  from Cons.prems(1) e obtain k1 where k: "kernel_step a k = Some k1" "act_run kernel_step (map snd tr) k1 = Some k'"
    by (auto split: option.splits)
  show ?case
  proof (cases "t = 0")
    case True
    with Cons.prems(2) e obtain l1 where l: "parent_step a l = Some l1" "act_run parent_step (proj 0 tr) l1 = Some l'"
      by (auto split: option.splits)
    from Cons.IH [OF k(2) l(2)] Cons.prems(3) P [OF l(1) k(1)] e show ?thesis
      by (simp add: converse_rtranclp_into_rtranclp)
  next
    case False
    with Cons.prems(3) e have "a = Ended" by simp
    with Cons.IH [OF k(2)] Cons.prems(2,3) False e K k(1) show ?thesis
      by (simp add: converse_rtranclp_into_rtranclp)
  qed
qed simp

text \<open>What has been counted.\<close>

definition number :: "fact \<Rightarrow> fact list \<Rightarrow> nat" where
  "number a as = length (filter (\<lambda>b. b = a) as)"

lemma number_simps [simp]: "number a [] = 0" "number a (b # as) = (if b = a then Suc (number a as) else number a as)"
  by (simp_all add: number_def)

lemma parent_counts:
  "act_run parent_step as (p, h, f, c) = Some (p', h', f', c') \<Longrightarrow>
    f = f' + number Forked as \<and> c = c' + int (number Reaped as)"
proof (induction as arbitrary: p h f c)
  case (Cons a as)
  then show ?case by (cases a) (fastforce split: if_splits simp del: open_place.simps)+
qed simp

lemma kernel_counts:
  "act_run kernel_step as (r, z, p, k) = Some (r', z', p', k') \<Longrightarrow>
    r + number Forked as = r' + number Ended as \<and> z + number Ended as = z' + number Reaped as \<and>
    number Caught as + of_bool p' \<le> number Ended as + of_bool p"
proof (induction as arbitrary: r z p k)
  case (Cons a as)
  then show ?case by (cases a) (fastforce split: if_splits)+
qed simp

text \<open>Nothing is reaped outside the handler.\<close>

lemma reaped_caught:
  "act_run parent_step as (p, h, f, c) = Some l \<Longrightarrow> number Caught as = 0 \<Longrightarrow> \<not> h \<Longrightarrow> number Reaped as = 0"
proof (induction as arbitrary: p h f c)
  case (Cons a as)
  then show ?case by (cases a) (auto split: if_splits simp del: open_place.simps)
qed simp

lemma number_two: "list_all (\<lambda>(t, a). t < 2) tr \<Longrightarrow> number a (map snd tr) = number a (proj 0 tr) + number a (proj 1 tr)"
  by (induction tr) auto

lemma number_replicate: "number a (replicate n b) = (if a = b then n else 0)"
  by (induction n) auto

lemma parent_never_ends: "act_run parent_step as l = Some l' \<Longrightarrow> number Ended as = 0"
proof (induction as arbitrary: l)
  case (Cons a as)
  then show ?case by (cases a) (auto split: option.splits)
qed simp

abbreviation facts :: "event list \<Rightarrow> fact list" where
  "facts \<equiv> acts fact_of"

text \<open>C28. When \<open>process_wait_by_signal\<close> returns, in any order of its calls and of the ends of its children that
  the kernel allows (a signal is delivered when it is pending, and the signals of several children may have
  merged into one; \<open>waitpid\<close> answers with a child as long as one has ended and is not waited for;
  \<open>sigsuspend\<close> returns after a handler has run; unblocking leaves nothing pending), it has forked five
  children, all five have ended, it has waited for each of them, and its handler ran between one and
  five times.\<close>

theorem children_waited_for:
  assumes "process_wait_by_signal s = (Ok u, s')" "trace s' = trace s @ es"
    and "interleaves [facts es, replicate n Ended] tr" "act_run kernel_step (map snd tr) kernel_start \<noteq> None"
  shows "number Forked (facts es) = 5 \<and> n = 5 \<and> number Reaped (facts es) = 5 \<and>
    1 \<le> number Caught (facts es) \<and> number Caught (facts es) \<le> 5"
proof -
  from assms(3) have p: "proj 0 tr = facts es" "proj 1 tr = replicate n Ended" "list_all (\<lambda>(t, a). t < 2) tr"
    by (simp_all add: interleaves_def upt_rec numeral_2_eq_2)
  have "(t, a) \<in> set tr \<Longrightarrow> t = 1 \<Longrightarrow> a \<in> set (proj 1 tr)" for t a by (force simp: proj_def)
  with p(2,3) have o: "list_all (\<lambda>(t, a). t = 0 \<or> a = Ended) tr" by (fastforce simp: list_all_iff less_2_cases_iff)
  from wait_counting [OF assms(1)] obtain cs where "wait_counting s = (Ok cs, s')" by blast
  from movesD [OF parent_moves this assms(2)] have l: "act_run parent_step (proj 0 tr) (Starting, False, 5, 5) = Some (Finished, False, 0, snd cs)"
    using p(1) by (simp add: at_def list_all_iff)
  from assms(4) obtain r z pd k where k: "act_run kernel_step (map snd tr) (0, 0, False, False) = Some (r, z, pd, k)"
    by (auto simp: kernel_start_def)
  from order_run [OF k l o] have "family_step\<^sup>*\<^sup>* family_start (join (r, z, pd, k) (Finished, False, 0, snd cs))"
    by (simp add: family_start_def)
  from family.inv_run [OF this family_inv_start] have "snd cs = 0" "r = 0" "z = 0" by (simp_all add: family_inv_def)
  then show ?thesis
    using parent_counts [OF l] kernel_counts [OF k] number_two [OF p(3)] parent_never_ends [OF l] reaped_caught [OF l] p(1,2)
    by (auto simp: number_replicate Suc_le_eq)
qed

text \<open>Two children end while the others run: one signal for both.\<close>

theorem children_waited_for_witness:
  "\<exists>(s :: proc) s'. process_wait_by_signal s = (Ok (), s') \<and> number Reaped (facts (trace s')) = 5 \<and>
    number Caught (facts (trace s')) = 2"
proof -
  let ?sig = "(r_ok 0)\<lparr>rints := [SIGCHLD]\<rparr>"
  let ?s = "boot [r_ok 0, r_ok 0, r_ok 0, r_ok 11, r_ok 12, r_ok 13, r_ok 14, r_ok 15, ?sig, r_ok 12, r_ok 11, r_ok 0, r_fail EINTR,
     ?sig, r_ok 13, r_ok 14, r_ok 15, r_fail ECHILD, r_fail EINTR, r_ok 0, r_ok 0]"
  let ?r = "process_wait_by_signal ?s"
  let ?p = "map (Pair (0::nat))"
  let ?tr = "?p ([Enter, Blocked_sig] @ replicate 5 Forked @ [Enter]) @ [(1, Ended), (1, Ended)] @
    ?p [Caught, Reaped, Reaped, None_left, Woke, Enter] @ [(1, Ended), (1, Ended), (1, Ended)] @
    ?p [Caught, Reaped, Reaped, Reaped, None_left, Woke, Enter, Unblocked_sig]"
  have f: "facts (trace (snd ?r)) = [Enter, Blocked_sig] @ replicate 5 Forked @
     [Enter, Caught, Reaped, Reaped, None_left, Woke, Enter, Caught, Reaped, Reaped, Reaped, None_left, Woke, Enter, Unblocked_sig]"
    and k: "fst ?r = Ok ()" by code_simp+
  have i: "interleaves [facts (trace (snd ?r)), replicate 5 Ended] ?tr" unfolding f by code_simp
  have a: "act_run kernel_step (map snd ?tr) kernel_start \<noteq> None" by code_simp
  have r: "?r = (Ok (), snd ?r)" using k by (metis prod.collapse)
  have t: "trace (snd ?r) = trace ?s @ trace (snd ?r)" by (simp add: boot_def)
  have "number Caught (facts (trace (snd ?r))) = 2" unfolding f by code_simp
  then show ?thesis using children_waited_for [OF r t i a] r by blast
qed

end
