(* ===== verification/Spec2Isabelle.thy ===== *)
theory Spec2Isabelle
  imports GetNum Formats ProcessPrograms
begin

text \<open>
  The repository is a collection of sample programs for the interfaces of Linux, in three trees:
  \<open>LinuxAPI\<close> (files, processes, signals, timers, users), \<open>LinuxAPI2\<close> (threads, interprocess
  communication, sockets, alternative models of input and output) and \<open>api3\<close> (a second round over the
  same subjects, with a lighter error style). A sample is a function such as \<open>file_io\<close> or
  \<open>socket_echo_server\<close> that makes a sequence of system calls, looks at their results, prints what it
  saw and ends the process through a reporting function when a call failed; the \<open>main\<close> of a tree calls
  the one that is not commented out. What the samples share is the reporting library
  (\<open>error/error_functions.c\<close>, \<open>api3/helper.c\<close>), the reading of numeric arguments (\<open>error/get_num.c\<close>)
  and a few idioms: the copy loop, restarting after \<open>EINTR\<close>, a handler that sets a flag, a lock around
  a shared variable.

  \<^bold>\<open>The model.\<close> A C function is a program of \<^verbatim>\<open>OS\<close>: a function from the state of the process to an outcome
  and a new state. The kernel is not in the repository and is a parameter: the state holds the list of
  replies the system calls of the run get. A call (\<open>sys\<close>) takes the next reply, stores the error number
  it carries in \<open>errno\<close>, and is recorded in the \<open>trace\<close> with its reply; output through \<open>stdio\<close> is
  recorded there too, with its format and arguments, and may change \<open>errno\<close> as the standard allows.
  Fallible accesses are options (\<^verbatim>\<open>CMem\<close>: an object is a list of bytes, a byte that was never written is
  \<open>None\<close>, and an access outside the object is \<open>None\<close>), which \<open>require\<close> turns into the outcome
  \<open>Undefined\<close>; \<open>exit\<close>, \<open>_exit\<close>, \<open>abort\<close> and a fatal signal are outcomes of their own. The theorems
  quantify over the replies. What a kernel promises about them is a named hypothesis: \<open>legal\<close> (a \<open>read\<close>
  delivers at most as many bytes as were asked for, \<open>write\<close> takes no more than it was given), \<open>serves\<close> (the
  replies to \<open>read\<close> deliver a given file), and the predicates \<open>..._env\<close> of single samples.

  \<^bold>\<open>Loops and fuel.\<close> No definition carries fuel. \<open>loop\<close> of \<^verbatim>\<open>OS\<close> repeats its body as long as it asks for
  another round; a round that has used up no reply cannot be told from one that never ends and gives
  \<open>Diverged\<close>, so the number of replies that are left is the measure of its recursion. A run that needs
  more replies than it has stops as \<open>Blocked\<close>, a state the theorems distinguish from returning.
  Theorems about samples that never return say so, and those that claim a result show that it is
  reached with the replies they name.

  \<^bold>\<open>Several processes or threads.\<close> Where the correctness of a sample rests on the order in which its
  threads or processes run, there are two models: each participant as a program, and their
  interleavings as an inductive step relation over a record of the shared state and the places the
  participants are at. Invariants are proved by induction over the reachable states. \<^verbatim>\<open>Protocol\<close> holds the
  contract these relations share: an invariant every step keeps, a weight every step lowers (so every
  run is finite), and no stuck state but the final ones. \<^verbatim>\<open>Actions\<close> ties the two models together for
  the adding threads (\<^verbatim>\<open>ThreadPrograms\<close>), the shared memory transfer (\<^verbatim>\<open>ShmPrograms\<close>) and the parent that waits
  for its children (\<^verbatim>\<open>ProcessPrograms\<close>): the events of a run of a participant's program are its moves, and an
  order of the events of all participants that the locks, the memory or the kernel allow is a run of the
  step relation. For the other samples the step relation was written beside the code.

  \<^bold>\<open>Foundations\<close>
    \<^item> \<^verbatim>\<open>Prelude\<close>: the collections of rules, conversion to \<open>int\<close> and \<open>long\<close>.
    \<^item> \<^verbatim>\<open>CMem\<close>, \<^verbatim>\<open>CLib\<close>: objects of bytes, \<open>strcpy\<close> and its relatives, \<open>snprintf\<close>, \<open>strtol\<close>, integers in memory.
    \<^item> \<^verbatim>\<open>OS\<close>: processes, calls, programs, weakest preconditions, and the closure rules for programs that
      only make certain events (\<open>emits\<close>), have no undefined behaviour (\<open>safe\<close>), only extend the trace
      (\<open>tame\<close>), print exactly a list of lines (\<open>prints\<close>), or never end with a success status (\<open>no_success\<close>).
    \<^item> \<^verbatim>\<open>Flags\<close>: the numeric constants of the system headers.
    \<^item> \<^verbatim>\<open>FdIO\<close>: reading and writing through descriptors, the copy loop with what it has read and written.
    \<^item> \<^verbatim>\<open>Delivery\<close>: signals that arrive while a call waits (\<open>catching\<close>), for the handlers that are installed
      (\<open>taking\<close>); every other signal has its default action.
    \<^item> \<^verbatim>\<open>Protocol\<close>: the locales \<open>protocol\<close> and \<open>terminating\<close>. \<^verbatim>\<open>Actions\<close>: from traces to moves (\<open>moves\<close>).

  \<^bold>\<open>Components\<close>
    \<^item> \<^verbatim>\<open>ErrorFns\<close>: \<open>error_functions.c\<close> (identical in \<open>LinuxAPI\<close> and \<open>LinuxAPI2\<close>) and \<open>api3/helper.c\<close>. The locale
      \<open>reporter\<close> is what every sample relies on when it hands over a failed call: the function does not
      return, makes no further call, and ends the process as a failure. It is interpreted on \<open>errExit\<close>,
      \<open>fatal\<close>, \<open>errExitEN\<close> and \<open>errexit\<close>.
    \<^item> \<^verbatim>\<open>GetNum\<close>: \<open>getNum\<close>, \<open>getLong\<close>, \<open>getInt\<close> of \<open>get_num.c\<close>.
    \<^item> \<^verbatim>\<open>FileIO\<close>: \<open>file_io.c\<close>, \<open>file_stat.c\<close>, \<open>file_mount.c\<close>, \<open>file_buffering.c\<close>.
    \<^item> \<^verbatim>\<open>Api3File\<close>: \<open>fileio_*.c\<close> of \<open>api3\<close>. \<^verbatim>\<open>Directory\<close>: \<open>file_directory.c\<close>, \<open>file_event.c\<close>, \<open>directory_link.c\<close>.
    \<^item> \<^verbatim>\<open>Threads\<close>: \<open>pthread_sync.c\<close>, \<open>ipc_posix_unnamed_sem.c\<close>, \<open>pthread_lock.c\<close>; the locale \<open>lock\<close> is
      interpreted on mutexes, error-checking mutexes and semaphores. \<^verbatim>\<open>ThreadPrograms\<close>: the bodies of these
      threads, and of the producers and consumers, as programs; the sum that \<open>pthread_sync\<close> prints.
    \<^item> \<^verbatim>\<open>CondVar\<close>: \<open>pthread_condition_variable.c\<close>, \<open>timer_advanced_thread.c\<close>, the condition variable of \<open>pthread_lock.c\<close>.
    \<^item> \<^verbatim>\<open>ThreadData\<close>: \<open>pthread_safe.c\<close>, byte by byte. \<^verbatim>\<open>ThreadControl\<close>: \<open>pthread_introduce.c\<close>,
      \<open>pthread_cancellation.c\<close>, \<open>pthread_signal.c\<close>, \<open>pthread_example.c\<close>.
    \<^item> \<^verbatim>\<open>SharedMemory\<close>: the steps of the System V writer and reader; \<^verbatim>\<open>ShmPrograms\<close>: the two as programs. \<^verbatim>\<open>Pipes\<close>: \<open>ipc_pipe.c\<close>, the FIFO server and client.
      \<^verbatim>\<open>IpcObjects\<close>: System V semaphores and messages, POSIX queues, semaphores, shared memory.
    \<^item> \<^verbatim>\<open>Sockets\<close>: \<open>socket_inet_domain.c\<close>, \<open>socket_unix_domain.c\<close>. \<^verbatim>\<open>Echo\<close>: the echo server and client.
      \<^verbatim>\<open>AltIO\<close>: \<open>alt_io_sample.c\<close>, \<open>file_lock.c\<close> and the \<open>main\<close> of \<open>LinuxAPI2\<close>.
    \<^item> \<^verbatim>\<open>Processes\<close>: \<open>process_wait.c\<close>, \<open>process_exec.c\<close>, \<open>process_wait_by_signal.c\<close>;
      \<^verbatim>\<open>ProcessPrograms\<close>: the last one has waited for every child when it returns. \<^verbatim>\<open>ProcessControl\<close>:
      \<open>process_manage.c\<close> and \<open>process_manage_adv.c\<close> of \<open>api3\<close>; \<open>process_func.c\<close>, \<open>process_exit.c\<close>,
      \<open>process_env.c\<close>, \<open>process_clone.c\<close>, \<open>process_priority.c\<close>, \<open>process_resources.c\<close>.
      \<^verbatim>\<open>Daemon\<close>: \<open>process_daemonize.c\<close>.
    \<^item> \<^verbatim>\<open>Signals\<close>: \<open>signal_*.c\<close>, \<open>process_sync_by_signal.c\<close>, \<open>process_setpgid.c\<close> and \<open>signal_sender\<close>; \<^verbatim>\<open>Api3Signal\<close>: \<open>signal_example.c\<close>.
      The locale \<open>handling\<close> is the contract of a handler that keeps a property of the
      static variables whatever order the signals come in, interpreted on the handlers of \<open>signal_basic\<close>
      and of \<open>api3\<close>.
    \<^item> \<^verbatim>\<open>Timers\<close>: \<open>timer_*.c\<close> of \<open>LinuxAPI\<close>; \<^verbatim>\<open>Api3Time\<close>: \<open>time_format.c\<close>, \<open>time_sleep.c\<close>, \<open>timer_example.c\<close>, \<open>time_func.c\<close>.
    \<^item> \<^verbatim>\<open>Memory\<close>: \<open>mem_alloc.c\<close>, \<open>mem_handle.c\<close>, \<open>mmap_func.c\<close>, \<open>memory_alloc.c\<close>.
    \<^item> \<^verbatim>\<open>Options\<close>: \<open>option_parsing.c\<close> and the \<open>main\<close> of \<open>LinuxAPI\<close>, over a model of \<open>getopt\<close>.
    \<^item> \<^verbatim>\<open>SystemInfo\<close>: the system log, users, capabilities, limits, \<open>dltest.c\<close>.
    \<^item> \<^verbatim>\<open>GccExt\<close>: \<open>gcc_extension.c\<close> and the \<open>main\<close> of \<open>api3\<close>.
    \<^item> \<^verbatim>\<open>Formats\<close>: the arguments of \<open>printf\<close> and \<open>fprintf\<close> in all of the above agree with their formats.

  \<^bold>\<open>What the theorems show.\<close> For the libraries: every reporter prints the error its caller saw and ends
  as documented; \<open>getLong\<close> accepts exactly the numerals of a long and \<open>getInt\<close> reads back every printed
  int. For transfers: the copy loops, pipes, FIFOs, sockets, the echo service and the shared memory
  segment deliver what they were given, over every pattern of short, interrupted and failing calls.
  For concurrency: threads that add under any lock reach the sum, no wake-up or blocked signal is lost,
  messages in private buffers are not mixed, no reachable state is stuck. For records and status
  words: what one side encodes the other decodes. For output: every line has the arguments its format
  takes. For ends: children are all waited for, cancelled
  threads free their blocks, a daemon has left its terminal, privileges are kept. Where a sample does
  not do what it means to, the theorem states what it does.

  \<^bold>\<open>Not modelled.\<close> Headers that hold prototypes and include lines only, and the build files under
  \<open>Debug\<close>. The renderings of \<open>printf\<close> that only reach the terminal: the trace keeps format and
  arguments. Call sites that are commented out. Functions of the C library whose result the code only
  passes on (\<open>strsignal\<close>, \<open>getpwnam\<close>, \<open>readdir\<close>) are calls with replies. Delivery of a signal between two
  system calls is moved to the next of them, which the code cannot observe. The kernel's side of the
  calls, beyond the hypotheses named above.
\<close>

end
